theory Spec2Isabelle
  imports Main
begin

section \<open>Concrete types and the storage-kind decision\<close>

text \<open>
  A concrete type \<open>Derived\<close> is named by its type identity (what \<open>typeid\<close> compares).
  What the header asks of a type through \<open>sizeof\<close>, \<open>alignof\<close> and
  \<open>std::is_nothrow_move_constructible\<close> is collected in its traits; \<open>raises\<close> tells
  which special member functions of the type let an exception escape when they run
  (destructors do not throw).
\<close>

type_synonym tid = nat
type_synonym addr = nat

datatype special =
  constructor_args | copy_constructor | move_constructor | copy_assignment | move_assignment

record type_traits =
  size_of :: nat
  align_of :: nat
  is_nothrow_move_constructible :: bool
  raises :: "special \<Rightarrow> bool"

text \<open>
  The translation unit: the target's pointer layout, the traits of every concrete type,
  the template arguments of \<open>polymorphic_value_impl\<close>, whether \<open>__cpp_rtti\<close> is defined,
  and where the linker puts the function-local static table of each instantiation of
  \<open>get_vtable\<close> (\<open>place\<close> counts in units of the table's alignment).
\<close>

record config =
  traits_of :: "tid \<Rightarrow> type_traits"
  allow_allocations :: bool
  sbo_size :: nat
  sbo_alignment :: nat
  rtti_supported :: bool
  sizeof_ptr :: nat
  alignof_ptr :: nat
  alignof_vtable :: nat
  place :: "tid \<Rightarrow> nat"

text \<open>\<open>store_in_heap<Derived, SboSize, SboAlignment>\<close>, lines 44-47.\<close>

definition store_in_heap :: "type_traits \<Rightarrow> nat \<Rightarrow> nat \<Rightarrow> bool" where
  "store_in_heap Derived SboSize SboAlignment =
     (\<not> is_nothrow_move_constructible Derived \<or> size_of Derived > SboSize
      \<or> align_of Derived > SboAlignment)"

definition in_heap :: "config \<Rightarrow> tid \<Rightarrow> bool" where
  "in_heap cfg D = store_in_heap (traits_of cfg D) (sbo_size cfg) (sbo_alignment cfg)"

text \<open>A template whose \<open>static_assert\<close> fails has no instantiation: the build stops.\<close>

datatype 'a compiled = ill_formed string | well_formed 'a

section \<open>Objects, storage cells and the free store\<close>

record obj =
  dyn_type :: tid
  payload :: int

datatype ptr = nullptr | Addr addr

text \<open>
  The union of \<open>sbo_storage\<close>: bytes that hold no object, or a \<open>Derived\<close> built in
  \<open>local_buffer\<close>, or a pointer in \<open>heap_buffer\<close>.
\<close>

datatype sbo_storage = indeterminate | local_buffer obj | heap_buffer ptr

datatype event =
  Alloc addr | Dealloc addr
  | Ctor tid | CopyCtor tid | MoveCtor tid | CopyAssign tid | MoveAssign tid | Dtor tid

datatype exn = bad_alloc | bad_polymorphic_value string | user_exception

datatype 'a result = Returned 'a | Threw exn | Terminated | Undefined

text \<open>The entries of the table are pointers to instantiations of these function templates.\<close>

datatype destroy_fn = LocalDestroy tid | HeapDestroy tid

datatype transfer_fn =
  LocalCopy tid | LocalMove tid | LocalCopyAssign tid | LocalMoveAssign tid
  | HeapCopy tid | HeapCopyRaw tid | HeapMove | HeapMoveRaw tid
  | HeapCopyAssign tid | HeapCopyAssignRaw tid | HeapMoveAssign | HeapMoveAssignRaw tid

record polymorphic_value_vtable =
  destroy :: destroy_fn
  copy :: transfer_fn
  copy_raw :: transfer_fn
  move :: transfer_fn
  move_raw :: transfer_fn
  copy_assign :: transfer_fn
  copy_assign_raw :: transfer_fn
  move_assign :: transfer_fn
  move_assign_raw :: transfer_fn

text \<open>
  A \<open>polymorphic_value_vtable const*\<close>: the address of a static table and, the table
  being immutable, what is read through it.
\<close>

record vtable_ptr =
  address :: nat
  pointee :: polymorphic_value_vtable

section \<open>The operation tables and their addresses\<close>

text \<open>
  \<open>offsetof(odd_aligned_vtable, vtable)\<close>: the member follows one \<open>void*\<close>, at the next
  multiple of its own alignment.
\<close>

definition offsetof_vtable :: "config \<Rightarrow> nat" where
  "offsetof_vtable cfg =
     ((sizeof_ptr cfg + alignof_vtable cfg - 1) div alignof_vtable cfg) * alignof_vtable cfg"

text \<open>\<open>get_vtable<Derived, Storage, false>::get\<close>, lines 170-188.\<close>

definition get_vtable_local :: "config \<Rightarrow> tid \<Rightarrow> vtable_ptr" where
  "get_vtable_local cfg D =
     \<lparr> address = (alignof_ptr cfg * 2) * place cfg D,
       pointee = \<lparr> destroy = LocalDestroy D,
                   copy = LocalCopy D,
                   copy_raw = LocalCopy D,
                   move = LocalMove D,
                   move_raw = LocalMove D,
                   copy_assign = LocalCopyAssign D,
                   copy_assign_raw = LocalCopyAssign D,
                   move_assign = LocalMoveAssign D,
                   move_assign_raw = LocalMoveAssign D \<rparr> \<rparr>"

text \<open>\<open>get_vtable<Derived, Storage, true>::get\<close>, lines 191-225.\<close>

definition get_vtable_heap :: "config \<Rightarrow> tid \<Rightarrow> vtable_ptr compiled" where
  "get_vtable_heap cfg D =
     (if offsetof_vtable cfg = alignof_ptr cfg
      then well_formed
        \<lparr> address = (alignof_ptr cfg * 2) * place cfg D + offsetof_vtable cfg,
          pointee = \<lparr> destroy = HeapDestroy D,
                      copy = HeapCopy D,
                      copy_raw = HeapCopyRaw D,
                      move = HeapMove,
                      move_raw = HeapMoveRaw D,
                      copy_assign = HeapCopyAssign D,
                      copy_assign_raw = HeapCopyAssignRaw D,
                      move_assign = HeapMoveAssign,
                      move_assign_raw = HeapMoveAssignRaw D \<rparr> \<rparr>
      else ill_formed ''Bug: misaligned vtable'')"

text \<open>The primary template picks the specialisation by \<open>store_in_heap\<close>, lines 164-167.\<close>

definition get_vtable :: "config \<Rightarrow> tid \<Rightarrow> vtable_ptr compiled" where
  "get_vtable cfg D =
     (if in_heap cfg D then get_vtable_heap cfg D else well_formed (get_vtable_local cfg D))"

text \<open>\<open>polymorphic_value_impl::storage_is_local\<close>, lines 405-411.\<close>

definition storage_is_local :: "config \<Rightarrow> vtable_ptr \<Rightarrow> bool" where
  "storage_is_local cfg m_vtable = (address m_vtable mod (alignof_ptr cfg * 2) = 0)"

section \<open>Program state and control flow\<close>

record polymorphic_value_impl =
  m_storage :: sbo_storage
  m_vtable :: vtable_ptr

text \<open>
  The containers alive, by their address; the blocks of the free store, never reused (a
  freed or not yet constructed block holds no object, nor does one that was not allocated
  for an object of a concrete type); how many blocks \<open>operator new\<close> can still hand out; and the calls of special member functions, of \<open>operator new\<close> and
  of \<open>operator delete\<close> so far, which is what the counters of the test suite count.
\<close>

record state =
  conts :: "addr \<rightharpoonup> polymorphic_value_impl"
  heap :: "obj option list"
  free_blocks :: nat
  trace :: "event list"

text \<open>
  A \<open>void*\<close> argument of a table entry: the \<open>m_storage\<close> of the container at an address,
  or an object that no container manages (its value stands for its address; the model
  leaves a moved-from object as it was, as the test suite's types do).
\<close>

datatype void_ptr = storage addr | object obj

datatype ref = lvalue obj | rvalue obj

datatype init = args int | forward ref

definition referent :: "ref \<Rightarrow> obj" where
  "referent r = (case r of lvalue d \<Rightarrow> d | rvalue d \<Rightarrow> d)"

definition and_then ::
  "'a result \<times> state \<Rightarrow> ('a \<Rightarrow> state \<Rightarrow> 'b result \<times> state) \<Rightarrow> 'b result \<times> state" where
  "and_then r f =
     (case r of
        (Returned x, s) \<Rightarrow> f x s
      | (Threw e, s) \<Rightarrow> (Threw e, s)
      | (Terminated, s) \<Rightarrow> (Terminated, s)
      | (Undefined, s) \<Rightarrow> (Undefined, s))"

text \<open>An exception that reaches the edge of a \<open>noexcept\<close> function calls \<open>std::terminate\<close>.\<close>

definition noexcept :: "'a result \<times> state \<Rightarrow> 'a result \<times> state" where
  "noexcept r = (case r of (Threw e, s) \<Rightarrow> (Terminated, s) | _ \<Rightarrow> r)"

definition log :: "event \<Rightarrow> state \<Rightarrow> state" where
  "log e s = s\<lparr>trace := trace s @ [e]\<rparr>"

definition heap_at :: "state \<Rightarrow> addr \<Rightarrow> obj option" where
  "heap_at s a = (if a < length (heap s) then heap s ! a else None)"

definition deref :: "state \<Rightarrow> ptr \<Rightarrow> obj option" where
  "deref s p = (case p of nullptr \<Rightarrow> None | Addr a \<Rightarrow> heap_at s a)"

text \<open>\<open>*static_cast<Derived*>(p)\<close> and \<open>*static_cast<Derived**>(p)\<close>.\<close>

definition as_Derived :: "state \<Rightarrow> void_ptr \<Rightarrow> obj option" where
  "as_Derived s p =
     (case p of
        object d \<Rightarrow> Some d
      | storage n \<Rightarrow>
          (case conts s n of
             None \<Rightarrow> None
           | Some c \<Rightarrow> (case m_storage c of local_buffer d \<Rightarrow> Some d | _ \<Rightarrow> None)))"

definition as_pointer :: "state \<Rightarrow> void_ptr \<Rightarrow> ptr option" where
  "as_pointer s p =
     (case p of
        object d \<Rightarrow> None
      | storage n \<Rightarrow>
          (case conts s n of
             None \<Rightarrow> None
           | Some c \<Rightarrow> (case m_storage c of heap_buffer q \<Rightarrow> Some q | _ \<Rightarrow> None)))"

definition store :: "addr \<Rightarrow> sbo_storage \<Rightarrow> state \<Rightarrow> unit result \<times> state" where
  "store dst v s =
     (case conts s dst of
        None \<Rightarrow> (Undefined, s)
      | Some c \<Rightarrow> (Returned (), s\<lparr>conts := (conts s)(dst \<mapsto> c\<lparr>m_storage := v\<rparr>)\<rparr>))"

definition poke :: "addr \<Rightarrow> obj \<Rightarrow> state \<Rightarrow> unit result \<times> state" where
  "poke a d s = (Returned (), s\<lparr>heap := (heap s)[a := Some d]\<rparr>)"

section \<open>Special member functions of the concrete type, new and delete\<close>

definition run_special ::
  "config \<Rightarrow> tid \<Rightarrow> special \<Rightarrow> event \<Rightarrow> state \<Rightarrow> unit result \<times> state" where
  "run_special cfg D m e s =
     (if raises (traits_of cfg D) m then (Threw user_exception, s) else (Returned (), log e s))"

text \<open>
  \<open>Derived{...}\<close> from constructor arguments, from an lvalue or from an rvalue. The
  new object is a \<open>Derived\<close> whatever the dynamic type of the argument (slicing). A move
  constructor declared \<open>noexcept\<close> lets no exception out.
\<close>

definition construct :: "config \<Rightarrow> tid \<Rightarrow> init \<Rightarrow> state \<Rightarrow> obj result \<times> state" where
  "construct cfg D i s =
     (case i of
        args v \<Rightarrow>
          and_then (run_special cfg D constructor_args (Ctor D) s)
            (\<lambda>_ s'. (Returned \<lparr>dyn_type = D, payload = v\<rparr>, s'))
      | forward (lvalue d) \<Rightarrow>
          and_then (run_special cfg D copy_constructor (CopyCtor D) s)
            (\<lambda>_ s'. (Returned \<lparr>dyn_type = D, payload = payload d\<rparr>, s'))
      | forward (rvalue d) \<Rightarrow>
          and_then
            (if is_nothrow_move_constructible (traits_of cfg D)
             then noexcept (run_special cfg D move_constructor (MoveCtor D) s)
             else run_special cfg D move_constructor (MoveCtor D) s)
            (\<lambda>_ s'. (Returned \<lparr>dyn_type = D, payload = payload d\<rparr>, s')))"

text \<open>
  \<open>new Derived{...}\<close>: \<open>operator new\<close> throws \<open>bad_alloc\<close> when no block is left; when the
  constructor throws, the block is given back and the exception goes on.
\<close>

definition new_expr :: "config \<Rightarrow> tid \<Rightarrow> init \<Rightarrow> state \<Rightarrow> ptr result \<times> state" where
  "new_expr cfg D i s =
     (if free_blocks s = 0 then (Threw bad_alloc, s)
      else
        let a = length (heap s);
            s1 = log (Alloc a) (s\<lparr>heap := heap s @ [None], free_blocks := free_blocks s - 1\<rparr>)
        in case construct cfg D i s1 of
             (Returned d, s2) \<Rightarrow> (Returned (Addr a), s2\<lparr>heap := (heap s2)[a := Some d]\<rparr>)
           | (Threw e, s2) \<Rightarrow>
               (Threw e, log (Dealloc a) (s2\<lparr>free_blocks := free_blocks s2 + 1\<rparr>))
           | (Terminated, s2) \<Rightarrow> (Terminated, s2)
           | (Undefined, s2) \<Rightarrow> (Undefined, s2))"

text \<open>
  \<open>delete p\<close>: nothing for a null pointer; otherwise the (virtual) destructor of the
  object, then \<open>operator delete\<close>. Deleting a block that holds no object is undefined.
\<close>

definition delete_expr :: "ptr \<Rightarrow> state \<Rightarrow> unit result \<times> state" where
  "delete_expr p s =
     (case p of
        nullptr \<Rightarrow> (Returned (), s)
      | Addr a \<Rightarrow>
          (case heap_at s a of
             None \<Rightarrow> (Undefined, s)
           | Some d \<Rightarrow>
               (Returned (),
                log (Dealloc a)
                  ((log (Dtor (dyn_type d)) s)
                     \<lparr>heap := (heap s)[a := None], free_blocks := free_blocks s + 1\<rparr>))))"

text \<open>
  \<open>sbo_storage::build<Derived>\<close>, lines 54-63. Its \<open>noexcept\<close> specification, like those
  of the constructors and of \<open>emplace\<close> that are computed from it, holds only where the
  storage is inline and the constructor of \<open>Derived\<close> is itself declared \<open>noexcept\<close>, so
  that nothing can reach it: it changes no outcome and is left out.
\<close>

definition build :: "config \<Rightarrow> tid \<Rightarrow> init \<Rightarrow> addr \<Rightarrow> state \<Rightarrow> unit result \<times> state" where
  "build cfg D i this s =
     (if store_in_heap (traits_of cfg D) (sbo_size cfg) (sbo_alignment cfg)
      then and_then (new_expr cfg D i s) (\<lambda>p. store this (heap_buffer p))
      else and_then (construct cfg D i s) (\<lambda>d. store this (local_buffer d)))"

section \<open>The entry points of the tables\<close>

text \<open>Namespace \<open>local_storage\<close>, lines 71-105.\<close>

definition local_storage_destroy :: "tid \<Rightarrow> addr \<Rightarrow> state \<Rightarrow> unit result \<times> state" where
  "local_storage_destroy D p s =
     (case as_Derived s (storage p) of
        None \<Rightarrow> (Undefined, s)
      | Some d \<Rightarrow> store p indeterminate (log (Dtor (dyn_type d)) s))"

definition local_storage_copy ::
  "config \<Rightarrow> tid \<Rightarrow> void_ptr \<Rightarrow> addr \<Rightarrow> state \<Rightarrow> unit result \<times> state" where
  "local_storage_copy cfg D src dst s =
     (case as_Derived s src of
        None \<Rightarrow> (Undefined, s)
      | Some d \<Rightarrow>
          and_then (construct cfg D (forward (lvalue d)) s) (\<lambda>n. store dst (local_buffer n)))"

definition local_storage_move ::
  "config \<Rightarrow> tid \<Rightarrow> void_ptr \<Rightarrow> addr \<Rightarrow> state \<Rightarrow> unit result \<times> state" where
  "local_storage_move cfg D src dst s =
     noexcept
       (case as_Derived s src of
          None \<Rightarrow> (Undefined, s)
        | Some d \<Rightarrow>
            and_then (construct cfg D (forward (rvalue d)) s) (\<lambda>n. store dst (local_buffer n)))"

definition local_storage_copy_assign ::
  "config \<Rightarrow> tid \<Rightarrow> void_ptr \<Rightarrow> addr \<Rightarrow> state \<Rightarrow> unit result \<times> state" where
  "local_storage_copy_assign cfg D src dst s =
     (case as_Derived s (storage dst) of
        None \<Rightarrow> (Undefined, s)
      | Some t \<Rightarrow>
          (case as_Derived s src of
             None \<Rightarrow> (Undefined, s)
           | Some d \<Rightarrow>
               and_then (run_special cfg D copy_assignment (CopyAssign D) s)
                 (\<lambda>_. store dst (local_buffer (t\<lparr>payload := payload d\<rparr>)))))"

definition local_storage_move_assign ::
  "config \<Rightarrow> tid \<Rightarrow> void_ptr \<Rightarrow> addr \<Rightarrow> state \<Rightarrow> unit result \<times> state" where
  "local_storage_move_assign cfg D src dst s =
     noexcept
       (case as_Derived s (storage dst) of
          None \<Rightarrow> (Undefined, s)
        | Some t \<Rightarrow>
            (case as_Derived s src of
               None \<Rightarrow> (Undefined, s)
             | Some d \<Rightarrow>
                 and_then (run_special cfg D move_assignment (MoveAssign D) s)
                   (\<lambda>_. store dst (local_buffer (t\<lparr>payload := payload d\<rparr>)))))"

text \<open>Namespace \<open>heap_storage\<close>, lines 107-162.\<close>

definition heap_storage_destroy :: "tid \<Rightarrow> addr \<Rightarrow> state \<Rightarrow> unit result \<times> state" where
  "heap_storage_destroy D p s =
     (case as_pointer s (storage p) of
        None \<Rightarrow> (Undefined, s)
      | Some q \<Rightarrow> delete_expr q s)"

definition heap_storage_copy ::
  "config \<Rightarrow> tid \<Rightarrow> void_ptr \<Rightarrow> addr \<Rightarrow> state \<Rightarrow> unit result \<times> state" where
  "heap_storage_copy cfg D src dst s =
     (case as_pointer s src of
        None \<Rightarrow> (Undefined, s)
      | Some q \<Rightarrow>
          (case deref s q of
             None \<Rightarrow> (Undefined, s)
           | Some d \<Rightarrow>
               and_then (new_expr cfg D (forward (lvalue d)) s)
                 (\<lambda>n. store dst (heap_buffer n))))"

definition heap_storage_copy_raw ::
  "config \<Rightarrow> tid \<Rightarrow> void_ptr \<Rightarrow> addr \<Rightarrow> state \<Rightarrow> unit result \<times> state" where
  "heap_storage_copy_raw cfg D src dst s =
     (case as_Derived s src of
        None \<Rightarrow> (Undefined, s)
      | Some d \<Rightarrow>
          and_then (new_expr cfg D (forward (lvalue d)) s) (\<lambda>n. store dst (heap_buffer n)))"

definition heap_storage_move :: "void_ptr \<Rightarrow> addr \<Rightarrow> state \<Rightarrow> unit result \<times> state" where
  "heap_storage_move src dst s =
     noexcept
       (case src of
          object d \<Rightarrow> (Undefined, s)
        | storage n \<Rightarrow>
            (case as_pointer s src of
               None \<Rightarrow> (Undefined, s)
             | Some q \<Rightarrow>
                 and_then (store dst (heap_buffer q) s) (\<lambda>_. store n (heap_buffer nullptr))))"

definition heap_storage_move_raw ::
  "config \<Rightarrow> tid \<Rightarrow> void_ptr \<Rightarrow> addr \<Rightarrow> state \<Rightarrow> unit result \<times> state" where
  "heap_storage_move_raw cfg D src dst s =
     noexcept
       (case as_Derived s src of
          None \<Rightarrow> (Undefined, s)
        | Some d \<Rightarrow>
            and_then (new_expr cfg D (forward (rvalue d)) s) (\<lambda>n. store dst (heap_buffer n)))"

text \<open>\<open>**dst = ...\<close>: the object behind the destination's pointer is assigned to.\<close>

definition assign_through ::
  "config \<Rightarrow> tid \<Rightarrow> special \<Rightarrow> event \<Rightarrow> obj option \<Rightarrow> addr \<Rightarrow> state
     \<Rightarrow> unit result \<times> state" where
  "assign_through cfg D m e from dst s =
     (case as_pointer s (storage dst) of
        Some (Addr a) \<Rightarrow>
          (case heap_at s a of
             None \<Rightarrow> (Undefined, s)
           | Some t \<Rightarrow>
               (case from of
                  None \<Rightarrow> (Undefined, s)
                | Some d \<Rightarrow>
                    and_then (run_special cfg D m e s) (\<lambda>_. poke a (t\<lparr>payload := payload d\<rparr>))))
      | _ \<Rightarrow> (Undefined, s))"

definition heap_storage_copy_assign ::
  "config \<Rightarrow> tid \<Rightarrow> void_ptr \<Rightarrow> addr \<Rightarrow> state \<Rightarrow> unit result \<times> state" where
  "heap_storage_copy_assign cfg D src dst s =
     assign_through cfg D copy_assignment (CopyAssign D)
       (case as_pointer s src of None \<Rightarrow> None | Some q \<Rightarrow> deref s q) dst s"

definition heap_storage_copy_assign_raw ::
  "config \<Rightarrow> tid \<Rightarrow> void_ptr \<Rightarrow> addr \<Rightarrow> state \<Rightarrow> unit result \<times> state" where
  "heap_storage_copy_assign_raw cfg D src dst s =
     assign_through cfg D copy_assignment (CopyAssign D) (as_Derived s src) dst s"

definition heap_storage_move_assign :: "void_ptr \<Rightarrow> addr \<Rightarrow> state \<Rightarrow> unit result \<times> state" where
  "heap_storage_move_assign src dst s =
     noexcept
       (case src of
          object d \<Rightarrow> (Undefined, s)
        | storage n \<Rightarrow>
            (case as_pointer s src of
               None \<Rightarrow> (Undefined, s)
             | Some q \<Rightarrow>
                 (case as_pointer s (storage dst) of
                    None \<Rightarrow> (Undefined, s)
                  | Some r \<Rightarrow>
                      and_then (store n (heap_buffer r) s) (\<lambda>_. store dst (heap_buffer q)))))"

definition heap_storage_move_assign_raw ::
  "config \<Rightarrow> tid \<Rightarrow> void_ptr \<Rightarrow> addr \<Rightarrow> state \<Rightarrow> unit result \<times> state" where
  "heap_storage_move_assign_raw cfg D src dst s =
     noexcept (assign_through cfg D move_assignment (MoveAssign D) (as_Derived s src) dst s)"

text \<open>A call through a function pointer runs the function it points to.\<close>

definition call_destroy :: "destroy_fn \<Rightarrow> addr \<Rightarrow> state \<Rightarrow> unit result \<times> state" where
  "call_destroy f p s =
     (case f of
        LocalDestroy D \<Rightarrow> local_storage_destroy D p s
      | HeapDestroy D \<Rightarrow> heap_storage_destroy D p s)"

definition call ::
  "config \<Rightarrow> transfer_fn \<Rightarrow> void_ptr \<Rightarrow> addr \<Rightarrow> state \<Rightarrow> unit result \<times> state" where
  "call cfg f src dst s =
     (case f of
        LocalCopy D \<Rightarrow> local_storage_copy cfg D src dst s
      | LocalMove D \<Rightarrow> local_storage_move cfg D src dst s
      | LocalCopyAssign D \<Rightarrow> local_storage_copy_assign cfg D src dst s
      | LocalMoveAssign D \<Rightarrow> local_storage_move_assign cfg D src dst s
      | HeapCopy D \<Rightarrow> heap_storage_copy cfg D src dst s
      | HeapCopyRaw D \<Rightarrow> heap_storage_copy_raw cfg D src dst s
      | HeapMove \<Rightarrow> heap_storage_move src dst s
      | HeapMoveRaw D \<Rightarrow> heap_storage_move_raw cfg D src dst s
      | HeapCopyAssign D \<Rightarrow> heap_storage_copy_assign cfg D src dst s
      | HeapCopyAssignRaw D \<Rightarrow> heap_storage_copy_assign_raw cfg D src dst s
      | HeapMoveAssign \<Rightarrow> heap_storage_move_assign src dst s
      | HeapMoveAssignRaw D \<Rightarrow> heap_storage_move_assign_raw cfg D src dst s)"

section \<open>The container\<close>

definition static_assert :: "bool \<Rightarrow> string \<Rightarrow> 'a compiled \<Rightarrow> 'a compiled" where
  "static_assert c msg k = (if c then k else ill_formed msg)"

definition with_vtable :: "config \<Rightarrow> tid \<Rightarrow> (vtable_ptr \<Rightarrow> 'a) \<Rightarrow> 'a compiled" where
  "with_vtable cfg D k =
     (case get_vtable cfg D of ill_formed msg \<Rightarrow> ill_formed msg | well_formed vt \<Rightarrow> well_formed (k vt))"

text \<open>
  A constructor starts on storage where no container lives, with \<open>m_vtable\<close>
  initialised and \<open>m_storage\<close> not yet; when it throws, no container has come to life.
\<close>

definition begin_lifetime :: "addr \<Rightarrow> vtable_ptr \<Rightarrow> state \<Rightarrow> unit result \<times> state" where
  "begin_lifetime this vt s =
     (case conts s this of
        Some c \<Rightarrow> (Undefined, s)
      | None \<Rightarrow>
          (Returned (), s\<lparr>conts := (conts s)(this \<mapsto> \<lparr>m_storage = indeterminate, m_vtable = vt\<rparr>)\<rparr>))"

definition under_construction :: "addr \<Rightarrow> unit result \<times> state \<Rightarrow> unit result \<times> state" where
  "under_construction this r =
     (case r of (Threw e, s) \<Rightarrow> (Threw e, s\<lparr>conts := (conts s)(this := None)\<rparr>) | _ \<Rightarrow> r)"

definition set_vtable :: "addr \<Rightarrow> vtable_ptr \<Rightarrow> state \<Rightarrow> unit result \<times> state" where
  "set_vtable this vt s =
     (case conts s this of
        None \<Rightarrow> (Undefined, s)
      | Some c \<Rightarrow> (Returned (), s\<lparr>conts := (conts s)(this \<mapsto> c\<lparr>m_vtable := vt\<rparr>)\<rparr>))"

text \<open>\<open>m_vtable->entry(...)\<close>: the table is read through the container's pointer.\<close>

definition via_vtable ::
  "addr \<Rightarrow> (polymorphic_value_vtable \<Rightarrow> state \<Rightarrow> unit result \<times> state) \<Rightarrow> state
     \<Rightarrow> unit result \<times> state" where
  "via_vtable this k s =
     (case conts s this of None \<Rightarrow> (Undefined, s) | Some c \<Rightarrow> k (pointee (m_vtable c)) s)"

definition slices :: "config \<Rightarrow> tid \<Rightarrow> obj \<Rightarrow> bool" where
  "slices cfg D d = (rtti_supported cfg \<and> D \<noteq> dyn_type d)"

text \<open>
  \<open>throw bad_polymorphic_value{what_arg}\<close>, lines 273, 343 and 369. The class inherits
  the constructors of \<open>std::logic_error\<close> (lines 250-252), which copy the message into a
  block obtained from \<open>operator new\<close>: building the exception throws \<open>bad_alloc\<close> when no
  block is left; otherwise the block, which holds no object of a concrete type, belongs to
  the exception in flight.
\<close>

definition throw_bad_polymorphic_value :: "string \<Rightarrow> state \<Rightarrow> unit result \<times> state" where
  "throw_bad_polymorphic_value what_arg s =
     (if free_blocks s = 0 then (Threw bad_alloc, s)
      else (Threw (bad_polymorphic_value what_arg),
            log (Alloc (length (heap s)))
              (s\<lparr>heap := heap s @ [None], free_blocks := free_blocks s - 1\<rparr>)))"

text \<open>\<open>polymorphic_value_impl(Derived&& d)\<close>, lines 264-278.\<close>

definition ctor_value_body ::
  "config \<Rightarrow> tid \<Rightarrow> vtable_ptr \<Rightarrow> addr \<Rightarrow> ref \<Rightarrow> state \<Rightarrow> unit result \<times> state" where
  "ctor_value_body cfg D vt this d s =
     (if slices cfg D (referent d) then throw_bad_polymorphic_value ''Value would slice'' s
      else under_construction this
             (and_then (begin_lifetime this vt s) (\<lambda>_. build cfg D (forward d) this)))"

definition ctor_value ::
  "config \<Rightarrow> tid \<Rightarrow> (addr \<Rightarrow> ref \<Rightarrow> state \<Rightarrow> unit result \<times> state) compiled" where
  "ctor_value cfg D =
     static_assert (allow_allocations cfg \<or> \<not> in_heap cfg D) ''Allocations are not allowed''
       (with_vtable cfg D (ctor_value_body cfg D))"

text \<open>\<open>polymorphic_value_impl(in_place_type_t<Derived>, Args&&...)\<close>, lines 280-290.\<close>

definition ctor_in_place_body ::
  "config \<Rightarrow> tid \<Rightarrow> vtable_ptr \<Rightarrow> addr \<Rightarrow> init \<Rightarrow> state \<Rightarrow> unit result \<times> state" where
  "ctor_in_place_body cfg D vt this i s =
     under_construction this (and_then (begin_lifetime this vt s) (\<lambda>_. build cfg D i this))"

definition ctor_in_place ::
  "config \<Rightarrow> tid \<Rightarrow> (addr \<Rightarrow> init \<Rightarrow> state \<Rightarrow> unit result \<times> state) compiled" where
  "ctor_in_place cfg D =
     static_assert (allow_allocations cfg \<or> \<not> in_heap cfg D) ''Allocations are not allowed''
       (with_vtable cfg D (ctor_in_place_body cfg D))"

text \<open>Copy and move constructor, lines 292-300.\<close>

definition ctor_copy :: "config \<Rightarrow> addr \<Rightarrow> addr \<Rightarrow> state \<Rightarrow> unit result \<times> state" where
  "ctor_copy cfg this src s =
     (case conts s src of
        None \<Rightarrow> (Undefined, s)
      | Some c \<Rightarrow>
          under_construction this
            (and_then (begin_lifetime this (m_vtable c) s)
               (\<lambda>_. via_vtable this (\<lambda>vt. call cfg (copy vt) (storage src) this))))"

definition ctor_move :: "config \<Rightarrow> addr \<Rightarrow> addr \<Rightarrow> state \<Rightarrow> unit result \<times> state" where
  "ctor_move cfg this src s =
     noexcept
       (case conts s src of
          None \<Rightarrow> (Undefined, s)
        | Some c \<Rightarrow>
            under_construction this
              (and_then (begin_lifetime this (m_vtable c) s)
                 (\<lambda>_. via_vtable this (\<lambda>vt. call cfg (move vt) (storage src) this))))"

text \<open>\<open>operator=(polymorphic_value_impl const&)\<close>, lines 302-317.\<close>

definition operator_assign_copy ::
  "config \<Rightarrow> addr \<Rightarrow> addr \<Rightarrow> state \<Rightarrow> unit result \<times> state" where
  "operator_assign_copy cfg this src s =
     (if src = this then (Returned (), s)
      else
        (case (conts s this, conts s src) of
           (Some c, Some c') \<Rightarrow>
             if address (m_vtable c) = address (m_vtable c')
             then via_vtable this (\<lambda>vt. call cfg (copy_assign vt) (storage src) this) s
             else
               and_then (via_vtable this (\<lambda>vt. call_destroy (destroy vt) this) s)
                 (\<lambda>_ s1. and_then (set_vtable this (m_vtable c') s1)
                    (\<lambda>_. via_vtable this (\<lambda>vt. call cfg (copy vt) (storage src) this)))
         | _ \<Rightarrow> (Undefined, s)))"

text \<open>\<open>operator=(polymorphic_value_impl&&) noexcept\<close>, lines 319-334.\<close>

definition operator_assign_move ::
  "config \<Rightarrow> addr \<Rightarrow> addr \<Rightarrow> state \<Rightarrow> unit result \<times> state" where
  "operator_assign_move cfg this src s =
     noexcept
       (if src = this then (Returned (), s)
        else
          (case (conts s this, conts s src) of
             (Some c, Some c') \<Rightarrow>
               if address (m_vtable c) = address (m_vtable c')
               then via_vtable this (\<lambda>vt. call cfg (move_assign vt) (storage src) this) s
               else
                 and_then (via_vtable this (\<lambda>vt. call_destroy (destroy vt) this) s)
                   (\<lambda>_ s1. and_then (set_vtable this (m_vtable c') s1)
                      (\<lambda>_. via_vtable this (\<lambda>vt. call cfg (move vt) (storage src) this)))
           | _ \<Rightarrow> (Undefined, s)))"

text \<open>\<open>operator=(Derived const&)\<close>, lines 336-357.\<close>

definition operator_assign_value_copy_body ::
  "config \<Rightarrow> tid \<Rightarrow> vtable_ptr \<Rightarrow> addr \<Rightarrow> obj \<Rightarrow> state \<Rightarrow> unit result \<times> state" where
  "operator_assign_value_copy_body cfg D new_vtable this src s =
     (if slices cfg D src then throw_bad_polymorphic_value ''Value would slice'' s
      else
        (case conts s this of
           None \<Rightarrow> (Undefined, s)
         | Some c \<Rightarrow>
             if address (m_vtable c) = address new_vtable
             then via_vtable this (\<lambda>vt. call cfg (copy_assign_raw vt) (object src) this) s
             else
               and_then (via_vtable this (\<lambda>vt. call_destroy (destroy vt) this) s)
                 (\<lambda>_ s1. and_then (set_vtable this new_vtable s1)
                    (\<lambda>_. via_vtable this (\<lambda>vt. call cfg (copy_raw vt) (object src) this)))))"

definition operator_assign_value_copy ::
  "config \<Rightarrow> tid \<Rightarrow> (addr \<Rightarrow> obj \<Rightarrow> state \<Rightarrow> unit result \<times> state) compiled" where
  "operator_assign_value_copy cfg D =
     static_assert (allow_allocations cfg \<or> \<not> in_heap cfg D) ''Allocations are not allowed''
       (with_vtable cfg D (operator_assign_value_copy_body cfg D))"

text \<open>\<open>operator=(Derived&&)\<close>, lines 359-383.\<close>

definition operator_assign_value_move_body ::
  "config \<Rightarrow> tid \<Rightarrow> vtable_ptr \<Rightarrow> addr \<Rightarrow> obj \<Rightarrow> state \<Rightarrow> unit result \<times> state" where
  "operator_assign_value_move_body cfg D new_vtable this src s =
     (if slices cfg D src then throw_bad_polymorphic_value ''Value would slice'' s
      else
        (case conts s this of
           None \<Rightarrow> (Undefined, s)
         | Some c \<Rightarrow>
             if address (m_vtable c) = address new_vtable
             then via_vtable this (\<lambda>vt. call cfg (move_assign_raw vt) (object src) this) s
             else
               and_then (via_vtable this (\<lambda>vt. call_destroy (destroy vt) this) s)
                 (\<lambda>_ s1. and_then (set_vtable this new_vtable s1)
                    (\<lambda>_. via_vtable this (\<lambda>vt. call cfg (move_raw vt) (object src) this)))))"

definition operator_assign_value_move ::
  "config \<Rightarrow> tid \<Rightarrow> (addr \<Rightarrow> obj \<Rightarrow> state \<Rightarrow> unit result \<times> state) compiled" where
  "operator_assign_value_move cfg D =
     static_assert (allow_allocations cfg \<or> \<not> in_heap cfg D) ''Allocations are not allowed''
       (with_vtable cfg D (operator_assign_value_move_body cfg D))"

text \<open>\<open>emplace<Derived>(Args&&...)\<close>, lines 385-395.\<close>

definition emplace_body ::
  "config \<Rightarrow> tid \<Rightarrow> vtable_ptr \<Rightarrow> addr \<Rightarrow> init \<Rightarrow> state \<Rightarrow> unit result \<times> state" where
  "emplace_body cfg D vt this i s =
     and_then (via_vtable this (\<lambda>t. call_destroy (destroy t) this) s)
       (\<lambda>_ s1. and_then (set_vtable this vt s1) (\<lambda>_. build cfg D i this))"

definition emplace ::
  "config \<Rightarrow> tid \<Rightarrow> (addr \<Rightarrow> init \<Rightarrow> state \<Rightarrow> unit result \<times> state) compiled" where
  "emplace cfg D =
     static_assert (allow_allocations cfg \<or> \<not> in_heap cfg D) ''Allocations are not allowed''
       (with_vtable cfg D (emplace_body cfg D))"

text \<open>\<open>~polymorphic_value_impl()\<close>, line 397: after it the container is no longer alive.\<close>

definition dtor :: "addr \<Rightarrow> state \<Rightarrow> unit result \<times> state" where
  "dtor this s =
     and_then (via_vtable this (\<lambda>vt. call_destroy (destroy vt) this) s)
       (\<lambda>_ s1. (Returned (), s1\<lparr>conts := (conts s1)(this := None)\<rparr>))"

text \<open>
  \<open>get()\<close>, lines 413-429, followed by a dereference: the object the returned \<open>Base*\<close>
  points to, if it points to one.
\<close>

definition get :: "config \<Rightarrow> state \<Rightarrow> addr \<Rightarrow> obj option" where
  "get cfg s this =
     (case conts s this of
        None \<Rightarrow> None
      | Some c \<Rightarrow>
          if storage_is_local cfg (m_vtable c)
          then (case m_storage c of local_buffer d \<Rightarrow> Some d | _ \<Rightarrow> None)
          else (case m_storage c of heap_buffer p \<Rightarrow> deref s p | _ \<Rightarrow> None))"

section \<open>What a container holds\<close>

definition holds_inline :: "sbo_storage \<Rightarrow> bool" where
  "holds_inline v = (case v of local_buffer d \<Rightarrow> True | _ \<Rightarrow> False)"

definition holds_heap :: "sbo_storage \<Rightarrow> bool" where
  "holds_heap v = (case v of heap_buffer p \<Rightarrow> True | _ \<Rightarrow> False)"

text \<open>
  For the initialiser of a \<open>Derived{...}\<close>: the special member function that runs, the
  call that is recorded, and the object that results when it returns.
\<close>

definition special_of :: "init \<Rightarrow> special" where
  "special_of i =
     (case i of
        args v \<Rightarrow> constructor_args
      | forward (lvalue d) \<Rightarrow> copy_constructor
      | forward (rvalue d) \<Rightarrow> move_constructor)"

definition construction_event :: "tid \<Rightarrow> init \<Rightarrow> event" where
  "construction_event D i =
     (case i of
        args v \<Rightarrow> Ctor D
      | forward (lvalue d) \<Rightarrow> CopyCtor D
      | forward (rvalue d) \<Rightarrow> MoveCtor D)"

definition built :: "tid \<Rightarrow> init \<Rightarrow> obj" where
  "built D i =
     \<lparr>dyn_type = D, payload = (case i of args v \<Rightarrow> v | forward r \<Rightarrow> payload (referent r))\<rparr>"

text \<open>
  The target is as the language promises: alignments are positive, and the static tables
  of two instantiations of \<open>get_vtable\<close> are two objects, at two addresses.
\<close>

definition target_ok :: "config \<Rightarrow> bool" where
  "target_ok cfg = (0 < alignof_ptr cfg \<and> inj (place cfg))"

text \<open>The concrete type a table was generated for.\<close>

definition table_type :: "vtable_ptr \<Rightarrow> tid" where
  "table_type vt = (case destroy (pointee vt) of LocalDestroy D \<Rightarrow> D | HeapDestroy D \<Rightarrow> D)"

text \<open>
  A live container is valid when \<open>get()\<close> leads to an object and the table pointer is the one
  \<open>get_vtable\<close> hands out for the dynamic type of that object (so, by the parity of its
  address, also for the storage kind in use).
\<close>

definition valid :: "config \<Rightarrow> state \<Rightarrow> addr \<Rightarrow> bool" where
  "valid cfg s n =
     (case conts s n of
        None \<Rightarrow> False
      | Some c \<Rightarrow>
          (case get cfg s n of
             None \<Rightarrow> False
           | Some d \<Rightarrow> get_vtable cfg (dyn_type d) = well_formed (m_vtable c)))"

text \<open>
  The source of a move of a heap-held container: a null pointer under the table of a
  heap-stored type.
\<close>

definition emptied :: "config \<Rightarrow> state \<Rightarrow> addr \<Rightarrow> bool" where
  "emptied cfg s n =
     (case conts s n of
        None \<Rightarrow> False
      | Some c \<Rightarrow>
          m_storage c = heap_buffer nullptr \<and> in_heap cfg (table_type (m_vtable c))
          \<and> get_vtable cfg (table_type (m_vtable c)) = well_formed (m_vtable c))"

definition owned_block :: "state \<Rightarrow> addr \<Rightarrow> addr option" where
  "owned_block s n =
     (case conts s n of
        None \<Rightarrow> None
      | Some c \<Rightarrow> (case m_storage c of heap_buffer (Addr a) \<Rightarrow> Some a | _ \<Rightarrow> None))"

text \<open>
  Every live container is valid or has been moved from, and no two containers own the
  same block of the free store.
\<close>

definition consistent :: "config \<Rightarrow> state \<Rightarrow> bool" where
  "consistent cfg s =
     ((\<forall>n. conts s n \<noteq> None \<longrightarrow> valid cfg s n \<or> emptied cfg s n)
      \<and> (\<forall>n m a. owned_block s n = Some a \<longrightarrow> owned_block s m = Some a \<longrightarrow> n = m))"

text \<open>
  The same, spelled out over the two components of the state it depends on, for the
  proofs.
\<close>

definition cell_object :: "obj option list \<Rightarrow> sbo_storage \<Rightarrow> obj option" where
  "cell_object h v =
     (case v of
        local_buffer d \<Rightarrow> Some d
      | heap_buffer (Addr a) \<Rightarrow> (if a < length h then h ! a else None)
      | _ \<Rightarrow> None)"

definition object_in :: "(addr \<rightharpoonup> polymorphic_value_impl) \<Rightarrow> obj option list \<Rightarrow> addr \<Rightarrow> obj option" where
  "object_in cs h n = (case cs n of None \<Rightarrow> None | Some c \<Rightarrow> cell_object h (m_storage c))"

definition holds_in ::
  "config \<Rightarrow> (addr \<rightharpoonup> polymorphic_value_impl) \<Rightarrow> obj option list \<Rightarrow> addr \<Rightarrow> obj \<Rightarrow> bool" where
  "holds_in cfg cs h n d =
     (\<exists>c. cs n = Some c \<and> object_in cs h n = Some d
        \<and> get_vtable cfg (dyn_type d) = well_formed (m_vtable c)
        \<and> holds_heap (m_storage c) = in_heap cfg (dyn_type d))"

definition emptied_in :: "config \<Rightarrow> (addr \<rightharpoonup> polymorphic_value_impl) \<Rightarrow> addr \<Rightarrow> bool" where
  "emptied_in cfg cs n =
     (\<exists>c. cs n = Some c \<and> m_storage c = heap_buffer nullptr \<and> in_heap cfg (table_type (m_vtable c))
          \<and> get_vtable cfg  (table_type (m_vtable c)) = well_formed (m_vtable c))"

definition block_of :: "(addr \<rightharpoonup> polymorphic_value_impl) \<Rightarrow> addr \<Rightarrow> addr option" where
  "block_of cs n =
     (case cs n of
        None \<Rightarrow> None
      | Some c \<Rightarrow> (case m_storage c of heap_buffer (Addr a) \<Rightarrow> Some a | _ \<Rightarrow> None))"

definition inv_in :: "config \<Rightarrow> (addr \<rightharpoonup> polymorphic_value_impl) \<Rightarrow> obj option list \<Rightarrow> bool" where
  "inv_in cfg cs h =
     ((\<forall>n. cs n \<noteq> None \<longrightarrow> (\<exists>d. holds_in cfg cs h n d) \<or> emptied_in cfg cs n)
      \<and> (\<forall>n m a. block_of cs n = Some a \<longrightarrow> block_of cs m = Some a \<longrightarrow> n = m))"

text \<open>What a table entry that returns has done to the destination cell.\<close>

definition filled_local :: "tid \<Rightarrow> addr \<Rightarrow> state \<Rightarrow> state \<Rightarrow> bool" where
  "filled_local D this s s' =
     (\<exists>c d. conts s this = Some c \<and> dyn_type d = D
        \<and> conts s' = (conts s)(this \<mapsto> c\<lparr>m_storage := local_buffer d\<rparr>) \<and> heap s' = heap s)"

definition filled_heap :: "tid \<Rightarrow> addr \<Rightarrow> state \<Rightarrow> state \<Rightarrow> bool" where
  "filled_heap D this s s' =
     (\<exists>c d. conts s this = Some c \<and> dyn_type d = D
        \<and> conts s' = (conts s)(this \<mapsto> c\<lparr>m_storage := heap_buffer (Addr (length (heap s)))\<rparr>)
        \<and> heap s' = heap s @ [Some d])"

definition assigned_local :: "addr \<Rightarrow> state \<Rightarrow> state \<Rightarrow> bool" where
  "assigned_local this s s' =
     (\<exists>c t x. conts s this = Some c \<and> m_storage c = local_buffer t
        \<and> conts s' = (conts s)(this \<mapsto> c\<lparr>m_storage := local_buffer (t\<lparr>payload := x\<rparr>)\<rparr>)
        \<and> heap s' = heap s)"

definition assigned_heap :: "addr \<Rightarrow> state \<Rightarrow> state \<Rightarrow> bool" where
  "assigned_heap this s s' =
     (\<exists>c a t x. conts s this = Some c \<and> m_storage c = heap_buffer (Addr a)
        \<and> a < length (heap s) \<and> heap s ! a = Some t
        \<and> conts s' = conts s \<and> heap s' = (heap s)[a := Some (t\<lparr>payload := x\<rparr>)])"


definition tables :: "state \<Rightarrow> addr \<Rightarrow> vtable_ptr option" where
  "tables s n = map_option m_vtable (conts s n)"







section \<open>The types of the test suite on an LP64 target\<close>

text \<open>
  Type 1 is \<open>DerivedSpecialFunctions<1>\<close> (16 bytes), type 2 is
  \<open>DerivedSpecialFunctions<sizeof(void*) * 4>\<close> (48 bytes), both with \<open>noexcept\<close> special
  members. Type 3 is small with a move assignment operator that throws, and type 4 is a
  type derived from type 1.
\<close>

definition test_traits :: "tid \<Rightarrow> type_traits" where
  "test_traits D =
     \<lparr> size_of = (if D = 2 then 48 else 16), align_of = 8,
       is_nothrow_move_constructible = True,
       raises = (\<lambda>m. D = 3 \<and> m = move_assignment) \<rparr>"

definition lp64 :: config where
  "lp64 =
     \<lparr> traits_of = test_traits, allow_allocations = True, sbo_size = 24, sbo_alignment = 8,
       rtti_supported = True, sizeof_ptr = 8, alignof_ptr = 8, alignof_vtable = 8,
       place = (\<lambda>D. D) \<rparr>"

definition startup :: state where
  "startup = \<lparr> conts = Map.empty, heap = [], free_blocks = 4, trace = [] \<rparr>"

text \<open>
  \<open>polymorphic_value<Base> poly{in_place_type<...>, 7}\<close> at address 10, for type 1 and for
  type 2; and the second state after a further container of the same type, with value 8, has
  been built at address 20.
\<close>

definition small_at_10 :: state where
  "small_at_10 =
     \<lparr> conts = [10 \<mapsto> \<lparr>m_storage = local_buffer \<lparr>dyn_type = 1, payload = 7\<rparr>,
                        m_vtable = get_vtable_local lp64 1\<rparr>],
       heap = [], free_blocks = 4, trace = [Ctor 1] \<rparr>"

definition big_table :: vtable_ptr where
  "big_table =
     \<lparr> address = 40,
       pointee = \<lparr> destroy = HeapDestroy 2, copy = HeapCopy 2, copy_raw = HeapCopyRaw 2,
                   move = HeapMove, move_raw = HeapMoveRaw 2,
                   copy_assign = HeapCopyAssign 2, copy_assign_raw = HeapCopyAssignRaw 2,
                   move_assign = HeapMoveAssign, move_assign_raw = HeapMoveAssignRaw 2 \<rparr> \<rparr>"

definition big_at_10 :: state where
  "big_at_10 =
     \<lparr> conts = [10 \<mapsto> \<lparr>m_storage = heap_buffer (Addr 0), m_vtable = big_table\<rparr>],
       heap = [Some \<lparr>dyn_type = 2, payload = 7\<rparr>], free_blocks = 3,
       trace = [Alloc 0, Ctor 2] \<rparr>"

definition big_at_10_20 :: state where
  "big_at_10_20 =
     \<lparr> conts = [10 \<mapsto> \<lparr>m_storage = heap_buffer (Addr 0), m_vtable = big_table\<rparr>,
                20 \<mapsto> \<lparr>m_storage = heap_buffer (Addr 1), m_vtable = big_table\<rparr>],
       heap = [Some \<lparr>dyn_type = 2, payload = 7\<rparr>, Some \<lparr>dyn_type = 2, payload = 8\<rparr>],
       free_blocks = 2, trace = [Alloc 0, Ctor 2, Alloc 1, Ctor 2] \<rparr>"

text \<open>The first of these states after \<open>polymorphic_value<Base> other{std::move(poly)}\<close> at 20.\<close>

definition moved_to_20 :: state where
  "moved_to_20 =
     \<lparr> conts = [20 \<mapsto> \<lparr>m_storage = heap_buffer (Addr 0), m_vtable = big_table\<rparr>,
                10 \<mapsto> \<lparr>m_storage = heap_buffer nullptr, m_vtable = big_table\<rparr>],
       heap = [Some \<lparr>dyn_type = 2, payload = 7\<rparr>], free_blocks = 3,
       trace = [Alloc 0, Ctor 2] \<rparr>"



text \<open>
  The first state, with no block left in the free store, after \<open>poly.emplace<...>(5)\<close> for
  type 2 has destroyed the \<open>DerivedSmall\<close> and failed to allocate.
\<close>

definition small_destroyed_at_10 :: state where
  "small_destroyed_at_10 =
     \<lparr> conts = [10 \<mapsto> \<lparr>m_storage = indeterminate, m_vtable = big_table\<rparr>],
       heap = [], free_blocks = 0, trace = [Ctor 1, Dtor 1] \<rparr>"

text \<open>Two containers of type 3, with values 7 and 8, at addresses 10 and 20.\<close>

definition fragile_at_10_20 :: state where
  "fragile_at_10_20 =
     \<lparr> conts = [10 \<mapsto> \<lparr>m_storage = local_buffer \<lparr>dyn_type = 3, payload = 7\<rparr>,
                        m_vtable = get_vtable_local lp64 3\<rparr>,
                20 \<mapsto> \<lparr>m_storage = local_buffer \<lparr>dyn_type = 3, payload = 8\<rparr>,
                        m_vtable = get_vtable_local lp64 3\<rparr>],
       heap = [], free_blocks = 4, trace = [Ctor 3, Ctor 3] \<rparr>"

section \<open>Evaluation rules\<close>

lemma and_then_simps:
  "and_then (Returned x, s) f = f x s"
  "and_then (Threw e, s) f = (Threw e, s)"
  "and_then (Terminated, s) f = (Terminated, s)"
  "and_then (Undefined, s) f = (Undefined, s)"
  by (simp_all add: and_then_def)

lemma noexcept_simps:
  "noexcept (Returned x, s) = (Returned x, s)"
  "noexcept (Threw e, s) = (Terminated, s)"
  "noexcept (Terminated, s) = (Terminated, s)"
  "noexcept (Undefined, s) = (Undefined, s)"
  by (simp_all add: noexcept_def)

lemma throw_not_Returned [simp]:
  "throw_bad_polymorphic_value what_arg s \<noteq> (Returned u, s')"
  by (simp add: throw_bad_polymorphic_value_def)

lemma and_then_Returned:
  "and_then r f = (Returned y, s') \<longleftrightarrow> (\<exists>x s1. r = (Returned x, s1) \<and> f x s1 = (Returned y, s'))"
  by (cases r; cases "fst r") (auto simp: and_then_def)

lemma lp64_in_heap: "in_heap lp64 D \<longleftrightarrow> D = 2"
  by (simp add: in_heap_def store_in_heap_def lp64_def test_traits_def)

lemma lp64_offsetof: "offsetof_vtable lp64 = 8"
  by (simp add: offsetof_vtable_def lp64_def)

lemma lp64_fields:
  "alignof_ptr lp64 = 8" "place lp64 D = D" "rtti_supported lp64" "allow_allocations lp64"
  "traits_of lp64 = test_traits" "sbo_size lp64 = 24" "sbo_alignment lp64 = 8"
  by (simp_all add: lp64_def)

lemma lp64_get_vtable_local: "D \<noteq> 2 \<Longrightarrow> get_vtable lp64 D = well_formed (get_vtable_local lp64 D)"
  by (simp add: get_vtable_def lp64_in_heap)

lemma lp64_get_vtable_big: "get_vtable lp64 2 = well_formed big_table"
  by (simp add: get_vtable_def get_vtable_heap_def lp64_in_heap lp64_offsetof lp64_fields
        big_table_def)

lemma get_vtable_heap_pointee:
  assumes "get_vtable cfg D = well_formed vt" and "in_heap cfg D"
  shows "pointee vt =
     \<lparr> destroy = HeapDestroy D, copy = HeapCopy D, copy_raw = HeapCopyRaw D,
       move = HeapMove, move_raw = HeapMoveRaw D,
       copy_assign = HeapCopyAssign D, copy_assign_raw = HeapCopyAssignRaw D,
       move_assign = HeapMoveAssign, move_assign_raw = HeapMoveAssignRaw D \<rparr>"
  using assms by (auto simp: get_vtable_def get_vtable_heap_def split: if_splits)

lemma get_vtable_local_pointee:
  assumes "get_vtable cfg D = well_formed vt" and "\<not> in_heap cfg D"
  shows "pointee vt =
     \<lparr> destroy = LocalDestroy D, copy = LocalCopy D, copy_raw = LocalCopy D,
       move = LocalMove D, move_raw = LocalMove D,
       copy_assign = LocalCopyAssign D, copy_assign_raw = LocalCopyAssign D,
       move_assign = LocalMoveAssign D, move_assign_raw = LocalMoveAssign D \<rparr>"
  using assms by (auto simp: get_vtable_def get_vtable_local_def split: if_splits)

section \<open>Consistency is kept: the steps\<close>

lemma get_vtable_is_local:
  assumes "0 < alignof_ptr cfg" and "get_vtable cfg D = well_formed vt"
  shows "storage_is_local cfg vt = (\<not> in_heap cfg D)"
proof (cases "in_heap cfg D")
  case False
  with assms(2) show ?thesis
    by (auto simp: get_vtable_def get_vtable_local_def storage_is_local_def)
next
  case True
  with assms(2) have "address vt = (alignof_ptr cfg * 2) * place cfg D + alignof_ptr cfg"
    by (auto simp: get_vtable_def get_vtable_heap_def split: if_splits)
  with assms(1) True show ?thesis
    by (simp add: storage_is_local_def)
qed

lemma get_local: 
  "conts s n = Some c \<Longrightarrow> storage_is_local cfg (m_vtable c) \<Longrightarrow>
    get cfg s n = (case m_storage c of local_buffer d \<Rightarrow> Some d | _ \<Rightarrow> None)"
  by (simp add: get_def)

lemma get_heap: 
  "conts s n = Some c \<Longrightarrow> \<not> storage_is_local cfg (m_vtable c) \<Longrightarrow>
    get cfg s n = (case m_storage c of heap_buffer p \<Rightarrow> deref s p | _ \<Rightarrow> None)"
  by (simp add: get_def)

lemma valid_iff:
  assumes "0 < alignof_ptr cfg"
  shows "valid cfg s n \<longleftrightarrow> (\<exists>d. holds_in cfg (conts s) (heap s) n d)"
proof
  assume "valid cfg s n"
  then obtain c d where c: "conts s n = Some c" and d: "get cfg s n = Some d"
      and vt: "get_vtable cfg (dyn_type d) = well_formed (m_vtable c)"
    by (auto simp: valid_def split: option.splits)
  note loc = get_vtable_is_local [OF assms vt]
  have "object_in (conts s) (heap s) n = Some d \<and> holds_heap (m_storage c) = in_heap cfg (dyn_type d)"
    using c d loc
    by (cases "in_heap cfg (dyn_type d)")
       (auto simp: get_def object_in_def cell_object_def holds_heap_def deref_def heap_at_def
          split: sbo_storage.splits ptr.splits if_splits)
  with c vt show "\<exists>d. holds_in cfg (conts s) (heap s) n d"
    by (auto simp: holds_in_def)
next
  assume "\<exists>d. holds_in cfg (conts s) (heap s) n d"
  then obtain c d where c: "conts s n = Some c" and d: "object_in (conts s) (heap s) n = Some d"
      and vt: "get_vtable cfg (dyn_type d) = well_formed (m_vtable c)"
      and k: "holds_heap (m_storage c) = in_heap cfg (dyn_type d)"
    by (auto simp: holds_in_def)
  note loc = get_vtable_is_local [OF assms vt]
  have "get cfg s n = Some d"
    using c d loc k
    by (cases "in_heap cfg (dyn_type d)")
       (auto simp: get_def object_in_def cell_object_def holds_heap_def deref_def heap_at_def
          split: sbo_storage.splits ptr.splits if_splits)
  with c vt show "valid cfg s n"
    by (simp add: valid_def)
qed

lemma consistent_iff:
  assumes "0 < alignof_ptr cfg"
  shows "consistent cfg s \<longleftrightarrow> inv_in cfg (conts s) (heap s)"
proof -
  have "emptied cfg s n = emptied_in cfg (conts s) n" for n
    by (auto simp: emptied_def emptied_in_def split: option.splits)
  moreover have "owned_block s = block_of (conts s)"
    by (auto simp: owned_block_def block_of_def fun_eq_iff)
  ultimately show ?thesis
    by (simp add: consistent_def inv_in_def valid_iff [OF assms])
qed

lemma same_address:
  assumes "target_ok cfg" "get_vtable cfg D = well_formed vt" "get_vtable cfg D' = well_formed vt'"
    "address vt = address vt'"
  shows "D = D'"
proof -
  from assms(1) have pos: "0 < alignof_ptr cfg" and inj: "inj (place cfg)"
    by (simp_all add: target_ok_def)
  from assms(4) have "storage_is_local cfg vt = storage_is_local cfg vt'"
    by (simp add: storage_is_local_def)
  then have kind: "in_heap cfg D = in_heap cfg D'"
    using get_vtable_is_local [OF pos assms(2)] get_vtable_is_local [OF pos assms(3)] by simp
  have "(alignof_ptr cfg * 2) * place cfg D = (alignof_ptr cfg * 2) * place cfg D'"
    using assms(2,3,4) kind
    by (cases "in_heap cfg D")
       (auto simp: get_vtable_def get_vtable_heap_def get_vtable_local_def split: if_splits)
  with pos have "place cfg D = place cfg D'"
    by simp
  with inj show ?thesis
    by (simp add: inj_eq)
qed

lemma block_of_object:
  "block_of cs n = Some a \<Longrightarrow> object_in cs h n = (if a < length h then h ! a else None)"
  by (auto simp: block_of_def object_in_def cell_object_def
        split: option.splits sbo_storage.splits ptr.splits)

lemma block_in_range:
  assumes "inv_in cfg cs h" "block_of cs n = Some a"
  shows "a < length h \<and> h ! a \<noteq> None"
proof -
  from assms(2) have live: "cs n \<noteq> None" and "\<not> emptied_in cfg cs n"
    by (auto simp: block_of_def emptied_in_def split: option.splits)
  with assms(1) obtain d where "holds_in cfg cs h n d"
    by (auto simp: inv_in_def)
  then have "object_in cs h n = Some d"
    by (auto simp: holds_in_def)
  with block_of_object [OF assms(2), of h] have "(if a < length h then h ! a else None) = Some d"
    by simp
  then show ?thesis
    by (cases "a < length h") simp_all
qed

lemma cell_object_append:
  "cell_object h v = Some d \<Longrightarrow> cell_object (h @ [x]) v = Some d"
  by (auto simp: cell_object_def nth_append split: sbo_storage.splits ptr.splits if_splits)

lemma holds_in_append: "holds_in cfg cs h n d \<Longrightarrow> holds_in cfg cs (h @ [x]) n d"
  by (auto simp: holds_in_def object_in_def cell_object_append)

lemma inv_append: "inv_in cfg cs h \<Longrightarrow> inv_in cfg cs (h @ [x])"
  unfolding inv_in_def by (meson holds_in_append)

lemma holds_in_other: "m \<noteq> n \<Longrightarrow> holds_in cfg (cs(m := x)) h n d = holds_in cfg cs h n d"
  by (simp add: holds_in_def object_in_def)

lemma emptied_in_other: "m \<noteq> n \<Longrightarrow> emptied_in cfg (cs(m := x)) n = emptied_in cfg cs n"
  by (simp add: emptied_in_def)

lemma block_of_other: "m \<noteq> n \<Longrightarrow> block_of (cs(m := x)) n = block_of cs n"
  by (simp add: block_of_def)

lemma block_of_self:
  "block_of (cs(n \<mapsto> c)) n = (case m_storage c of heap_buffer (Addr a) \<Rightarrow> Some a | _ \<Rightarrow> None)"
  by (simp add: block_of_def)

lemma holds_in_self:
  "holds_in cfg (cs(n \<mapsto> c)) h n d \<longleftrightarrow>
     cell_object h (m_storage c) = Some d
     \<and> get_vtable cfg (dyn_type d) = well_formed (m_vtable c)
     \<and> holds_heap (m_storage c) = in_heap cfg (dyn_type d)"
  by (simp add: holds_in_def object_in_def)

lemma emptied_in_self:
  "emptied_in cfg (cs(n \<mapsto> c)) n \<longleftrightarrow>
     m_storage c = heap_buffer nullptr \<and> in_heap cfg (table_type (m_vtable c))
     \<and> get_vtable cfg (table_type (m_vtable c)) = well_formed (m_vtable c)"
  by (simp add: emptied_in_def)

lemma inv_remove:
  assumes "inv_in cfg cs h" shows "inv_in cfg (cs(n := None)) h"
  unfolding inv_in_def
proof (intro conjI allI impI)
  fix m assume "(cs(n := None)) m \<noteq> None"
  then have "m \<noteq> n" "cs m \<noteq> None" by (auto split: if_splits)
  with assms show "(\<exists>d. holds_in cfg (cs(n := None)) h m d) \<or> emptied_in cfg (cs(n := None)) m"
    by (simp add: inv_in_def holds_in_other emptied_in_other)
next
  fix m k a assume "block_of (cs(n := None)) m = Some a" "block_of (cs(n := None)) k = Some a"
  then have "block_of cs m = Some a" "block_of cs k = Some a"
    by (auto simp: block_of_def split: if_splits)
  with assms show "m = k" by (auto simp: inv_in_def)
qed

lemma inv_insert:
  assumes rest: "inv_in cfg (cs(n := None)) h"
    and self: "(\<exists>d. holds_in cfg (cs(n \<mapsto> c)) h n d) \<or> emptied_in cfg (cs(n \<mapsto> c)) n"
    and fresh: "\<And>a m. m_storage c = heap_buffer (Addr a) \<Longrightarrow> m \<noteq> n \<Longrightarrow> block_of cs m \<noteq> Some a"
  shows "inv_in cfg (cs(n \<mapsto> c)) h"
  unfolding inv_in_def
proof (intro conjI allI impI)
  fix m assume live: "(cs(n \<mapsto> c)) m \<noteq> None"
  show "(\<exists>d. holds_in cfg (cs(n \<mapsto> c)) h m d) \<or> emptied_in cfg (cs(n \<mapsto> c)) m"
  proof (cases "m = n")
    case True
    with self show ?thesis by simp
  next
    case False
    with live have "(cs(n := None)) m \<noteq> None" by simp
    with rest have "(\<exists>d. holds_in cfg (cs(n := None)) h m d) \<or> emptied_in cfg (cs(n := None)) m"
      by (simp add: inv_in_def)
    with False show ?thesis
      by (simp add: holds_in_other emptied_in_other)
  qed
next
  fix m k a
  assume m: "block_of (cs(n \<mapsto> c)) m = Some a" and k: "block_of (cs(n \<mapsto> c)) k = Some a"
  show "m = k"
  proof (cases "m = n"; cases "k = n")
    assume "m = n" "k = n" then show ?thesis by simp
  next
    assume "m = n" "k \<noteq> n"
    with m k fresh [of a k] show ?thesis
      by (auto simp: block_of_self block_of_other split: sbo_storage.splits ptr.splits)
  next
    assume "m \<noteq> n" "k = n"
    with m k fresh [of a m] show ?thesis
      by (auto simp: block_of_self block_of_other split: sbo_storage.splits ptr.splits)
  next
    assume "m \<noteq> n" "k \<noteq> n"
    with m k have "block_of (cs(n := None)) m = Some a" "block_of (cs(n := None)) k = Some a"
      by (simp_all add: block_of_other)
    with rest show ?thesis
      by (auto simp: inv_in_def)
  qed
qed

lemma cell_object_poke:
  "(\<And>a. v = heap_buffer (Addr a) \<Longrightarrow> a \<noteq> b) \<Longrightarrow> cell_object (h[b := x]) v = cell_object h v"
  by (auto simp: cell_object_def split: sbo_storage.splits ptr.splits)

lemma inv_poke:
  assumes "inv_in cfg cs h" and free: "\<And>m. block_of cs m \<noteq> Some b"
  shows "inv_in cfg cs (h[b := x])"
proof -
  have "object_in cs (h[b := x]) n = object_in cs h n" for n
  proof (cases "cs n")
    case None then show ?thesis by (simp add: object_in_def)
  next
    case (Some c)
    have "a \<noteq> b" if "m_storage c = heap_buffer (Addr a)" for a
      using free [of n] Some that by (auto simp: block_of_def)
    with Some show ?thesis
      by (simp add: object_in_def cell_object_poke)
  qed
  then have "holds_in cfg cs (h[b := x]) n d = holds_in cfg cs h n d" for n d
    by (simp add: holds_in_def)
  with assms(1) show ?thesis
    by (simp add: inv_in_def)
qed

lemma holds_in_heapD:
  assumes "holds_in cfg cs h n d" "in_heap cfg (dyn_type d)"
  obtains c a where "cs n = Some c" "m_storage c = heap_buffer (Addr a)" "a < length h"
    "h ! a = Some d" "get_vtable cfg (dyn_type d) = well_formed (m_vtable c)"
proof -
  from assms obtain c where c: "cs n = Some c" and o: "cell_object h (m_storage c) = Some d"
      and vt: "get_vtable cfg (dyn_type d) = well_formed (m_vtable c)"
      and k: "holds_heap (m_storage c)"
    by (auto simp: holds_in_def object_in_def)
  from k obtain p where p: "m_storage c = heap_buffer p"
    by (cases "m_storage c") (auto simp: holds_heap_def)
  with o obtain a where "p = Addr a" "a < length h" "h ! a = Some d"
    by (cases p) (auto simp: cell_object_def split: if_splits)
  with c p vt that show thesis
    by simp
qed

lemma holds_in_localD:
  assumes "holds_in cfg cs h n d" "\<not> in_heap cfg (dyn_type d)"
  obtains c where "cs n = Some c" "m_storage c = local_buffer d"
    "get_vtable cfg (dyn_type d) = well_formed (m_vtable c)"
proof -
  from assms obtain c where c: "cs n = Some c" and o: "cell_object h (m_storage c) = Some d"
      and vt: "get_vtable cfg (dyn_type d) = well_formed (m_vtable c)"
      and k: "\<not> holds_heap (m_storage c)"
    by (auto simp: holds_in_def object_in_def)
  from k o have "m_storage c = local_buffer d"
    by (cases "m_storage c") (auto simp: holds_heap_def cell_object_def)
  with c vt that show thesis
    by simp
qed


lemma noexcept_Returned: "noexcept r = (Returned x, s') \<longleftrightarrow> r = (Returned x, s')"
  by (cases r; cases "fst r") (auto simp: noexcept_def)

lemma under_construction_Returned:
  "under_construction this r = (Returned x, s') \<longleftrightarrow> r = (Returned x, s')"
  by (cases r; cases "fst r") (auto simp: under_construction_def)

lemma run_special_Returned:
  "run_special cfg D m e s = (Returned u, s') \<longleftrightarrow> \<not> raises (traits_of cfg D) m \<and> s' = log e s"
  by (auto simp: run_special_def)

lemma log_fields [simp]:
  "conts (log e s) = conts s" "heap (log e s) = heap s" "free_blocks (log e s) = free_blocks s"
  "trace (log e s) = trace s @ [e]"
  by (simp_all add: log_def)

lemma store_Returned:
  "store n v s = (Returned u, s') \<longleftrightarrow>
     (\<exists>c. conts s n = Some c \<and> s' = s\<lparr>conts := (conts s)(n \<mapsto> c\<lparr>m_storage := v\<rparr>)\<rparr>)"
  by (auto simp: store_def split: option.splits)

lemma set_vtable_Returned:
  "set_vtable n vt s = (Returned u, s') \<longleftrightarrow>
     (\<exists>c. conts s n = Some c \<and> s' = s\<lparr>conts := (conts s)(n \<mapsto> c\<lparr>m_vtable := vt\<rparr>)\<rparr>)"
  by (auto simp: set_vtable_def split: option.splits)

lemma construct_Returned:
  assumes "construct cfg D i s = (Returned d, s')"
  shows "dyn_type d = D \<and> conts s' = conts s \<and> heap s' = heap s \<and> free_blocks s' = free_blocks s"
  using assms
  by (auto simp: construct_def and_then_Returned noexcept_Returned run_special_Returned
        split: init.splits ref.splits if_splits)

lemma new_expr_Returned:
  assumes "new_expr cfg D i s = (Returned p, s')"
  shows "p = Addr (length (heap s)) \<and> conts s' = conts s
       \<and> (\<exists>d. dyn_type d = D \<and> heap s' = heap s @ [Some d])"
proof -
  from assms obtain d s2 where
      c: "construct cfg D i
            (log (Alloc (length (heap s)))
               (s\<lparr>heap := heap s @ [None], free_blocks := free_blocks s - 1\<rparr>)) = (Returned d, s2)"
      and p: "p = Addr (length (heap s))"
      and s': "s' = s2\<lparr>heap := (heap s2)[length (heap s) := Some d]\<rparr>"
    by (auto simp: new_expr_def Let_def split: if_splits prod.splits result.splits)
  from construct_Returned [OF c] s' p show ?thesis
    by auto
qed

lemma build_Returned:
  assumes "build cfg D i this s = (Returned u, s')"
  shows "\<exists>c d. conts s this = Some c \<and> dyn_type d = D
     \<and> (if in_heap cfg D
         then conts s' = (conts s)(this \<mapsto> c\<lparr>m_storage := heap_buffer (Addr (length (heap s)))\<rparr>)
              \<and> heap s' = heap s @ [Some d]
         else conts s' = (conts s)(this \<mapsto> c\<lparr>m_storage := local_buffer d\<rparr>) \<and> heap s' = heap s)"
proof (cases "in_heap cfg D")
  case True
  with assms obtain p s1 where n: "new_expr cfg D i s = (Returned p, s1)"
      and st: "store this (heap_buffer p) s1 = (Returned u, s')"
    by (auto simp: build_def in_heap_def and_then_Returned)
  from new_expr_Returned [OF n] st True show ?thesis
    by (auto simp: store_Returned)
next
  case False
  with assms obtain d s1 where n: "construct cfg D i s = (Returned d, s1)"
      and st: "store this (local_buffer d) s1 = (Returned u, s')"
    by (auto simp: build_def in_heap_def and_then_Returned)
  from construct_Returned [OF n] st False show ?thesis
    by (auto simp: store_Returned)
qed

lemma build_filled:
  assumes "build cfg D i this s = (Returned u, s')"
  shows "if in_heap cfg D then filled_heap D this s s' else filled_local D this s s'"
  using build_Returned [OF assms] by (auto simp: filled_heap_def filled_local_def)

lemma local_storage_copy_filled:
  assumes "local_storage_copy cfg D src dst s = (Returned u, s')"
  shows "filled_local D dst s s'"
proof -
  from assms obtain d0 d s1 where "construct cfg D (forward (lvalue d0)) s = (Returned d, s1)"
      and st: "store dst (local_buffer d) s1 = (Returned u, s')"
    by (auto simp: local_storage_copy_def and_then_Returned split: option.splits)
  from construct_Returned [OF this(1)] st show ?thesis
    by (auto simp: store_Returned filled_local_def)
qed

lemma local_storage_move_filled:
  assumes "local_storage_move cfg D src dst s = (Returned u, s')"
  shows "filled_local D dst s s'"
proof -
  from assms obtain d0 d s1 where "construct cfg D (forward (rvalue d0)) s = (Returned d, s1)"
      and st: "store dst (local_buffer d) s1 = (Returned u, s')"
    by (auto simp: local_storage_move_def noexcept_Returned and_then_Returned split: option.splits)
  from construct_Returned [OF this(1)] st show ?thesis
    by (auto simp: store_Returned filled_local_def)
qed

lemma heap_storage_copy_filled:
  assumes "heap_storage_copy cfg D src dst s = (Returned u, s')"
  shows "filled_heap D dst s s'"
proof -
  from assms obtain d0 p s1 where "new_expr cfg D (forward (lvalue d0)) s = (Returned p, s1)"
      and st: "store dst (heap_buffer p) s1 = (Returned u, s')"
    by (auto simp: heap_storage_copy_def and_then_Returned split: option.splits)
  from new_expr_Returned [OF this(1)] st show ?thesis
    by (auto simp: store_Returned filled_heap_def)
qed

lemma heap_storage_copy_raw_filled:
  assumes "heap_storage_copy_raw cfg D src dst s = (Returned u, s')"
  shows "filled_heap D dst s s'"
proof -
  from assms obtain d0 p s1 where "new_expr cfg D (forward (lvalue d0)) s = (Returned p, s1)"
      and st: "store dst (heap_buffer p) s1 = (Returned u, s')"
    by (auto simp: heap_storage_copy_raw_def and_then_Returned split: option.splits)
  from new_expr_Returned [OF this(1)] st show ?thesis
    by (auto simp: store_Returned filled_heap_def)
qed

lemma heap_storage_move_raw_filled:
  assumes "heap_storage_move_raw cfg D src dst s = (Returned u, s')"
  shows "filled_heap D dst s s'"
proof -
  from assms obtain d0 p s1 where "new_expr cfg D (forward (rvalue d0)) s = (Returned p, s1)"
      and st: "store dst (heap_buffer p) s1 = (Returned u, s')"
    by (auto simp: heap_storage_move_raw_def noexcept_Returned and_then_Returned
          split: option.splits)
  from new_expr_Returned [OF this(1)] st show ?thesis
    by (auto simp: store_Returned filled_heap_def)
qed

lemma inv_filled_local:
  assumes rest: "inv_in cfg ((conts s)(this := None)) (heap s)"
    and live: "conts s this = Some c" and table: "get_vtable cfg D = well_formed (m_vtable c)"
    and kind: "\<not> in_heap cfg D" and fill: "filled_local D this s s'"
  shows "inv_in cfg (conts s') (heap s') \<and> (\<exists>d. holds_in cfg (conts s') (heap s') this d)"
proof -
  from fill live obtain d where d: "dyn_type d = D"
      and cs: "conts s' = (conts s)(this \<mapsto> c\<lparr>m_storage := local_buffer d\<rparr>)"
      and h: "heap s' = heap s"
    by (auto simp: filled_local_def)
  have self: "holds_in cfg ((conts s)(this \<mapsto> c\<lparr>m_storage := local_buffer d\<rparr>)) (heap s) this d"
    using d table kind by (simp add: holds_in_self cell_object_def holds_heap_def)
  have "inv_in cfg ((conts s)(this \<mapsto> c\<lparr>m_storage := local_buffer d\<rparr>)) (heap s)"
    using rest self by (intro inv_insert) auto
  with self cs h show ?thesis
    by auto
qed

lemma inv_filled_heap:
  assumes rest: "inv_in cfg ((conts s)(this := None)) (heap s)"
    and live: "conts s this = Some c" and table: "get_vtable cfg D = well_formed (m_vtable c)"
    and kind: "in_heap cfg D" and fill: "filled_heap D this s s'"
  shows "inv_in cfg (conts s') (heap s') \<and> (\<exists>d. holds_in cfg (conts s') (heap s') this d)"
proof -
  let ?c = "c\<lparr>m_storage := heap_buffer (Addr (length (heap s)))\<rparr>"
  from fill live obtain d where d: "dyn_type d = D"
      and cs: "conts s' = (conts s)(this \<mapsto> ?c)"
      and h: "heap s' = heap s @ [Some d]"
    by (auto simp: filled_heap_def)
  have self: "holds_in cfg ((conts s)(this \<mapsto> ?c)) (heap s @ [Some d]) this d"
    using d table kind by (simp add: holds_in_self cell_object_def holds_heap_def)
  have fresh: "block_of (conts s) m \<noteq> Some (length (heap s))" if "m \<noteq> this" for m
  proof
    assume "block_of (conts s) m = Some (length (heap s))"
    with that have "block_of ((conts s)(this := None)) m = Some (length (heap s))"
      by (simp add: block_of_other)
    from block_in_range [OF rest this] show False
      by simp
  qed
  have "inv_in cfg ((conts s)(this \<mapsto> ?c)) (heap s @ [Some d])"
    using inv_append [OF rest] self fresh by (intro inv_insert) auto
  with self cs h show ?thesis
    by auto
qed

lemma holds_in_eq:
  "cs n = Some c \<Longrightarrow>
   holds_in cfg cs h n d \<longleftrightarrow>
     cell_object h (m_storage c) = Some d
     \<and> get_vtable cfg (dyn_type d) = well_formed (m_vtable c)
     \<and> holds_heap (m_storage c) = in_heap cfg (dyn_type d)"
  by (simp add: holds_in_def object_in_def)

lemma emptied_in_eq:
  "cs n = Some c \<Longrightarrow>
   emptied_in cfg cs n \<longleftrightarrow>
     m_storage c = heap_buffer nullptr \<and> in_heap cfg (table_type (m_vtable c))
     \<and> get_vtable cfg (table_type (m_vtable c)) = well_formed (m_vtable c)"
  by (simp add: emptied_in_def)

lemma block_of_eq:
  "cs n = Some c \<Longrightarrow>
   block_of cs n = (case m_storage c of heap_buffer (Addr a) \<Rightarrow> Some a | _ \<Rightarrow> None)"
  by (simp add: block_of_def)

lemma table_type_get_vtable:
  assumes "get_vtable cfg D = well_formed vt"
  shows "table_type vt = D"
  using assms
  by (cases "in_heap cfg D")
     (auto simp: table_type_def get_vtable_heap_pointee get_vtable_local_pointee)

lemma inv_status:
  assumes "inv_in cfg cs h" "cs n = Some c"
  shows "(\<exists>d. holds_in cfg cs h n d) \<or> emptied_in cfg cs n"
  using assms by (auto simp: inv_in_def)

lemma inv_table:
  assumes "inv_in cfg cs h" "cs n = Some c"
  shows "get_vtable cfg (table_type (m_vtable c)) = well_formed (m_vtable c)"
proof -
  from inv_status [OF assms] assms(2) have "\<exists>D. get_vtable cfg D = well_formed (m_vtable c)"
    by (auto simp: holds_in_def emptied_in_def)
  then obtain D where "get_vtable cfg D = well_formed (m_vtable c)" ..
  with table_type_get_vtable [OF this] show ?thesis
    by simp
qed

lemma inv_unique:
  assumes "inv_in cfg cs h" "block_of cs n = Some a" "block_of cs m = Some a"
  shows "n = m"
  using assms by (auto simp: inv_in_def)

lemma destroy_phase:
  assumes inv: "inv_in cfg (conts s) (heap s)" and live: "conts s this = Some c"
  shows "\<exists>s1 c1.
    via_vtable this (\<lambda>vt. call_destroy (destroy vt) this) s = (Returned (), s1)
    \<and> conts s1 = (conts s)(this \<mapsto> c1) \<and> m_vtable c1 = m_vtable c
    \<and> inv_in cfg ((conts s)(this := None)) (heap s1)"
proof -
  note rest = inv_remove [OF inv, of this]
  from inv_status [OF inv live] consider
      d where "holds_in cfg (conts s) (heap s) this d" "\<not> in_heap cfg (dyn_type d)"
    | d where "holds_in cfg (conts s) (heap s) this d" "in_heap cfg (dyn_type d)"
    | "emptied_in cfg (conts s) this"
    by blast
  then show ?thesis
  proof cases
    case 1
    from holds_in_localD [OF 1] live obtain
      cell: "m_storage c = local_buffer d"
      and vt: "get_vtable cfg (dyn_type d) = well_formed (m_vtable c)"
      by auto
    have "via_vtable this (\<lambda>vt. call_destroy (destroy vt) this) s
        = (Returned (), (log (Dtor (dyn_type d)) s)
             \<lparr>conts := (conts s)(this \<mapsto> c\<lparr>m_storage := indeterminate\<rparr>)\<rparr>)"
      using live cell get_vtable_local_pointee [OF vt 1(2)]
      by (simp add: via_vtable_def call_destroy_def local_storage_destroy_def as_Derived_def
            store_def)
    with rest show ?thesis
      by (intro exI [of _ "(log (Dtor (dyn_type d)) s)
             \<lparr>conts := (conts s)(this \<mapsto> c\<lparr>m_storage := indeterminate\<rparr>)\<rparr>"]
            exI [of _ "c\<lparr>m_storage := indeterminate\<rparr>"]) simp
  next
    case 2
    from holds_in_heapD [OF 2] live obtain a where
      cell: "m_storage c = heap_buffer (Addr a)" and a: "a < length (heap s)" "heap s ! a = Some d"
      and vt: "get_vtable cfg (dyn_type d) = well_formed (m_vtable c)"
      by auto
    have run: "via_vtable this (\<lambda>vt. call_destroy (destroy vt) this) s
        = (Returned (), log (Dealloc a)
             ((log (Dtor (dyn_type d)) s)
                \<lparr>heap := (heap s)[a := None], free_blocks := free_blocks s + 1\<rparr>))"
      using live cell a get_vtable_heap_pointee [OF vt 2(2)]
      by (simp add: via_vtable_def call_destroy_def heap_storage_destroy_def as_pointer_def
            delete_expr_def heap_at_def)
    have mine: "block_of (conts s) this = Some a"
      using live cell by (simp add: block_of_eq)
    have "block_of ((conts s)(this := None)) m \<noteq> Some a" for m
    proof (cases "m = this")
      case True then show ?thesis by (simp add: block_of_def)
    next
      case False
      with inv_unique [OF inv _ mine, of m] show ?thesis
        by (auto simp: block_of_other)
    qed
    from inv_poke [OF rest this] have "inv_in cfg ((conts s)(this := None)) ((heap s)[a := None])" .
    with run live show ?thesis
      by (intro exI [of _ "log (Dealloc a)
             ((log (Dtor (dyn_type d)) s)
                \<lparr>heap := (heap s)[a := None], free_blocks := free_blocks s + 1\<rparr>)"]
            exI [of _ c]) (simp add: map_upd_triv)
  next
    case 3
    with live have cell: "m_storage c = heap_buffer nullptr"
      and kind: "in_heap cfg (table_type (m_vtable c))"
      and vt: "get_vtable cfg (table_type (m_vtable c)) = well_formed (m_vtable c)"
      by (simp_all add: emptied_in_eq)
    have "via_vtable this (\<lambda>vt. call_destroy (destroy vt) this) s = (Returned (), s)"
      using live cell get_vtable_heap_pointee [OF vt kind]
      by (simp add: via_vtable_def call_destroy_def heap_storage_destroy_def as_pointer_def
            delete_expr_def)
    with rest live show ?thesis
      by (intro exI [of _ s] exI [of _ c]) (simp add: map_upd_triv)
  qed
qed

lemma local_storage_copy_assign_assigned:
  assumes "local_storage_copy_assign cfg D src dst s = (Returned u, s')"
  shows "assigned_local dst s s'"
  using assms
  by (auto simp: local_storage_copy_assign_def and_then_Returned run_special_Returned
        store_Returned as_Derived_def assigned_local_def
        split: option.splits sbo_storage.splits)

lemma local_storage_move_assign_assigned:
  assumes "local_storage_move_assign cfg D src dst s = (Returned u, s')"
  shows "assigned_local dst s s'"
  using assms
  by (auto simp: local_storage_move_assign_def noexcept_Returned and_then_Returned
        run_special_Returned store_Returned as_Derived_def assigned_local_def
        split: option.splits sbo_storage.splits)

lemma assign_through_assigned:
  assumes "assign_through cfg D m e from dst s = (Returned u, s')"
  shows "assigned_heap dst s s'"
  using assms
  by (auto simp: assign_through_def and_then_Returned run_special_Returned poke_def
        as_pointer_def heap_at_def assigned_heap_def
        split: option.splits sbo_storage.splits ptr.splits if_splits)

lemma inv_assigned_local:
  assumes inv: "inv_in cfg (conts s) (heap s)" and asg: "assigned_local this s s'"
  shows "inv_in cfg (conts s') (heap s') \<and> (\<exists>d. holds_in cfg (conts s') (heap s') this d)"
proof -
  from asg obtain c t x where live: "conts s this = Some c" and cell: "m_storage c = local_buffer t"
      and cs: "conts s' = (conts s)(this \<mapsto> c\<lparr>m_storage := local_buffer (t\<lparr>payload := x\<rparr>)\<rparr>)"
      and h: "heap s' = heap s"
    by (auto simp: assigned_local_def)
  from inv_status [OF inv live] live cell
  have vt: "get_vtable cfg (dyn_type t) = well_formed (m_vtable c)"
    and kind: "\<not> in_heap cfg (dyn_type t)"
    by (auto simp: holds_in_eq emptied_in_eq cell_object_def holds_heap_def)
  let ?c = "c\<lparr>m_storage := local_buffer (t\<lparr>payload := x\<rparr>)\<rparr>"
  have self: "holds_in cfg ((conts s)(this \<mapsto> ?c)) (heap s) this (t\<lparr>payload := x\<rparr>)"
    using vt kind by (simp add: holds_in_self cell_object_def holds_heap_def)
  have "inv_in cfg ((conts s)(this \<mapsto> ?c)) (heap s)"
    using inv_remove [OF inv, of this] self by (intro inv_insert) auto
  with self cs h show ?thesis
    by auto
qed

lemma inv_assigned_heap:
  assumes inv: "inv_in cfg (conts s) (heap s)" and asg: "assigned_heap this s s'"
  shows "inv_in cfg (conts s') (heap s') \<and> (\<exists>d. holds_in cfg (conts s') (heap s') this d)"
proof -
  from asg obtain c a t x where live: "conts s this = Some c"
      and cell: "m_storage c = heap_buffer (Addr a)"
      and a: "a < length (heap s)" "heap s ! a = Some t"
      and cs: "conts s' = conts s" and h: "heap s' = (heap s)[a := Some (t\<lparr>payload := x\<rparr>)]"
    by (auto simp: assigned_heap_def)
  let ?h = "(heap s)[a := Some (t\<lparr>payload := x\<rparr>)]"
  from inv_status [OF inv live] live cell a
  have vt: "get_vtable cfg (dyn_type t) = well_formed (m_vtable c)"
    and kind: "in_heap cfg (dyn_type t)"
    by (auto simp: holds_in_eq emptied_in_eq cell_object_def holds_heap_def)
  have mine: "block_of (conts s) this = Some a"
    using live cell by (simp add: block_of_eq)
  have "block_of ((conts s)(this := None)) m \<noteq> Some a" for m
  proof (cases "m = this")
    case True then show ?thesis by (simp add: block_of_def)
  next
    case False
    with inv_unique [OF inv _ mine, of m] show ?thesis
      by (auto simp: block_of_other)
  qed
  from inv_poke [OF inv_remove [OF inv, of this] this]
  have rest: "inv_in cfg ((conts s)(this := None)) ?h" .
  have self: "holds_in cfg ((conts s)(this \<mapsto> c)) ?h this (t\<lparr>payload := x\<rparr>)"
    using vt kind cell a by (simp add: holds_in_self cell_object_def holds_heap_def)
  have fresh: "block_of (conts s) m \<noteq> Some b" if "m_storage c = heap_buffer (Addr b)" "m \<noteq> this"
    for b m
    using that inv_unique [OF inv _ mine, of m] cell by auto
  have "inv_in cfg ((conts s)(this \<mapsto> c)) ?h"
    using rest self fresh by (intro inv_insert) auto
  with self cs h live show ?thesis
    by (auto simp: map_upd_triv)
qed

lemma heap_storage_move_Returned:
  assumes "heap_storage_move (storage n) dst s = (Returned u, s')" and "n \<noteq> dst"
  shows "\<exists>c c' q. conts s dst = Some c \<and> conts s n = Some c' \<and> m_storage c' = heap_buffer q
     \<and> conts s' = (conts s)(dst \<mapsto> c\<lparr>m_storage := heap_buffer q\<rparr>,
                              n \<mapsto> c'\<lparr>m_storage := heap_buffer nullptr\<rparr>)
     \<and> heap s' = heap s"
  using assms
  by (auto simp: heap_storage_move_def noexcept_Returned and_then_Returned store_Returned
        as_pointer_def split: option.splits sbo_storage.splits)

lemma heap_storage_move_assign_Returned:
  assumes "heap_storage_move_assign (storage n) dst s = (Returned u, s')" and "n \<noteq> dst"
  shows "\<exists>c c'. conts s dst = Some c \<and> conts s n = Some c'
     \<and> holds_heap (m_storage c) \<and> holds_heap (m_storage c')
     \<and> conts s' = (conts s)(n \<mapsto> c'\<lparr>m_storage := m_storage c\<rparr>,
                              dst \<mapsto> c\<lparr>m_storage := m_storage c'\<rparr>)
     \<and> heap s' = heap s"
  using assms
  by (auto simp: heap_storage_move_assign_def noexcept_Returned and_then_Returned store_Returned
        as_pointer_def holds_heap_def split: option.splits sbo_storage.splits)

text \<open>Handing the pointer of n over to this, whose cell holds nothing.\<close>

lemma inv_handed_over:
  assumes rest: "inv_in cfg ((conts s)(this := None)) h"
    and live: "conts s this = Some c" and src: "conts s n = Some c'" and ne: "n \<noteq> this"
    and same: "m_vtable c = m_vtable c'" and cell: "m_storage c' = heap_buffer q"
  shows "inv_in cfg ((conts s)(this \<mapsto> c\<lparr>m_storage := heap_buffer q\<rparr>,
                              n \<mapsto> c'\<lparr>m_storage := heap_buffer nullptr\<rparr>)) h"
    and "(\<exists>d. holds_in cfg (conts s) h n d) \<Longrightarrow>
         \<exists>d. holds_in cfg ((conts s)(this \<mapsto> c\<lparr>m_storage := heap_buffer q\<rparr>,
                              n \<mapsto> c'\<lparr>m_storage := heap_buffer nullptr\<rparr>)) h this d"
proof -
  let ?rest = "(conts s)(this := None)"
  let ?c = "c\<lparr>m_storage := heap_buffer q\<rparr>" and ?c' = "c'\<lparr>m_storage := heap_buffer nullptr\<rparr>"
  from src ne have src': "?rest n = Some c'"
    by simp
  note vt = inv_table [OF rest src']
  have same_cell: "?c = c'"
    using same cell by simp
  from inv_status [OF rest src'] have status: "(\<exists>d. holds_in cfg ?rest h n d) \<or> emptied_in cfg ?rest n" .
  have kind: "in_heap cfg (table_type (m_vtable c'))"
  proof -
    from status show ?thesis
    proof
      assume "\<exists>d. holds_in cfg ?rest h n d"
      then obtain d where "holds_in cfg ?rest h n d" ..
      with src' have d: "get_vtable cfg (dyn_type d) = well_formed (m_vtable c')"
          and "in_heap cfg (dyn_type d) = holds_heap (m_storage c')"
        by (auto simp: holds_in_def)
      with table_type_get_vtable [OF d] cell show ?thesis
        by (simp add: holds_heap_def)
    next
      assume "emptied_in cfg ?rest n"
      with src' show ?thesis
        by (simp add: emptied_in_eq)
    qed
  qed
  have rest2: "inv_in cfg (?rest(n \<mapsto> ?c')) h"
  proof (intro inv_insert)
    show "inv_in cfg ((?rest)(n := None)) h"
      by (rule inv_remove [OF rest])
    show "(\<exists>d. holds_in cfg (?rest(n \<mapsto> ?c')) h n d) \<or> emptied_in cfg (?rest(n \<mapsto> ?c')) n"
      using vt kind by (simp add: emptied_in_self)
  qed simp
  have twist: "(conts s)(this \<mapsto> ?c, n \<mapsto> ?c') = ((conts s)(n \<mapsto> ?c'))(this \<mapsto> ?c)"
    using ne by (simp add: fun_upd_twist)
  have rest3: "((conts s)(n \<mapsto> ?c'))(this := None) = ?rest(n \<mapsto> ?c')"
    using ne by (simp add: fun_upd_twist)
  have self: "(\<exists>d. holds_in cfg (((conts s)(n \<mapsto> ?c'))(this \<mapsto> ?c)) h this d)
            \<or> emptied_in cfg (((conts s)(n \<mapsto> ?c'))(this \<mapsto> ?c)) this"
    using status src' same_cell
    by (auto simp: holds_in_eq emptied_in_eq holds_in_self emptied_in_self)
  have fresh: "block_of ((conts s)(n \<mapsto> ?c')) m \<noteq> Some a"
    if "m_storage ?c = heap_buffer (Addr a)" "m \<noteq> this" for a m
  proof (cases "m = n")
    case True then show ?thesis by (simp add: block_of_self)
  next
    case False
    from that(1) cell src' have "block_of ?rest n = Some a"
      by (simp add: block_of_eq)
    from inv_unique [OF rest _ this, of m] False that(2) show ?thesis
      by (auto simp: block_of_other)
  qed
  show "inv_in cfg ((conts s)(this \<mapsto> ?c, n \<mapsto> ?c')) h"
    unfolding twist
    using rest2 self fresh by (intro inv_insert) (simp_all add: rest3)
  show "\<exists>d. holds_in cfg ((conts s)(this \<mapsto> ?c, n \<mapsto> ?c')) h this d"
    if "\<exists>d. holds_in cfg (conts s) h n d"
    unfolding twist
    using that src same_cell by (auto simp: holds_in_eq holds_in_self)
qed

text \<open>Exchanging the cells of two containers with the same table.\<close>

lemma inv_swapped:
  assumes inv: "inv_in cfg cs h"
    and live: "cs this = Some c" and src: "cs n = Some c'" and ne: "n \<noteq> this"
    and same: "m_vtable c = m_vtable c'"
  shows "inv_in cfg (cs(n \<mapsto> c'\<lparr>m_storage := m_storage c\<rparr>,
                       this \<mapsto> c\<lparr>m_storage := m_storage c'\<rparr>)) h"
    and "(\<exists>d. holds_in cfg cs h n d) \<Longrightarrow>
         \<exists>d. holds_in cfg (cs(n \<mapsto> c'\<lparr>m_storage := m_storage c\<rparr>,
                       this \<mapsto> c\<lparr>m_storage := m_storage c'\<rparr>)) h this d"
proof -
  have c: "c'\<lparr>m_storage := m_storage c\<rparr> = c" and c': "c\<lparr>m_storage := m_storage c'\<rparr> = c'"
    using same by simp_all
  let ?cs1 = "cs(n \<mapsto> c)"
  have one: "inv_in cfg ((cs(this := None))(n \<mapsto> c)) h"
  proof (intro inv_insert)
    show "inv_in cfg ((cs(this := None))(n := None)) h"
      by (intro inv_remove inv)
    show "(\<exists>d. holds_in cfg ((cs(this := None))(n \<mapsto> c)) h n d)
          \<or> emptied_in cfg ((cs(this := None))(n \<mapsto> c)) n"
      using inv_status [OF inv live] live
      by (auto simp: holds_in_eq emptied_in_eq holds_in_self emptied_in_self)
    show "block_of (cs(this := None)) m \<noteq> Some a"
      if "m_storage c = heap_buffer (Addr a)" "m \<noteq> n" for a m
    proof (cases "m = this")
      case True then show ?thesis by (simp add: block_of_def)
    next
      case False
      from that(1) live have "block_of cs this = Some a"
        by (simp add: block_of_eq)
      from inv_unique [OF inv _ this, of m] False show ?thesis
        by (auto simp: block_of_other)
    qed
  qed
  have rest: "(cs(n \<mapsto> c))(this := None) = (cs(this := None))(n \<mapsto> c)"
    using ne by (simp add: fun_upd_twist)
  have two: "inv_in cfg ((cs(n \<mapsto> c))(this \<mapsto> c')) h"
  proof (intro inv_insert)
    show "inv_in cfg ((cs(n \<mapsto> c))(this := None)) h"
      using one by (simp add: rest)
    show "(\<exists>d. holds_in cfg ((cs(n \<mapsto> c))(this \<mapsto> c')) h this d)
          \<or> emptied_in cfg ((cs(n \<mapsto> c))(this \<mapsto> c')) this"
      using inv_status [OF inv src] src
      by (auto simp: holds_in_eq emptied_in_eq holds_in_self emptied_in_self)
    show "block_of (cs(n \<mapsto> c)) m \<noteq> Some a"
      if "m_storage c' = heap_buffer (Addr a)" "m \<noteq> this" for a m
    proof
      assume m: "block_of (cs(n \<mapsto> c)) m = Some a"
      from that(1) src have mine: "block_of cs n = Some a"
        by (simp add: block_of_eq)
      show False
      proof (cases "m = n")
        case True
        with m live have "block_of cs this = Some a"
          by (simp add: block_of_self block_of_eq)
        from inv_unique [OF inv this mine] ne show False
          by simp
      next
        case False
        with m have "block_of cs m = Some a"
          by (simp add: block_of_other)
        from inv_unique [OF inv this mine] False show False
          by simp
      qed
    qed
  qed
  from two show "inv_in cfg (cs(n \<mapsto> c'\<lparr>m_storage := m_storage c\<rparr>,
                       this \<mapsto> c\<lparr>m_storage := m_storage c'\<rparr>)) h"
    by (simp add: c c')
  show "\<exists>d. holds_in cfg (cs(n \<mapsto> c'\<lparr>m_storage := m_storage c\<rparr>,
                       this \<mapsto> c\<lparr>m_storage := m_storage c'\<rparr>)) h this d"
    if "\<exists>d. holds_in cfg cs h n d"
    using that src by (auto simp: c c' holds_in_eq holds_in_self)
qed

lemma via_vtable_eq:
  "conts s this = Some c \<Longrightarrow> via_vtable this k s = k (pointee (m_vtable c)) s"
  by (simp add: via_vtable_def)

lemma fill_build:
  assumes rest: "inv_in cfg ((conts s)(this := None)) (heap s)"
    and live: "conts s this = Some c" and table: "get_vtable cfg D = well_formed (m_vtable c)"
    and run: "build cfg D i this s = (Returned u, s')"
  shows "inv_in cfg (conts s') (heap s') \<and> (\<exists>d. holds_in cfg (conts s') (heap s') this d)"
  using build_filled [OF run] inv_filled_heap [OF rest live table]
    inv_filled_local [OF rest live table]
  by (cases "in_heap cfg D") simp_all

lemma fill_copy:
  assumes rest: "inv_in cfg ((conts s)(this := None)) (heap s)"
    and live: "conts s this = Some c" and table: "get_vtable cfg D = well_formed (m_vtable c)"
    and run: "via_vtable this (\<lambda>vt. call cfg (copy vt) src this) s = (Returned u, s')"
  shows "inv_in cfg (conts s') (heap s') \<and> (\<exists>d. holds_in cfg (conts s') (heap s') this d)"
proof (cases "in_heap cfg D")
  case True
  from run have "heap_storage_copy cfg D src this s = (Returned u, s')"
    by (simp add: via_vtable_eq [OF live] get_vtable_heap_pointee [OF table True] call_def)
  from inv_filled_heap [OF rest live table True heap_storage_copy_filled [OF this]]
  show ?thesis .
next
  case False
  from run have "local_storage_copy cfg D src this s = (Returned u, s')"
    by (simp add: via_vtable_eq [OF live] get_vtable_local_pointee [OF table False] call_def)
  from inv_filled_local [OF rest live table False local_storage_copy_filled [OF this]]
  show ?thesis .
qed

lemma fill_copy_raw:
  assumes rest: "inv_in cfg ((conts s)(this := None)) (heap s)"
    and live: "conts s this = Some c" and table: "get_vtable cfg D = well_formed (m_vtable c)"
    and run: "via_vtable this (\<lambda>vt. call cfg (copy_raw vt) src this) s = (Returned u, s')"
  shows "inv_in cfg (conts s') (heap s') \<and> (\<exists>d. holds_in cfg (conts s') (heap s') this d)"
proof (cases "in_heap cfg D")
  case True
  from run have "heap_storage_copy_raw cfg D src this s = (Returned u, s')"
    by (simp add: via_vtable_eq [OF live] get_vtable_heap_pointee [OF table True] call_def)
  from inv_filled_heap [OF rest live table True heap_storage_copy_raw_filled [OF this]]
  show ?thesis .
next
  case False
  from run have "local_storage_copy cfg D src this s = (Returned u, s')"
    by (simp add: via_vtable_eq [OF live] get_vtable_local_pointee [OF table False] call_def)
  from inv_filled_local [OF rest live table False local_storage_copy_filled [OF this]]
  show ?thesis .
qed

lemma fill_move_raw:
  assumes rest: "inv_in cfg ((conts s)(this := None)) (heap s)"
    and live: "conts s this = Some c" and table: "get_vtable cfg D = well_formed (m_vtable c)"
    and run: "via_vtable this (\<lambda>vt. call cfg (move_raw vt) src this) s = (Returned u, s')"
  shows "inv_in cfg (conts s') (heap s') \<and> (\<exists>d. holds_in cfg (conts s') (heap s') this d)"
proof (cases "in_heap cfg D")
  case True
  from run have "heap_storage_move_raw cfg D src this s = (Returned u, s')"
    by (simp add: via_vtable_eq [OF live] get_vtable_heap_pointee [OF table True] call_def)
  from inv_filled_heap [OF rest live table True heap_storage_move_raw_filled [OF this]]
  show ?thesis .
next
  case False
  from run have "local_storage_move cfg D src this s = (Returned u, s')"
    by (simp add: via_vtable_eq [OF live] get_vtable_local_pointee [OF table False] call_def)
  from inv_filled_local [OF rest live table False local_storage_move_filled [OF this]]
  show ?thesis .
qed

lemma fill_move:
  assumes rest: "inv_in cfg ((conts s)(this := None)) (heap s)"
    and live: "conts s this = Some c" and src: "conts s n = Some c'" and ne: "n \<noteq> this"
    and same: "m_vtable c = m_vtable c'"
    and run: "via_vtable this (\<lambda>vt. call cfg (move vt) (storage n) this) s = (Returned u, s')"
  shows "inv_in cfg (conts s') (heap s')"
    and "(\<exists>d. holds_in cfg (conts s) (heap s) n d)
         \<Longrightarrow> \<exists>d. holds_in cfg (conts s') (heap s') this d"
proof -
  from src ne have src': "((conts s)(this := None)) n = Some c'"
    by simp
  from inv_table [OF rest src'] same
  have table: "get_vtable cfg (table_type (m_vtable c')) = well_formed (m_vtable c)"
    by simp
  let ?D = "table_type (m_vtable c')"
  have "inv_in cfg (conts s') (heap s')
      \<and> ((\<exists>d. holds_in cfg (conts s) (heap s) n d)
           \<longrightarrow> (\<exists>d. holds_in cfg (conts s') (heap s') this d))"
  proof (cases "in_heap cfg ?D")
    case True
    from run have "heap_storage_move (storage n) this s = (Returned u, s')"
      by (simp add: via_vtable_eq [OF live] get_vtable_heap_pointee [OF table True] call_def)
    from heap_storage_move_Returned [OF this ne] live src obtain q where
        cell: "m_storage c' = heap_buffer q"
        and cs: "conts s' = (conts s)(this \<mapsto> c\<lparr>m_storage := heap_buffer q\<rparr>,
                                     n \<mapsto> c'\<lparr>m_storage := heap_buffer nullptr\<rparr>)"
        and h: "heap s' = heap s"
      by auto
    from inv_handed_over [OF rest live src ne same cell] cs h show ?thesis
      by simp
  next
    case False
    from run have "local_storage_move cfg ?D (storage n) this s = (Returned u, s')"
      by (simp add: via_vtable_eq [OF live] get_vtable_local_pointee [OF table False] call_def)
    from inv_filled_local [OF rest live table False local_storage_move_filled [OF this]]
    show ?thesis
      by simp
  qed
  then show "inv_in cfg (conts s') (heap s')"
    and "(\<exists>d. holds_in cfg (conts s) (heap s) n d)
         \<Longrightarrow> \<exists>d. holds_in cfg (conts s') (heap s') this d"
    by simp_all
qed

text \<open>Destroying the old object and switching the table.\<close>

lemma rebuild_phase:
  assumes inv: "inv_in cfg (conts s) (heap s)" and live: "conts s this = Some c"
    and run: "and_then (via_vtable this (\<lambda>vt. call_destroy (destroy vt) this) s)
                (\<lambda>_ s1. and_then (set_vtable this vt s1) k) = (Returned u, s')"
  shows "\<exists>s2 c2. k () s2 = (Returned u, s') \<and> conts s2 = (conts s)(this \<mapsto> c2)
           \<and> m_vtable c2 = vt \<and> inv_in cfg ((conts s)(this := None)) (heap s2)"
proof -
  from destroy_phase [OF inv live] obtain s1 c1 where
      d: "via_vtable this (\<lambda>vt. call_destroy (destroy vt) this) s = (Returned (), s1)"
      and cs1: "conts s1 = (conts s)(this \<mapsto> c1)"
      and rest: "inv_in cfg ((conts s)(this := None)) (heap s1)"
    by blast
  let ?s2 = "s1\<lparr>conts := (conts s1)(this \<mapsto> c1\<lparr>m_vtable := vt\<rparr>)\<rparr>"
  from cs1 have "set_vtable this vt s1 = (Returned (), ?s2)"
    by (simp add: set_vtable_def)
  with run d have "k () ?s2 = (Returned u, s')"
    by (simp add: and_then_simps)
  with cs1 rest show ?thesis
    by (intro exI [of _ ?s2] exI [of _ "c1\<lparr>m_vtable := vt\<rparr>"]) simp
qed

lemma assign_in_place_copy:
  assumes inv: "inv_in cfg (conts s) (heap s)"
    and live: "conts s this = Some c" and table: "get_vtable cfg D = well_formed (m_vtable c)"
    and run: "via_vtable this (\<lambda>vt. call cfg (copy_assign vt) src this) s = (Returned u, s')"
  shows "inv_in cfg (conts s') (heap s') \<and> (\<exists>d. holds_in cfg (conts s') (heap s') this d)"
proof (cases "in_heap cfg D")
  case True
  from run have "heap_storage_copy_assign cfg D src this s = (Returned u, s')"
    by (simp add: via_vtable_eq [OF live] get_vtable_heap_pointee [OF table True] call_def)
  then have "assigned_heap this s s'"
    unfolding heap_storage_copy_assign_def by (rule assign_through_assigned)
  from inv_assigned_heap [OF inv this] show ?thesis .
next
  case False
  from run have "local_storage_copy_assign cfg D src this s = (Returned u, s')"
    by (simp add: via_vtable_eq [OF live] get_vtable_local_pointee [OF table False] call_def)
  from inv_assigned_local [OF inv local_storage_copy_assign_assigned [OF this]] show ?thesis .
qed

lemma assign_in_place_copy_raw:
  assumes inv: "inv_in cfg (conts s) (heap s)"
    and live: "conts s this = Some c" and table: "get_vtable cfg D = well_formed (m_vtable c)"
    and run: "via_vtable this (\<lambda>vt. call cfg (copy_assign_raw vt) src this) s = (Returned u, s')"
  shows "inv_in cfg (conts s') (heap s') \<and> (\<exists>d. holds_in cfg (conts s') (heap s') this d)"
proof (cases "in_heap cfg D")
  case True
  from run have "heap_storage_copy_assign_raw cfg D src this s = (Returned u, s')"
    by (simp add: via_vtable_eq [OF live] get_vtable_heap_pointee [OF table True] call_def)
  then have "assigned_heap this s s'"
    unfolding heap_storage_copy_assign_raw_def by (rule assign_through_assigned)
  from inv_assigned_heap [OF inv this] show ?thesis .
next
  case False
  from run have "local_storage_copy_assign cfg D src this s = (Returned u, s')"
    by (simp add: via_vtable_eq [OF live] get_vtable_local_pointee [OF table False] call_def)
  from inv_assigned_local [OF inv local_storage_copy_assign_assigned [OF this]] show ?thesis .
qed

lemma assign_in_place_move_raw:
  assumes inv: "inv_in cfg (conts s) (heap s)"
    and live: "conts s this = Some c" and table: "get_vtable cfg D = well_formed (m_vtable c)"
    and run: "via_vtable this (\<lambda>vt. call cfg (move_assign_raw vt) src this) s = (Returned u, s')"
  shows "inv_in cfg (conts s') (heap s') \<and> (\<exists>d. holds_in cfg (conts s') (heap s') this d)"
proof (cases "in_heap cfg D")
  case True
  from run have "heap_storage_move_assign_raw cfg D src this s = (Returned u, s')"
    by (simp add: via_vtable_eq [OF live] get_vtable_heap_pointee [OF table True] call_def)
  then have "assigned_heap this s s'"
    unfolding heap_storage_move_assign_raw_def noexcept_Returned by (rule assign_through_assigned)
  from inv_assigned_heap [OF inv this] show ?thesis .
next
  case False
  from run have "local_storage_move_assign cfg D src this s = (Returned u, s')"
    by (simp add: via_vtable_eq [OF live] get_vtable_local_pointee [OF table False] call_def)
  from inv_assigned_local [OF inv local_storage_move_assign_assigned [OF this]] show ?thesis .
qed

lemma assign_in_place_move:
  assumes inv: "inv_in cfg (conts s) (heap s)"
    and live: "conts s this = Some c" and src: "conts s n = Some c'" and ne: "n \<noteq> this"
    and same: "m_vtable c = m_vtable c'"
    and run: "via_vtable this (\<lambda>vt. call cfg (move_assign vt) (storage n) this) s = (Returned u, s')"
  shows "inv_in cfg (conts s') (heap s')"
    and "(\<exists>d. holds_in cfg (conts s) (heap s) n d)
         \<Longrightarrow> \<exists>d. holds_in cfg (conts s') (heap s') this d"
proof -
  note table = inv_table [OF inv live]
  let ?D = "table_type (m_vtable c)"
  have "inv_in cfg (conts s') (heap s')
      \<and> ((\<exists>d. holds_in cfg (conts s) (heap s) n d)
           \<longrightarrow> (\<exists>d. holds_in cfg (conts s') (heap s') this d))"
  proof (cases "in_heap cfg ?D")
    case True
    from run have "heap_storage_move_assign (storage n) this s = (Returned u, s')"
      by (simp add: via_vtable_eq [OF live] get_vtable_heap_pointee [OF table True] call_def)
    from heap_storage_move_assign_Returned [OF this ne] live src have
        cs: "conts s' = (conts s)(n \<mapsto> c'\<lparr>m_storage := m_storage c\<rparr>,
                                     this \<mapsto> c\<lparr>m_storage := m_storage c'\<rparr>)"
        and h: "heap s' = heap s"
      by auto
    from inv_swapped [OF inv live src ne same] cs h show ?thesis
      by simp
  next
    case False
    from run have "local_storage_move_assign cfg ?D (storage n) this s = (Returned u, s')"
      by (simp add: via_vtable_eq [OF live] get_vtable_local_pointee [OF table False] call_def)
    from inv_assigned_local [OF inv local_storage_move_assign_assigned [OF this]]
    show ?thesis
      by simp
  qed
  then show "inv_in cfg (conts s') (heap s')"
    and "(\<exists>d. holds_in cfg (conts s) (heap s) n d)
         \<Longrightarrow> \<exists>d. holds_in cfg (conts s') (heap s') this d"
    by simp_all
qed

lemma begin_lifetime_Returned:
  "begin_lifetime this vt s = (Returned u, s1) \<longleftrightarrow>
     conts s this = None
     \<and> s1 = s\<lparr>conts := (conts s)(this \<mapsto> \<lparr>m_storage = indeterminate, m_vtable = vt\<rparr>)\<rparr>"
  by (auto simp: begin_lifetime_def split: option.splits)

lemma same_table:
  assumes "target_ok cfg" and inv: "inv_in cfg cs h"
    and "cs n = Some c" "cs m = Some c'" "address (m_vtable c) = address (m_vtable c')"
  shows "m_vtable c = m_vtable c'"
proof -
  note a = inv_table [OF inv assms(3)] and b = inv_table [OF inv assms(4)]
  from same_address [OF assms(1) a b assms(5)]
  have "get_vtable cfg (table_type (m_vtable c)) = get_vtable cfg (table_type (m_vtable c'))"
    by (rule arg_cong)
  then have "well_formed (m_vtable c) = well_formed (m_vtable c')"
    by (simp only: a b)
  then show ?thesis
    by (simp only: compiled.inject)
qed

lemma same_table_new:
  assumes "target_ok cfg" and inv: "inv_in cfg cs h"
    and "cs n = Some c" "get_vtable cfg D = well_formed vt" "address (m_vtable c) = address vt"
  shows "m_vtable c = vt"
proof -
  note a = inv_table [OF inv assms(3)]
  from same_address [OF assms(1) a assms(4,5)]
  have "get_vtable cfg (table_type (m_vtable c)) = get_vtable cfg D"
    by (rule arg_cong)
  then have "well_formed (m_vtable c) = well_formed vt"
    by (simp only: a assms(4))
  then show ?thesis
    by (simp only: compiled.inject)
qed

text \<open>Constructors\<close>

lemma born:
  assumes inv: "inv_in cfg (conts s) (heap s)" and "conts s this = None"
  shows "inv_in cfg ((conts (s\<lparr>conts := (conts s)(this \<mapsto> c)\<rparr>))(this := None))
           (heap (s\<lparr>conts := (conts s)(this \<mapsto> c)\<rparr>))"
proof -
  from assms(2) have "(conts s)(this := None) = conts s"
    by (simp add: fun_upd_idem)
  with inv show ?thesis
    by simp
qed

lemma ctor_in_place_body_inv:
  assumes inv: "inv_in cfg (conts s) (heap s)" and table: "get_vtable cfg D = well_formed vt"
    and run: "ctor_in_place_body cfg D vt this i s = (Returned u, s')"
  shows "inv_in cfg (conts s') (heap s') \<and> (\<exists>d. holds_in cfg (conts s') (heap s') this d)"
proof -
  let ?c = "\<lparr>m_storage = indeterminate, m_vtable = vt\<rparr>"
  let ?s1 = "s\<lparr>conts := (conts s)(this \<mapsto> ?c)\<rparr>"
  from run have fresh: "conts s this = None" and b: "build cfg D i this ?s1 = (Returned u, s')"
    by (auto simp: ctor_in_place_body_def under_construction_Returned and_then_Returned
          begin_lifetime_Returned)
  have live1: "conts ?s1 this = Some ?c" and table1: "get_vtable cfg D = well_formed (m_vtable ?c)"
    using table by simp_all
  show ?thesis
    by (rule fill_build [OF born [OF inv fresh] live1 table1 b])
qed

lemma ctor_value_body_inv:
  assumes inv: "inv_in cfg (conts s) (heap s)" and table: "get_vtable cfg D = well_formed vt"
    and run: "ctor_value_body cfg D vt this r s = (Returned u, s')"
  shows "inv_in cfg (conts s') (heap s') \<and> (\<exists>d. holds_in cfg (conts s') (heap s') this d)"
proof -
  let ?c = "\<lparr>m_storage = indeterminate, m_vtable = vt\<rparr>"
  let ?s1 = "s\<lparr>conts := (conts s)(this \<mapsto> ?c)\<rparr>"
  from run have fresh: "conts s this = None"
      and b: "build cfg D (forward r) this ?s1 = (Returned u, s')"
    by (auto simp: ctor_value_body_def under_construction_Returned and_then_Returned
          begin_lifetime_Returned split: if_splits)
  have live1: "conts ?s1 this = Some ?c" and table1: "get_vtable cfg D = well_formed (m_vtable ?c)"
    using table by simp_all
  show ?thesis
    by (rule fill_build [OF born [OF inv fresh] live1 table1 b])
qed

lemma ctor_copy_inv:
  assumes inv: "inv_in cfg (conts s) (heap s)"
    and run: "ctor_copy cfg this src s = (Returned u, s')"
  shows "inv_in cfg (conts s') (heap s') \<and> (\<exists>d. holds_in cfg (conts s') (heap s') this d)"
proof -
  from run obtain c where src: "conts s src = Some c"
    by (auto simp: ctor_copy_def split: option.splits)
  let ?c = "\<lparr>m_storage = indeterminate, m_vtable = m_vtable c\<rparr>"
  let ?s1 = "s\<lparr>conts := (conts s)(this \<mapsto> ?c)\<rparr>"
  from run src have fresh: "conts s this = None"
      and b: "via_vtable this (\<lambda>vt. call cfg (copy vt) (storage src) this) ?s1 = (Returned u, s')"
    by (auto simp: ctor_copy_def under_construction_Returned and_then_Returned
          begin_lifetime_Returned)
  have live1: "conts ?s1 this = Some ?c"
    and table1: "get_vtable cfg (table_type (m_vtable c)) = well_formed (m_vtable ?c)"
    using inv_table [OF inv src] by simp_all
  show ?thesis
    by (rule fill_copy [OF born [OF inv fresh] live1 table1 b])
qed

lemma ctor_move_inv:
  assumes inv: "inv_in cfg (conts s) (heap s)"
    and run: "ctor_move cfg this src s = (Returned u, s')"
  shows "inv_in cfg (conts s') (heap s')
       \<and> ((\<exists>d. holds_in cfg (conts s) (heap s) src d)
            \<longrightarrow> (\<exists>d. holds_in cfg (conts s') (heap s') this d))"
proof -
  from run obtain c where src: "conts s src = Some c"
    by (auto simp: ctor_move_def noexcept_Returned split: option.splits)
  let ?c = "\<lparr>m_storage = indeterminate, m_vtable = m_vtable c\<rparr>"
  let ?s1 = "s\<lparr>conts := (conts s)(this \<mapsto> ?c)\<rparr>"
  from run src have fresh: "conts s this = None"
      and b: "via_vtable this (\<lambda>vt. call cfg (move vt) (storage src) this) ?s1 = (Returned u, s')"
    by (auto simp: ctor_move_def noexcept_Returned under_construction_Returned and_then_Returned
          begin_lifetime_Returned)
  from fresh src have ne: "src \<noteq> this"
    by auto
  have live1: "conts ?s1 this = Some ?c" and src1: "conts ?s1 src = Some c"
    using ne src by simp_all
  have keep: "holds_in cfg (conts ?s1) (heap ?s1) src d = holds_in cfg (conts s) (heap s) src d" for d
    using ne by (simp add: holds_in_other)
  have same: "m_vtable ?c = m_vtable c"
    by simp
  note fill = fill_move [OF born [OF inv fresh] live1 src1 ne same b]
  show ?thesis
  proof (intro conjI impI)
    show "inv_in cfg (conts s') (heap s')"
      by (rule fill(1))
    assume "\<exists>d. holds_in cfg (conts s) (heap s) src d"
    then have "\<exists>d. holds_in cfg (conts ?s1) (heap ?s1) src d"
      by (simp only: keep)
    then show "\<exists>d. holds_in cfg (conts s') (heap s') this d"
      by (rule fill(2))
  qed
qed

lemma still_held:
  assumes rest: "inv_in cfg (cs(this := None)) h'" and ne: "n \<noteq> this"
    and held: "\<exists>d. holds_in cfg cs h n d"
  shows "\<exists>d. holds_in cfg (cs(this := None)) h' n d"
proof -
  from held obtain d c where c: "cs n = Some c" and "cell_object h (m_storage c) = Some d"
    by (auto simp: holds_in_def object_in_def)
  then have "m_storage c \<noteq> heap_buffer nullptr"
    by (auto simp: cell_object_def)
  with c ne have "\<not> emptied_in cfg (cs(this := None)) n"
    by (simp add: emptied_in_def)
  moreover from c ne have "(cs(this := None)) n = Some c"
    by simp
  ultimately show ?thesis
    using inv_status [OF rest] by blast
qed

lemma operator_assign_copy_inv:
  assumes ok: "target_ok cfg" and inv: "inv_in cfg (conts s) (heap s)"
    and ne: "src \<noteq> this"
    and run: "operator_assign_copy cfg this src s = (Returned u, s')"
  shows "inv_in cfg (conts s') (heap s') \<and> (\<exists>d. holds_in cfg (conts s') (heap s') this d)"
proof -
  from run ne obtain c c' where live: "conts s this = Some c" and src: "conts s src = Some c'"
    by (auto simp: operator_assign_copy_def split: option.splits)
  show ?thesis
  proof (cases "address (m_vtable c) = address (m_vtable c')")
    case True
    with run ne live src
    have "via_vtable this (\<lambda>vt. call cfg (copy_assign vt) (storage src) this) s = (Returned u, s')"
      by (simp add: operator_assign_copy_def)
    from assign_in_place_copy [OF inv live inv_table [OF inv live] this] show ?thesis .
  next
    case False
    with run ne live src
    have "and_then (via_vtable this (\<lambda>vt. call_destroy (destroy vt) this) s)
            (\<lambda>_ s1. and_then (set_vtable this (m_vtable c') s1)
               (\<lambda>_. via_vtable this (\<lambda>vt. call cfg (copy vt) (storage src) this)))
          = (Returned u, s')"
      by (simp add: operator_assign_copy_def)
    from rebuild_phase [OF inv live this] obtain s2 c2 where
        k: "via_vtable this (\<lambda>vt. call cfg (copy vt) (storage src) this) s2 = (Returned u, s')"
        and cs2: "conts s2 = (conts s)(this \<mapsto> c2)" and vt2: "m_vtable c2 = m_vtable c'"
        and rest: "inv_in cfg ((conts s)(this := None)) (heap s2)"
      by blast
    from cs2 rest have rest2: "inv_in cfg ((conts s2)(this := None)) (heap s2)"
      by simp
    from cs2 have live2: "conts s2 this = Some c2"
      by simp
    from inv_table [OF inv src] vt2
    have table2: "get_vtable cfg (table_type (m_vtable c')) = well_formed (m_vtable c2)"
      by simp
    from fill_copy [OF rest2 live2 table2 k] show ?thesis .
  qed
qed

lemma operator_assign_move_inv:
  assumes ok: "target_ok cfg" and inv: "inv_in cfg (conts s) (heap s)"
    and ne: "src \<noteq> this"
    and run: "operator_assign_move cfg this src s = (Returned u, s')"
  shows "inv_in cfg (conts s') (heap s')
       \<and> ((\<exists>d. holds_in cfg (conts s) (heap s) src d)
            \<longrightarrow> (\<exists>d. holds_in cfg (conts s') (heap s') this d))"
proof -
  from run ne obtain c c' where live: "conts s this = Some c" and src: "conts s src = Some c'"
    by (auto simp: operator_assign_move_def noexcept_Returned split: option.splits)
  show ?thesis
  proof (cases "address (m_vtable c) = address (m_vtable c')")
    case True
    with run ne live src
    have "via_vtable this (\<lambda>vt. call cfg (move_assign vt) (storage src) this) s = (Returned u, s')"
      by (simp add: operator_assign_move_def noexcept_Returned)
    from assign_in_place_move [OF inv live src ne same_table [OF ok inv live src True] this]
    show ?thesis
      by blast
  next
    case False
    with run ne live src
    have "and_then (via_vtable this (\<lambda>vt. call_destroy (destroy vt) this) s)
            (\<lambda>_ s1. and_then (set_vtable this (m_vtable c') s1)
               (\<lambda>_. via_vtable this (\<lambda>vt. call cfg (move vt) (storage src) this)))
          = (Returned u, s')"
      by (simp add: operator_assign_move_def noexcept_Returned)
    from rebuild_phase [OF inv live this] obtain s2 c2 where
        k: "via_vtable this (\<lambda>vt. call cfg (move vt) (storage src) this) s2 = (Returned u, s')"
        and cs2: "conts s2 = (conts s)(this \<mapsto> c2)" and vt2: "m_vtable c2 = m_vtable c'"
        and rest: "inv_in cfg ((conts s)(this := None)) (heap s2)"
      by blast
    from cs2 rest have rest2: "inv_in cfg ((conts s2)(this := None)) (heap s2)"
      by simp
    from cs2 have live2: "conts s2 this = Some c2"
      by simp
    from cs2 src ne have src2: "conts s2 src = Some c'"
      by simp
    note fill = fill_move [OF rest2 live2 src2 ne vt2 k]
    show ?thesis
    proof (intro conjI impI)
      show "inv_in cfg (conts s') (heap s')"
        by (rule fill(1))
      assume "\<exists>d. holds_in cfg (conts s) (heap s) src d"
      from still_held [OF rest ne this]
      have "\<exists>d. holds_in cfg (conts s2) (heap s2) src d"
        using ne by (simp add: cs2 holds_in_other)
      then show "\<exists>d. holds_in cfg (conts s') (heap s') this d"
        by (rule fill(2))
    qed
  qed
qed

lemma operator_assign_value_copy_body_inv:
  assumes ok: "target_ok cfg" and inv: "inv_in cfg (conts s) (heap s)"
    and table: "get_vtable cfg D = well_formed vt"
    and run: "operator_assign_value_copy_body cfg D vt this d s = (Returned u, s')"
  shows "inv_in cfg (conts s') (heap s') \<and> (\<exists>d. holds_in cfg (conts s') (heap s') this d)"
proof -
  from run obtain c where live: "conts s this = Some c" and ns: "\<not> slices cfg D d"
    by (auto simp: operator_assign_value_copy_body_def split: option.splits if_splits)
  show ?thesis
  proof (cases "address (m_vtable c) = address vt")
    case True
    with run ns live
    have r: "via_vtable this (\<lambda>vt. call cfg (copy_assign_raw vt) (object d) this) s = (Returned u, s')"
      by (simp add: operator_assign_value_copy_body_def)
    from same_table_new [OF ok inv live table True] table
    have "get_vtable cfg D = well_formed (m_vtable c)"
      by simp
    from assign_in_place_copy_raw [OF inv live this r] show ?thesis .
  next
    case False
    with run ns live
    have "and_then (via_vtable this (\<lambda>vt. call_destroy (destroy vt) this) s)
            (\<lambda>_ s1. and_then (set_vtable this vt s1)
               (\<lambda>_. via_vtable this (\<lambda>vt. call cfg (copy_raw vt) (object d) this)))
          = (Returned u, s')"
      by (simp add: operator_assign_value_copy_body_def)
    from rebuild_phase [OF inv live this] obtain s2 c2 where
        k: "via_vtable this (\<lambda>vt. call cfg (copy_raw vt) (object d) this) s2 = (Returned u, s')"
        and cs2: "conts s2 = (conts s)(this \<mapsto> c2)" and vt2: "m_vtable c2 = vt"
        and rest: "inv_in cfg ((conts s)(this := None)) (heap s2)"
      by blast
    from cs2 rest have rest2: "inv_in cfg ((conts s2)(this := None)) (heap s2)"
      by simp
    from cs2 have live2: "conts s2 this = Some c2"
      by simp
    from table vt2 have table2: "get_vtable cfg D = well_formed (m_vtable c2)"
      by simp
    from fill_copy_raw [OF rest2 live2 table2 k] show ?thesis .
  qed
qed

lemma operator_assign_value_move_body_inv:
  assumes ok: "target_ok cfg" and inv: "inv_in cfg (conts s) (heap s)"
    and table: "get_vtable cfg D = well_formed vt"
    and run: "operator_assign_value_move_body cfg D vt this d s = (Returned u, s')"
  shows "inv_in cfg (conts s') (heap s') \<and> (\<exists>d. holds_in cfg (conts s') (heap s') this d)"
proof -
  from run obtain c where live: "conts s this = Some c" and ns: "\<not> slices cfg D d"
    by (auto simp: operator_assign_value_move_body_def split: option.splits if_splits)
  show ?thesis
  proof (cases "address (m_vtable c) = address vt")
    case True
    with run ns live
    have r: "via_vtable this (\<lambda>vt. call cfg (move_assign_raw vt) (object d) this) s = (Returned u, s')"
      by (simp add: operator_assign_value_move_body_def)
    from same_table_new [OF ok inv live table True] table
    have "get_vtable cfg D = well_formed (m_vtable c)"
      by simp
    from assign_in_place_move_raw [OF inv live this r] show ?thesis .
  next
    case False
    with run ns live
    have "and_then (via_vtable this (\<lambda>vt. call_destroy (destroy vt) this) s)
            (\<lambda>_ s1. and_then (set_vtable this vt s1)
               (\<lambda>_. via_vtable this (\<lambda>vt. call cfg (move_raw vt) (object d) this)))
          = (Returned u, s')"
      by (simp add: operator_assign_value_move_body_def)
    from rebuild_phase [OF inv live this] obtain s2 c2 where
        k: "via_vtable this (\<lambda>vt. call cfg (move_raw vt) (object d) this) s2 = (Returned u, s')"
        and cs2: "conts s2 = (conts s)(this \<mapsto> c2)" and vt2: "m_vtable c2 = vt"
        and rest: "inv_in cfg ((conts s)(this := None)) (heap s2)"
      by blast
    from cs2 rest have rest2: "inv_in cfg ((conts s2)(this := None)) (heap s2)"
      by simp
    from cs2 have live2: "conts s2 this = Some c2"
      by simp
    from table vt2 have table2: "get_vtable cfg D = well_formed (m_vtable c2)"
      by simp
    from fill_move_raw [OF rest2 live2 table2 k] show ?thesis .
  qed
qed

lemma emplace_body_inv:
  assumes inv: "inv_in cfg (conts s) (heap s)"
    and table: "get_vtable cfg D = well_formed vt"
    and run: "emplace_body cfg D vt this i s = (Returned u, s')"
  shows "inv_in cfg (conts s') (heap s') \<and> (\<exists>d. holds_in cfg (conts s') (heap s') this d)"
proof -
  from run obtain c where live: "conts s this = Some c"
    by (auto simp: emplace_body_def via_vtable_def and_then_def split: option.splits)
  from run
  have "and_then (via_vtable this (\<lambda>vt. call_destroy (destroy vt) this) s)
            (\<lambda>_ s1. and_then (set_vtable this vt s1) (\<lambda>_. build cfg D i this))
          = (Returned u, s')"
    by (simp add: emplace_body_def)
  from rebuild_phase [OF inv live this] obtain s2 c2 where
      k: "build cfg D i this s2 = (Returned u, s')"
      and cs2: "conts s2 = (conts s)(this \<mapsto> c2)" and vt2: "m_vtable c2 = vt"
      and rest: "inv_in cfg ((conts s)(this := None)) (heap s2)"
    by blast
  from cs2 rest have rest2: "inv_in cfg ((conts s2)(this := None)) (heap s2)"
    by simp
  from cs2 have live2: "conts s2 this = Some c2"
    by simp
  from table vt2 have table2: "get_vtable cfg D = well_formed (m_vtable c2)"
    by simp
  from fill_build [OF rest2 live2 table2 k] show ?thesis .
qed

lemma dtor_inv:
  assumes inv: "inv_in cfg (conts s) (heap s)" and live: "conts s this \<noteq> None"
  shows "\<exists>s'. dtor this s = (Returned (), s') \<and> conts s' this = None
           \<and> inv_in cfg (conts s') (heap s')"
proof -
  from live obtain c where c: "conts s this = Some c"
    by auto
  from destroy_phase [OF inv c] obtain s1 c1 where
      d: "via_vtable this (\<lambda>vt. call_destroy (destroy vt) this) s = (Returned (), s1)"
      and cs1: "conts s1 = (conts s)(this \<mapsto> c1)"
      and rest: "inv_in cfg ((conts s)(this := None)) (heap s1)"
    by blast
  from d cs1 rest show ?thesis
    by (simp add: dtor_def and_then_simps)
qed

section \<open>The storage-kind decision\<close>

lemma construct_built:
  assumes "\<not> raises (traits_of cfg D) (special_of i)"
  shows "construct cfg D i s = (Returned (built D i), log (construction_event D i) s)"
proof (cases i)
  case (args v)
  with assms show ?thesis
    by (simp add: construct_def run_special_def and_then_simps special_of_def construction_event_def
          built_def)
next
  case (forward r)
  with assms show ?thesis
    by (cases r)
       (simp_all add: construct_def run_special_def and_then_simps noexcept_simps special_of_def
          construction_event_def built_def referent_def)
qed

lemma new_expr_built:
  assumes "\<not> raises (traits_of cfg D) (special_of i)" and "free_blocks s \<noteq> 0"
  shows "new_expr cfg D i s =
     (Returned (Addr (length (heap s))),
      s\<lparr>heap := heap s @ [Some (built D i)], free_blocks := free_blocks s - 1,
        trace := trace s @ [Alloc (length (heap s)), construction_event D i]\<rparr>)"
  using assms(2) by (simp add: new_expr_def Let_def construct_built [OF assms(1)] log_def)

text \<open>
  C2. A concrete type is stored in heap exactly when it is not the case that its size is
  at most the inline capacity, its alignment at most the inline alignment and it is
  nothrow-move-constructible: the decision reads the type's traits and the two configured
  bounds and nothing else. \<open>build\<close> follows it for every container, every state and every
  initialiser whose constructor call does not throw. When the three conditions hold it
  returns with the new object in the inline buffer of the cell, after the one constructor
  call, and the free store is not touched. Otherwise it asks \<open>operator new\<close> for a block:
  when there is one, it returns with the new object in that block and the block's address
  in the cell, after the allocation and the one constructor call; when there is none, it
  throws \<open>bad_alloc\<close> and nothing has changed.
\<close>

theorem storage_kind_decision:
  assumes "conts s this = Some c" and "\<not> raises (traits_of cfg D) (special_of i)"
  shows "store_in_heap T cap al
           = (\<not> (size_of T \<le> cap \<and> align_of T \<le> al \<and> is_nothrow_move_constructible T))
       \<and> build cfg D i this s =
           (if size_of (traits_of cfg D) \<le> sbo_size cfg
               \<and> align_of (traits_of cfg D) \<le> sbo_alignment cfg
               \<and> is_nothrow_move_constructible (traits_of cfg D)
            then (Returned (),
                  s\<lparr>conts := (conts s)(this \<mapsto> c\<lparr>m_storage := local_buffer (built D i)\<rparr>),
                    trace := trace s @ [construction_event D i]\<rparr>)
            else if free_blocks s = 0 then (Threw bad_alloc, s)
            else (Returned (),
                  s\<lparr>conts := (conts s)
                       (this \<mapsto> c\<lparr>m_storage := heap_buffer (Addr (length (heap s)))\<rparr>),
                    heap := heap s @ [Some (built D i)],
                    free_blocks := free_blocks s - 1,
                    trace := trace s @ [Alloc (length (heap s)), construction_event D i]\<rparr>))"
proof -
  let ?inline = "size_of (traits_of cfg D) \<le> sbo_size cfg
               \<and> align_of (traits_of cfg D) \<le> sbo_alignment cfg
               \<and> is_nothrow_move_constructible (traits_of cfg D)"
  have decision: "store_in_heap T cap al
      = (\<not> (size_of T \<le> cap \<and> align_of T \<le> al \<and> is_nothrow_move_constructible T))" for T cap al
    by (auto simp: store_in_heap_def)
  have kind: "store_in_heap (traits_of cfg D) (sbo_size cfg) (sbo_alignment cfg) = (\<not> ?inline)"
    by (rule decision)
  have "build cfg D i this s =
           (Returned (),
            s\<lparr>conts := (conts s)(this \<mapsto> c\<lparr>m_storage := local_buffer (built D i)\<rparr>),
              trace := trace s @ [construction_event D i]\<rparr>)"
    if ?inline
    using that assms(1) kind
    by (simp add: build_def construct_built [OF assms(2)] and_then_simps store_def log_def)
  moreover have "build cfg D i this s = (Threw bad_alloc, s)"
    if "\<not> ?inline" "free_blocks s = 0"
    using that kind by (simp add: build_def new_expr_def and_then_simps)
  moreover have "build cfg D i this s =
           (Returned (),
            s\<lparr>conts := (conts s)
                 (this \<mapsto> c\<lparr>m_storage := heap_buffer (Addr (length (heap s)))\<rparr>),
              heap := heap s @ [Some (built D i)],
              free_blocks := free_blocks s - 1,
              trace := trace s @ [Alloc (length (heap s)), construction_event D i]\<rparr>)"
    if "\<not> ?inline" "free_blocks s \<noteq> 0"
    using that(1) assms(1) kind
    by (simp add: build_def new_expr_built [OF assms(2) that(2)] and_then_simps store_def)
  ultimately show ?thesis
    using decision [of T cap al] by (simp only: if_split) blast
qed

text \<open>
  On the LP64 target, in a container whose cell is not yet built: type 1 (16 bytes) is
  placed inline, type 2 (48 bytes, more than the 24 of the buffer) in the free store.
\<close>

theorem storage_kind_decision_witness:
  "conts (startup\<lparr>conts := [10 \<mapsto> \<lparr>m_storage = indeterminate, m_vtable = big_table\<rparr>]\<rparr>) 10
     = Some \<lparr>m_storage = indeterminate, m_vtable = big_table\<rparr>
   \<and> \<not> raises (traits_of lp64 2) (special_of (args 7))
   \<and> \<not> store_in_heap (traits_of lp64 1) (sbo_size lp64) (sbo_alignment lp64)
   \<and> store_in_heap (traits_of lp64 2) (sbo_size lp64) (sbo_alignment lp64)
   \<and> build lp64 2 (args 7) 10
       (startup\<lparr>conts := [10 \<mapsto> \<lparr>m_storage = indeterminate, m_vtable = big_table\<rparr>]\<rparr>)
     = (Returned (), big_at_10)
   \<and> conts (startup\<lparr>conts := [10 \<mapsto> \<lparr>m_storage = indeterminate,
                                        m_vtable = get_vtable_local lp64 1\<rparr>]\<rparr>) 10
     = Some \<lparr>m_storage = indeterminate, m_vtable = get_vtable_local lp64 1\<rparr>
   \<and> \<not> raises (traits_of lp64 1) (special_of (args 7))
   \<and> build lp64 1 (args 7) 10
       (startup\<lparr>conts := [10 \<mapsto> \<lparr>m_storage = indeterminate,
                                   m_vtable = get_vtable_local lp64 1\<rparr>]\<rparr>)
     = (Returned (), small_at_10)"
proof -
  let ?big = "\<lparr>m_storage = indeterminate, m_vtable = big_table\<rparr>"
  let ?small = "\<lparr>m_storage = indeterminate, m_vtable = get_vtable_local lp64 1\<rparr>"
  let ?s = "startup\<lparr>conts := [10 \<mapsto> ?big]\<rparr>"
  let ?t = "startup\<lparr>conts := [10 \<mapsto> ?small]\<rparr>"
  have live: "conts ?s 10 = Some ?big" "conts ?t 10 = Some ?small"
    by simp_all
  have calm: "\<not> raises (traits_of lp64 2) (special_of (args 7))"
      "\<not> raises (traits_of lp64 1) (special_of (args 7))"
    by (simp_all add: lp64_fields test_traits_def special_of_def)
  note heap_case = storage_kind_decision [OF live(1) calm(1),
      of "traits_of lp64 2" "sbo_size lp64" "sbo_alignment lp64"]
  note inline_case = storage_kind_decision [OF live(2) calm(2),
      of "traits_of lp64 1" "sbo_size lp64" "sbo_alignment lp64"]
  from conjunct1 [OF heap_case]
  have a: "store_in_heap (traits_of lp64 2) (sbo_size lp64) (sbo_alignment lp64)"
    by (simp add: lp64_fields test_traits_def)
  from conjunct1 [OF inline_case]
  have b: "\<not> store_in_heap (traits_of lp64 1) (sbo_size lp64) (sbo_alignment lp64)"
    by (simp add: lp64_fields test_traits_def)
  from conjunct2 [OF heap_case]
  have c: "build lp64 2 (args 7) 10 ?s = (Returned (), big_at_10)"
    by (simp add: lp64_fields test_traits_def startup_def big_at_10_def built_def
          construction_event_def)
  from conjunct2 [OF inline_case]
  have d: "build lp64 1 (args 7) 10 ?t = (Returned (), small_at_10)"
    by (simp add: lp64_fields test_traits_def startup_def small_at_10_def built_def
          construction_event_def)
  from live calm a b c d show ?thesis
    by (intro conjI)
qed

section \<open>The parity of table addresses\<close>

text \<open>
  C1. Wherever the tables build (the \<open>static_assert\<close> on the offset holds) and for any
  placement of the static tables: the table of an inline-stored type lies at an address
  that is 0 modulo twice the pointer alignment, the table of a heap-stored type at an
  address that is one pointer alignment modulo twice the pointer alignment, the embedded
  table being at offset one pointer alignment in its wrapper, and \<open>storage_is_local\<close>
  applied to the table pointer tells the storage kind of the type.
\<close>

theorem table_address_parity:
  assumes "0 < alignof_ptr cfg" and "get_vtable cfg D = well_formed vt"
  shows "(\<not> in_heap cfg D \<longrightarrow> address vt mod (alignof_ptr cfg * 2) = 0)
       \<and> (in_heap cfg D \<longrightarrow> address vt mod (alignof_ptr cfg * 2) = alignof_ptr cfg
                             \<and> offsetof_vtable cfg = alignof_ptr cfg)
       \<and> storage_is_local cfg vt = (\<not> in_heap cfg D)"
proof (cases "in_heap cfg D")
  case False
  with assms(2) have "vt = get_vtable_local cfg D"
    by (simp add: get_vtable_def)
  then have "address vt mod (alignof_ptr cfg * 2) = 0"
    by (simp add: get_vtable_local_def)
  with False show ?thesis
    by (simp add: storage_is_local_def)
next
  case True
  with assms(2) have heap: "get_vtable_heap cfg D = well_formed vt"
    by (simp add: get_vtable_def)
  then have off: "offsetof_vtable cfg = alignof_ptr cfg"
    by (auto simp: get_vtable_heap_def split: if_splits)
  from heap off have "address vt = (alignof_ptr cfg * 2) * place cfg D + alignof_ptr cfg"
    by (auto simp: get_vtable_heap_def split: if_splits)
  then have "address vt mod (alignof_ptr cfg * 2) = alignof_ptr cfg mod (alignof_ptr cfg * 2)"
    by simp
  also have "\<dots> = alignof_ptr cfg"
    using assms(1) by simp
  finally have "address vt mod (alignof_ptr cfg * 2) = alignof_ptr cfg" .
  with True off assms(1) show ?thesis
    by (simp add: storage_is_local_def)
qed

theorem table_address_parity_witness:
  "0 < alignof_ptr lp64
   \<and> (\<exists>vt. get_vtable lp64 2 = well_formed vt \<and> address vt = 40
           \<and> address vt mod (alignof_ptr lp64 * 2) = alignof_ptr lp64
           \<and> \<not> storage_is_local lp64 vt)
   \<and> (\<exists>vt. get_vtable lp64 1 = well_formed vt \<and> address vt = 16
           \<and> address vt mod (alignof_ptr lp64 * 2) = 0
           \<and> storage_is_local lp64 vt)"
proof -
  have pos: "0 < alignof_ptr lp64"
    by (simp add: lp64_def)
  obtain big where big: "get_vtable lp64 2 = well_formed big" and "address big = 40"
    by (simp add: get_vtable_def get_vtable_heap_def lp64_in_heap lp64_offsetof lp64_fields)
  obtain small where small: "get_vtable lp64 1 = well_formed small" and "address small = 16"
    by (simp add: get_vtable_def get_vtable_local_def lp64_in_heap lp64_fields)
  from table_address_parity [OF pos big] table_address_parity [OF pos small]
    pos big small \<open>address big = 40\<close> \<open>address small = 16\<close>
  show ?thesis
    by (simp add: lp64_in_heap)
qed

section \<open>The static policy check on allocations\<close>

text \<open>
  C9. When \<open>AllowAllocations\<close> is false and the storage-kind decision of a concrete
  type resolves to heap, none of the five member templates that take a concrete type
  (construction from a value, in-place construction, copy- and move-assignment of a
  value, \<open>emplace\<close>) has an instantiation: each is rejected by its \<open>static_assert\<close>, so
  there is no function to run.
\<close>

theorem allocations_rejected_at_build:
  assumes "\<not> allow_allocations cfg" and "in_heap cfg D"
  shows "ctor_value cfg D = ill_formed ''Allocations are not allowed''
       \<and> ctor_in_place cfg D = ill_formed ''Allocations are not allowed''
       \<and> operator_assign_value_copy cfg D = ill_formed ''Allocations are not allowed''
       \<and> operator_assign_value_move cfg D = ill_formed ''Allocations are not allowed''
       \<and> emplace cfg D = ill_formed ''Allocations are not allowed''"
  using assms
  by (simp add: ctor_value_def ctor_in_place_def operator_assign_value_copy_def
        operator_assign_value_move_def emplace_def static_assert_def)

theorem allocations_rejected_at_build_witness:
  "\<not> allow_allocations (lp64\<lparr>allow_allocations := False\<rparr>)
   \<and> in_heap (lp64\<lparr>allow_allocations := False\<rparr>) 2
   \<and> ctor_value (lp64\<lparr>allow_allocations := False\<rparr>) 2
       = ill_formed ''Allocations are not allowed''
   \<and> ctor_in_place (lp64\<lparr>allow_allocations := False\<rparr>) 2
       = ill_formed ''Allocations are not allowed''
   \<and> operator_assign_value_copy (lp64\<lparr>allow_allocations := False\<rparr>) 2
       = ill_formed ''Allocations are not allowed''
   \<and> operator_assign_value_move (lp64\<lparr>allow_allocations := False\<rparr>) 2
       = ill_formed ''Allocations are not allowed''
   \<and> emplace (lp64\<lparr>allow_allocations := False\<rparr>) 2
       = ill_formed ''Allocations are not allowed''
   \<and> ctor_in_place (lp64\<lparr>allow_allocations := False\<rparr>) 1
       = well_formed (ctor_in_place_body (lp64\<lparr>allow_allocations := False\<rparr>) 1
           (get_vtable_local (lp64\<lparr>allow_allocations := False\<rparr>) 1))"
proof -
  have off: "\<not> allow_allocations (lp64\<lparr>allow_allocations := False\<rparr>)"
    by simp
  have big: "in_heap (lp64\<lparr>allow_allocations := False\<rparr>) 2"
    and small: "\<not> in_heap (lp64\<lparr>allow_allocations := False\<rparr>) 1"
    by (simp_all add: in_heap_def store_in_heap_def lp64_def test_traits_def)
  have ok: "ctor_in_place (lp64\<lparr>allow_allocations := False\<rparr>) 1
       = well_formed (ctor_in_place_body (lp64\<lparr>allow_allocations := False\<rparr>) 1
           (get_vtable_local (lp64\<lparr>allow_allocations := False\<rparr>) 1))"
    using small by (simp add: ctor_in_place_def static_assert_def with_vtable_def get_vtable_def)
  from allocations_rejected_at_build [OF off big] off big ok
  show ?thesis
    by simp
qed

section \<open>The slicing check\<close>

lemma get_cong:
  "conts s' = conts s \<Longrightarrow> heap s' = heap s \<Longrightarrow> get cfg s' n = get cfg s n"
  by (simp add: get_def deref_def heap_at_def split: option.splits sbo_storage.splits ptr.splits)

lemma get_append_None:
  assumes "conts s' = conts s" and "heap s' = heap s @ [None]"
  shows "get cfg s' n = get cfg s n"
proof (cases "conts s n")
  case None
  with assms show ?thesis
    by (simp add: get_def)
next
  case (Some c)
  have "deref s' p = deref s p" for p
    using assms(2) by (cases p) (auto simp: deref_def heap_at_def nth_append)
  with Some assms(1) show ?thesis
    by (simp add: get_def split: sbo_storage.splits)
qed

text \<open>
  C6, as the code has it. With runtime type identity available, constructing a container
  from a value, or assigning a value to a container, whose dynamic type is not the
  declared type stops at the check, before anything else is done. The exception is built
  first, and its message is allocated: when a block is left the operation throws
  \<open>bad_polymorphic_value\<close> with the message "Value would slice", and that allocation is
  all that has happened; when none is left it throws \<open>bad_alloc\<close> and nothing has
  happened. Either way the containers are what they were and each of them holds what it
  held: no container is created or changed, and no object is built, destroyed or assigned.
\<close>

theorem slicing_is_rejected:
  assumes "rtti_supported cfg" and "dyn_type d \<noteq> D"
    and "ctor_value cfg D = well_formed construct_from"
    and "operator_assign_value_copy cfg D = well_formed assign_copy_of"
    and "operator_assign_value_move cfg D = well_formed assign_move_of"
    and "op = construct_from this (lvalue d) \<or> op = construct_from this (rvalue d)
         \<or> op = assign_copy_of this d \<or> op = assign_move_of this d"
  shows "op s =
           (if free_blocks s = 0 then (Threw bad_alloc, s)
            else (Threw (bad_polymorphic_value ''Value would slice''),
                  s\<lparr>heap := heap s @ [None], free_blocks := free_blocks s - 1,
                    trace := trace s @ [Alloc (length (heap s))]\<rparr>))
       \<and> conts (snd (op s)) = conts s
       \<and> get cfg (snd (op s)) = get cfg s"
proof -
  have cut: "slices cfg D d"
    using assms(1,2) by (auto simp: slices_def)
  obtain vt where
      "construct_from = ctor_value_body cfg D vt"
      "assign_copy_of = operator_assign_value_copy_body cfg D vt"
      "assign_move_of = operator_assign_value_move_body cfg D vt"
    using assms(3,4,5)
    by (auto simp: ctor_value_def operator_assign_value_copy_def operator_assign_value_move_def
          static_assert_def with_vtable_def split: if_splits compiled.splits)
  with cut assms(6) have op: "op s = throw_bad_polymorphic_value ''Value would slice'' s"
    by (auto simp: ctor_value_body_def operator_assign_value_copy_body_def
          operator_assign_value_move_body_def referent_def)
  have "get cfg (snd (throw_bad_polymorphic_value ''Value would slice'' s)) n = get cfg s n" for n
    by (cases "free_blocks s = 0")
       (simp_all add: throw_bad_polymorphic_value_def get_append_None log_def)
  then have "get cfg (snd (op s)) = get cfg s"
    by (simp add: op fun_eq_iff)
  then show ?thesis
    by (simp add: op throw_bad_polymorphic_value_def log_def)
qed

theorem slicing_is_rejected_witness:
  "rtti_supported lp64 \<and> dyn_type \<lparr>dyn_type = 4, payload = 9\<rparr> \<noteq> (1::nat)
   \<and> ctor_value lp64 1 = well_formed (ctor_value_body lp64 1 (get_vtable_local lp64 1))
   \<and> operator_assign_value_copy lp64 1
       = well_formed (operator_assign_value_copy_body lp64 1 (get_vtable_local lp64 1))
   \<and> operator_assign_value_move lp64 1
       = well_formed (operator_assign_value_move_body lp64 1 (get_vtable_local lp64 1))
   \<and> ctor_value_body lp64 1 (get_vtable_local lp64 1) 20 (rvalue \<lparr>dyn_type = 4, payload = 9\<rparr>)
         small_at_10
       = (Threw (bad_polymorphic_value ''Value would slice''),
          small_at_10\<lparr>heap := [None], free_blocks := 3, trace := [Ctor 1, Alloc 0]\<rparr>)
   \<and> operator_assign_value_copy_body lp64 1 (get_vtable_local lp64 1) 10
         \<lparr>dyn_type = 4, payload = 9\<rparr> small_at_10
       = (Threw (bad_polymorphic_value ''Value would slice''),
          small_at_10\<lparr>heap := [None], free_blocks := 3, trace := [Ctor 1, Alloc 0]\<rparr>)
   \<and> get lp64 (small_at_10\<lparr>heap := [None], free_blocks := 3, trace := [Ctor 1, Alloc 0]\<rparr>) 10
       = Some \<lparr>dyn_type = 1, payload = 7\<rparr>
   \<and> get lp64 small_at_10 10 = Some \<lparr>dyn_type = 1, payload = 7\<rparr>"
proof -
  let ?d = "\<lparr>dyn_type = 4, payload = 9\<rparr>"
  let ?vt = "get_vtable_local lp64 1"
  let ?after = "small_at_10\<lparr>heap := [None], free_blocks := 3, trace := [Ctor 1, Alloc 0]\<rparr>"
  have rtti: "rtti_supported lp64"
    by (simp add: lp64_fields)
  have other: "dyn_type ?d \<noteq> (1::nat)"
    by simp
  have a: "ctor_value lp64 1 = well_formed (ctor_value_body lp64 1 ?vt)"
    and b: "operator_assign_value_copy lp64 1
       = well_formed (operator_assign_value_copy_body lp64 1 ?vt)"
    and c: "operator_assign_value_move lp64 1
       = well_formed (operator_assign_value_move_body lp64 1 ?vt)"
    by (simp_all add: ctor_value_def operator_assign_value_copy_def
          operator_assign_value_move_def static_assert_def with_vtable_def
          lp64_get_vtable_local lp64_in_heap)
  have here: "free_blocks small_at_10 = 4" "heap small_at_10 = []" "trace small_at_10 = [Ctor 1]"
    by (simp_all add: small_at_10_def)
  have held: "get lp64 small_at_10 10 = Some \<lparr>dyn_type = 1, payload = 7\<rparr>"
    by (simp add: get_def storage_is_local_def small_at_10_def get_vtable_local_def lp64_fields)
  note built = slicing_is_rejected [OF rtti other a b c disjI2 [OF disjI1 [OF refl]],
      where this = 20 and s = small_at_10]
  note assigned = slicing_is_rejected [OF rtti other a b c disjI2 [OF disjI2 [OF disjI1 [OF refl]]],
      where this = 10 and s = small_at_10]
  from conjunct1 [OF built]
  have one: "ctor_value_body lp64 1 ?vt 20 (rvalue ?d) small_at_10
       = (Threw (bad_polymorphic_value ''Value would slice''), ?after)"
    by (simp add: here)
  from conjunct1 [OF assigned]
  have two: "operator_assign_value_copy_body lp64 1 ?vt 10 ?d small_at_10
       = (Threw (bad_polymorphic_value ''Value would slice''), ?after)"
    by (simp add: here)
  from conjunct2 [OF conjunct2 [OF assigned]]
  have three: "get lp64 ?after 10 = Some \<lparr>dyn_type = 1, payload = 7\<rparr>"
    by (simp only: two snd_conv held)
  from rtti other a b c one two three held show ?thesis
    by (intro conjI)
qed

text \<open>
  The claim fails where no block is left for the message: the exception that reaches the
  caller is \<open>bad_alloc\<close>, here for \<open>poly = derived\<close> with \<open>poly\<close> holding a
  \<open>DerivedSmall\<close> and \<open>derived\<close> an object of type 4 seen as its base type 1.
\<close>

theorem slicing_check_without_memory:
  "rtti_supported lp64 \<and> dyn_type \<lparr>dyn_type = 4, payload = 9\<rparr> \<noteq> (1::nat)
   \<and> operator_assign_value_copy lp64 1
       = well_formed (operator_assign_value_copy_body lp64 1 (get_vtable_local lp64 1))
   \<and> operator_assign_value_copy_body lp64 1 (get_vtable_local lp64 1) 10
         \<lparr>dyn_type = 4, payload = 9\<rparr> (small_at_10\<lparr>free_blocks := 0\<rparr>)
       = (Threw bad_alloc, small_at_10\<lparr>free_blocks := 0\<rparr>)
   \<and> fst (operator_assign_value_copy_body lp64 1 (get_vtable_local lp64 1) 10
         \<lparr>dyn_type = 4, payload = 9\<rparr> (small_at_10\<lparr>free_blocks := 0\<rparr>))
       \<noteq> Threw (bad_polymorphic_value ''Value would slice'')"
  by (simp add: operator_assign_value_copy_def static_assert_def with_vtable_def
        lp64_get_vtable_local lp64_in_heap operator_assign_value_copy_body_def slices_def
        throw_bad_polymorphic_value_def lp64_fields)

section \<open>Self-assignment\<close>

text \<open>
  C8. Assigning a container to itself, by copy or by move, returns at once on the
  comparison of the two addresses: the state afterwards is the state before, so the
  contained object is neither destroyed nor rebuilt nor assigned, and the contents and the
  table pointer of the container are unchanged. (No table entry is read: this holds
  whatever the container holds.)
\<close>

theorem self_assignment_is_noop:
  "operator_assign_copy cfg x x s = (Returned (), s)
   \<and> operator_assign_move cfg x x s = (Returned (), s)"
  by (simp add: operator_assign_copy_def operator_assign_move_def noexcept_simps)

theorem self_assignment_is_noop_witness:
  "operator_assign_copy lp64 10 10 big_at_10_20 = (Returned (), big_at_10_20)
   \<and> operator_assign_move lp64 10 10 big_at_10_20 = (Returned (), big_at_10_20)
   \<and> trace (snd (operator_assign_copy lp64 10 10 big_at_10_20)) = [Alloc 0, Ctor 2, Alloc 1, Ctor 2]"
  using self_assignment_is_noop [of lp64 10 big_at_10_20]
  by (simp add: big_at_10_20_def)

section \<open>Moving a heap-held container\<close>

text \<open>
  C5. For a heap-stored concrete type: move-construction from a container with the
  type's table hands the source's heap pointer to the new container and leaves a null
  pointer in the source; move-assignment between two containers with the type's table
  swaps their two heap pointers. In both, the free store, the number of free blocks and
  the record of calls are as before: no object is copied, moved, assigned or destroyed
  and nothing is allocated or freed.
\<close>

theorem heap_move_is_pointer_transfer:
  assumes "in_heap cfg D" and "get_vtable cfg D = well_formed vt"
  shows "(conts s src = Some c \<and> m_vtable c = vt \<and> m_storage c = heap_buffer p
            \<and> conts s this = None \<longrightarrow>
          ctor_move cfg this src s =
            (Returned (),
             s\<lparr>conts := (conts s)(this \<mapsto> \<lparr>m_storage = heap_buffer p, m_vtable = vt\<rparr>,
                                   src \<mapsto> c\<lparr>m_storage := heap_buffer nullptr\<rparr>)\<rparr>))
       \<and> (conts s src = Some c \<and> m_vtable c = vt \<and> m_storage c = heap_buffer p
            \<and> conts s this = Some c' \<and> m_vtable c' = vt \<and> m_storage c' = heap_buffer q
            \<and> src \<noteq> this \<longrightarrow>
          operator_assign_move cfg this src s =
            (Returned (),
             s\<lparr>conts := (conts s)(src \<mapsto> c\<lparr>m_storage := heap_buffer q\<rparr>,
                                   this \<mapsto> c'\<lparr>m_storage := heap_buffer p\<rparr>)\<rparr>))"
proof -
  note table = get_vtable_heap_pointee [OF assms(2,1)]
  have construct: "ctor_move cfg this src s =
            (Returned (),
             s\<lparr>conts := (conts s)(this \<mapsto> \<lparr>m_storage = heap_buffer p, m_vtable = vt\<rparr>,
                                   src \<mapsto> c\<lparr>m_storage := heap_buffer nullptr\<rparr>)\<rparr>)"
    if "conts s src = Some c" "m_vtable c = vt" "m_storage c = heap_buffer p"
       "conts s this = None"
  proof -
    from that have "src \<noteq> this"
      by auto
    with that table show ?thesis
      by (simp add: ctor_move_def begin_lifetime_def via_vtable_def call_def
            heap_storage_move_def as_pointer_def store_def under_construction_def
            and_then_simps noexcept_simps)
  qed
  have assign: "operator_assign_move cfg this src s =
            (Returned (),
             s\<lparr>conts := (conts s)(src \<mapsto> c\<lparr>m_storage := heap_buffer q\<rparr>,
                                   this \<mapsto> c'\<lparr>m_storage := heap_buffer p\<rparr>)\<rparr>)"
    if "conts s src = Some c" "m_vtable c = vt" "m_storage c = heap_buffer p"
       "conts s this = Some c'" "m_vtable c' = vt" "m_storage c' = heap_buffer q"
       "src \<noteq> this"
    using that table
    by (simp add: operator_assign_move_def via_vtable_def call_def
          heap_storage_move_assign_def as_pointer_def store_def and_then_simps noexcept_simps)
  show ?thesis
  proof (intro conjI impI)
    assume "conts s src = Some c \<and> m_vtable c = vt \<and> m_storage c = heap_buffer p
            \<and> conts s this = None"
    then show "ctor_move cfg this src s =
            (Returned (),
             s\<lparr>conts := (conts s)(this \<mapsto> \<lparr>m_storage = heap_buffer p, m_vtable = vt\<rparr>,
                                   src \<mapsto> c\<lparr>m_storage := heap_buffer nullptr\<rparr>)\<rparr>)"
      by (intro construct) simp_all
  next
    assume "conts s src = Some c \<and> m_vtable c = vt \<and> m_storage c = heap_buffer p
            \<and> conts s this = Some c' \<and> m_vtable c' = vt \<and> m_storage c' = heap_buffer q
            \<and> src \<noteq> this"
    then show "operator_assign_move cfg this src s =
            (Returned (),
             s\<lparr>conts := (conts s)(src \<mapsto> c\<lparr>m_storage := heap_buffer q\<rparr>,
                                   this \<mapsto> c'\<lparr>m_storage := heap_buffer p\<rparr>)\<rparr>)"
      by (intro assign) simp_all
  qed
qed

theorem heap_move_is_pointer_transfer_witness:
  "in_heap lp64 2 \<and> get_vtable lp64 2 = well_formed big_table
   \<and> ctor_move lp64 20 10 big_at_10 =
       (Returned (),
        \<lparr> conts = [20 \<mapsto> \<lparr>m_storage = heap_buffer (Addr 0), m_vtable = big_table\<rparr>,
                   10 \<mapsto> \<lparr>m_storage = heap_buffer nullptr, m_vtable = big_table\<rparr>],
          heap = [Some \<lparr>dyn_type = 2, payload = 7\<rparr>], free_blocks = 3,
          trace = [Alloc 0, Ctor 2] \<rparr>)
   \<and> operator_assign_move lp64 10 20 big_at_10_20 =
       (Returned (),
        \<lparr> conts = [20 \<mapsto> \<lparr>m_storage = heap_buffer (Addr 0), m_vtable = big_table\<rparr>,
                   10 \<mapsto> \<lparr>m_storage = heap_buffer (Addr 1), m_vtable = big_table\<rparr>],
          heap = [Some \<lparr>dyn_type = 2, payload = 7\<rparr>, Some \<lparr>dyn_type = 2, payload = 8\<rparr>],
          free_blocks = 2, trace = [Alloc 0, Ctor 2, Alloc 1, Ctor 2] \<rparr>)"
proof -
  have big: "in_heap lp64 2"
    by (simp add: lp64_in_heap)
  from heap_move_is_pointer_transfer [OF big lp64_get_vtable_big,
         of big_at_10 10 "\<lparr>m_storage = heap_buffer (Addr 0), m_vtable = big_table\<rparr>" "Addr 0" 20]
       heap_move_is_pointer_transfer [OF big lp64_get_vtable_big,
         of big_at_10_20 20 "\<lparr>m_storage = heap_buffer (Addr 1), m_vtable = big_table\<rparr>" "Addr 1"
            10 "\<lparr>m_storage = heap_buffer (Addr 0), m_vtable = big_table\<rparr>" "Addr 0"]
       big lp64_get_vtable_big
  show ?thesis
    by (simp add: big_at_10_def big_at_10_20_def fun_upd_twist)
qed

section \<open>Allocation failure\<close>

lemma new_expr_exhausted: "free_blocks s = 0 \<Longrightarrow> new_expr cfg D i s = (Threw bad_alloc, s)"
  by (simp add: new_expr_def)

text \<open>
  Where \<open>operator new\<close> fails, \<open>build\<close> and the two copying entries of a heap table let
  \<open>bad_alloc\<close> through with the state as it was on entry, while \<open>move_raw\<close> of a heap
  table, being \<open>noexcept\<close>, ends in \<open>std::terminate\<close>.
\<close>

lemma build_exhausted:
  "free_blocks s = 0 \<Longrightarrow> in_heap cfg D \<Longrightarrow> build cfg D i this s = (Threw bad_alloc, s)"
  by (simp add: build_def in_heap_def new_expr_exhausted and_then_simps)

lemma heap_copy_raw_exhausted:
  "free_blocks s = 0 \<Longrightarrow> heap_storage_copy_raw cfg D (object d) this s = (Threw bad_alloc, s)"
  by (simp add: heap_storage_copy_raw_def as_Derived_def new_expr_exhausted and_then_simps)

lemma heap_copy_exhausted:
  "free_blocks s = 0 \<Longrightarrow> as_pointer s src = Some q \<Longrightarrow> deref s q = Some d
     \<Longrightarrow> heap_storage_copy cfg D src this s = (Threw bad_alloc, s)"
  by (simp add: heap_storage_copy_def new_expr_exhausted and_then_simps)

lemma heap_move_raw_exhausted:
  "free_blocks s = 0 \<Longrightarrow> heap_storage_move_raw cfg D (object d) this s = (Terminated, s)"
  by (simp add: heap_storage_move_raw_def as_Derived_def new_expr_exhausted and_then_simps
        noexcept_simps)

text \<open>
  C7, at a failing input. \<open>poly\<close> holds a \<open>DerivedSmall\<close> (type 1) and no block is left in
  the free store. \<open>poly = big\<close> for an lvalue \<open>big\<close> of the heap-stored type 2 throws
  \<open>bad_alloc\<close> to the caller; \<open>poly = std::move(big)\<close> does not: the exception meets the
  \<open>noexcept\<close> of \<open>heap_storage::move_raw\<close> and the program is terminated.
\<close>

theorem move_raw_allocation_failure_terminates:
  "operator_assign_value_copy lp64 2
       = well_formed (operator_assign_value_copy_body lp64 2 big_table)
   \<and> operator_assign_value_move lp64 2
       = well_formed (operator_assign_value_move_body lp64 2 big_table)
   \<and> fst (operator_assign_value_copy_body lp64 2 big_table 10 \<lparr>dyn_type = 2, payload = 3\<rparr>
            (small_at_10\<lparr>free_blocks := 0\<rparr>)) = Threw bad_alloc
   \<and> fst (operator_assign_value_move_body lp64 2 big_table 10 \<lparr>dyn_type = 2, payload = 3\<rparr>
            (small_at_10\<lparr>free_blocks := 0\<rparr>)) = Terminated"
proof -
  have inst: "operator_assign_value_copy lp64 2
       = well_formed (operator_assign_value_copy_body lp64 2 big_table)"
    "operator_assign_value_move lp64 2
       = well_formed (operator_assign_value_move_body lp64 2 big_table)"
    by (simp_all add: operator_assign_value_copy_def operator_assign_value_move_def
          static_assert_def with_vtable_def lp64_get_vtable_big lp64_fields)
  have copy: "fst (operator_assign_value_copy_body lp64 2 big_table 10 \<lparr>dyn_type = 2, payload = 3\<rparr>
            (small_at_10\<lparr>free_blocks := 0\<rparr>)) = Threw bad_alloc"
    by (simp add: operator_assign_value_copy_body_def slices_def via_vtable_def set_vtable_def
          call_destroy_def call_def local_storage_destroy_def as_Derived_def store_def log_def
          heap_copy_raw_exhausted and_then_simps small_at_10_def get_vtable_local_def
          big_table_def lp64_fields)
  have move: "fst (operator_assign_value_move_body lp64 2 big_table 10 \<lparr>dyn_type = 2, payload = 3\<rparr>
            (small_at_10\<lparr>free_blocks := 0\<rparr>)) = Terminated"
    by (simp add: operator_assign_value_move_body_def slices_def via_vtable_def set_vtable_def
          call_destroy_def call_def local_storage_destroy_def as_Derived_def store_def log_def
          heap_move_raw_exhausted and_then_simps small_at_10_def get_vtable_local_def
          big_table_def lp64_fields)
  from inst copy move show ?thesis
    by simp
qed

section \<open>Move-assignment of a type whose move assignment throws\<close>

text \<open>
  C10, at a failing input. Type 3 is nothrow-move-constructible and small, so it is
  stored inline, and its move assignment operator throws. Move-assigning one container of
  that type to another runs the operator inside \<open>local_storage::move_assign\<close>, which is
  \<open>noexcept\<close>: the program is terminated, with both containers as they were. Move
  construction, which runs the move constructor, returns.
\<close>

theorem inline_move_assignment_terminates:
  "\<not> in_heap lp64 3
   \<and> is_nothrow_move_constructible (traits_of lp64 3)
   \<and> raises (traits_of lp64 3) move_assignment
   \<and> operator_assign_move lp64 10 20 fragile_at_10_20 = (Terminated, fragile_at_10_20)
   \<and> fst (ctor_move lp64 30 20 fragile_at_10_20) = Returned ()"
proof -
  have "operator_assign_move lp64 10 20 fragile_at_10_20 = (Terminated, fragile_at_10_20)"
    by (simp add: operator_assign_move_def via_vtable_def call_def
          local_storage_move_assign_def as_Derived_def run_special_def and_then_simps
          noexcept_simps fragile_at_10_20_def get_vtable_local_def lp64_fields
          test_traits_def)
  moreover have "fst (ctor_move lp64 30 20 fragile_at_10_20) = Returned ()"
    by (simp add: ctor_move_def begin_lifetime_def under_construction_def via_vtable_def
          call_def local_storage_move_def as_Derived_def construct_def run_special_def
          store_def log_def and_then_simps noexcept_simps fragile_at_10_20_def
          get_vtable_local_def lp64_fields test_traits_def)
  ultimately show ?thesis
    by (simp add: lp64_in_heap lp64_fields test_traits_def)
qed

section \<open>Consistency is kept: the operations\<close>

lemma instantiated:
  "ctor_value cfg D = well_formed f
     \<Longrightarrow> \<exists>vt. get_vtable cfg D = well_formed vt \<and> f = ctor_value_body cfg D vt"
  "ctor_in_place cfg D = well_formed g
     \<Longrightarrow> \<exists>vt. get_vtable cfg D = well_formed vt \<and> g = ctor_in_place_body cfg D vt"
  "operator_assign_value_copy cfg D = well_formed a
     \<Longrightarrow> \<exists>vt. get_vtable cfg D = well_formed vt \<and> a = operator_assign_value_copy_body cfg D vt"
  "operator_assign_value_move cfg D = well_formed b
     \<Longrightarrow> \<exists>vt. get_vtable cfg D = well_formed vt \<and> b = operator_assign_value_move_body cfg D vt"
  "emplace cfg D = well_formed e
     \<Longrightarrow> \<exists>vt. get_vtable cfg D = well_formed vt \<and> e = emplace_body cfg D vt"
  by (auto simp: ctor_value_def ctor_in_place_def operator_assign_value_copy_def
        operator_assign_value_move_def emplace_def static_assert_def with_vtable_def
        split: if_splits compiled.splits)

lemma lp64_target_ok: "target_ok lp64"
  by (simp add: target_ok_def lp64_fields inj_def)

lemma valid_localI:
  assumes "0 < alignof_ptr cfg" "conts s n = Some c" "m_storage c = local_buffer d"
    "\<not> in_heap cfg (dyn_type d)" "get_vtable cfg (dyn_type d) = well_formed (m_vtable c)"
  shows "valid cfg s n"
  unfolding valid_iff [OF assms(1)]
  using assms(2-)
  by (intro exI [of _ d]) (simp add: holds_in_eq cell_object_def holds_heap_def)


lemma lp64_pos: "0 < alignof_ptr lp64"
  by (simp add: lp64_fields)

lemma big_at_10_consistent: "consistent lp64 big_at_10 \<and> valid lp64 big_at_10 10"
proof -
  have v: "valid lp64 big_at_10 10"
    by (simp add: valid_def get_def storage_is_local_def deref_def heap_at_def big_at_10_def
          big_table_def lp64_fields lp64_get_vtable_big [unfolded big_table_def])
  then have "\<forall>n. conts big_at_10 n \<noteq> None \<longrightarrow> valid lp64 big_at_10 n \<or> emptied lp64 big_at_10 n"
    by (auto simp: big_at_10_def split: if_splits)
  moreover have "\<forall>n m a. owned_block big_at_10 n = Some a \<longrightarrow> owned_block big_at_10 m = Some a
        \<longrightarrow> n = m"
    by (auto simp: owned_block_def big_at_10_def split: if_splits)
  ultimately show ?thesis
    using v by (simp add: consistent_def)
qed

lemma move_to_20: "ctor_move lp64 20 10 big_at_10 = (Returned (), moved_to_20)"
  by (simp add: ctor_move_def begin_lifetime_def via_vtable_def call_def
        heap_storage_move_def as_pointer_def store_def under_construction_def
        and_then_simps noexcept_simps big_at_10_def big_table_def moved_to_20_def)

text \<open>
  An entry, a \<open>build\<close> or a \<open>throw\<close> that throws leaves the containers as they were and
  the free store at most one block longer, a block that holds no object.
\<close>

lemma and_then_Threw:
  "and_then r f = (Threw e, s') \<longleftrightarrow>
     r = (Threw e, s') \<or> (\<exists>x s1. r = (Returned x, s1) \<and> f x s1 = (Threw e, s'))"
  by (cases r; cases "fst r") (auto simp: and_then_def)

lemma noexcept_not_Threw [simp]: "noexcept r \<noteq> (Threw e, s')"
  by (cases r; cases "fst r") (auto simp: noexcept_def)

lemma store_not_Threw [simp]: "store n v s \<noteq> (Threw e, s')"
  by (simp add: store_def split: option.splits)

lemma under_construction_Threw:
  "under_construction this r = (Threw e, s') \<longleftrightarrow>
     (\<exists>s1. r = (Threw e, s1) \<and> s' = s1\<lparr>conts := (conts s1)(this := None)\<rparr>)"
  by (cases r; cases "fst r") (auto simp: under_construction_def)

lemma run_special_Threw: "run_special cfg D m e s = (Threw x, s') \<Longrightarrow> s' = s"
  by (auto simp: run_special_def split: if_splits)

lemma construct_Threw: "construct cfg D i s = (Threw e, s') \<Longrightarrow> s' = s"
  by (auto simp: construct_def and_then_Threw dest: run_special_Threw
        split: init.splits ref.splits if_splits)

lemma new_expr_Threw:
  assumes "new_expr cfg D i s = (Threw e, s')"
  shows "conts s' = conts s \<and> (heap s' = heap s \<or> heap s' = heap s @ [None])"
proof (cases "free_blocks s = 0")
  case True
  with assms show ?thesis
    by (simp add: new_expr_def)
next
  case False
  let ?s1 = "log (Alloc (length (heap s)))
               (s\<lparr>heap := heap s @ [None], free_blocks := free_blocks s - 1\<rparr>)"
  obtain x s2 where c: "construct cfg D i ?s1 = (x, s2)"
    by (cases "construct cfg D i ?s1")
  with assms False have "x = Threw e"
    by (cases x) (auto simp: new_expr_def Let_def)
  with c construct_Threw have "s2 = ?s1"
    by blast
  with assms False c \<open>x = Threw e\<close> show ?thesis
    by (auto simp: new_expr_def Let_def)
qed

lemma build_Threw:
  assumes "build cfg D i this s = (Threw e, s')"
  shows "conts s' = conts s \<and> (heap s' = heap s \<or> heap s' = heap s @ [None])"
  using assms
  by (auto simp: build_def and_then_Threw dest: new_expr_Threw construct_Threw split: if_splits)

lemma throw_Threw:
  assumes "throw_bad_polymorphic_value m s = (r, s')"
  shows "conts s' = conts s \<and> (heap s' = heap s \<or> heap s' = heap s @ [None])"
  using assms by (auto simp: throw_bad_polymorphic_value_def split: if_splits)

lemma assign_through_Threw:
  "assign_through cfg D m e from dst s = (Threw x, s') \<Longrightarrow> s' = s"
  by (auto simp: assign_through_def and_then_Threw poke_def dest: run_special_Threw
        split: option.splits ptr.splits)

lemma call_Threw:
  assumes "call cfg f src dst s = (Threw e, s')"
  shows "conts s' = conts s \<and> (heap s' = heap s \<or> heap s' = heap s @ [None])"
proof (cases f)
  case (LocalCopy D)
  with assms show ?thesis
    by (auto simp: call_def local_storage_copy_def and_then_Threw dest: construct_Threw
          split: option.splits)
next
  case (LocalCopyAssign D)
  with assms show ?thesis
    by (auto simp: call_def local_storage_copy_assign_def and_then_Threw dest: run_special_Threw
          split: option.splits)
next
  case (HeapCopy D)
  with assms show ?thesis
    by (auto simp: call_def heap_storage_copy_def and_then_Threw dest: new_expr_Threw
          split: option.splits)
next
  case (HeapCopyRaw D)
  with assms show ?thesis
    by (auto simp: call_def heap_storage_copy_raw_def and_then_Threw dest: new_expr_Threw
          split: option.splits)
next
  case (HeapCopyAssign D)
  with assms show ?thesis
    by (auto simp: call_def heap_storage_copy_assign_def dest: assign_through_Threw)
next
  case (HeapCopyAssignRaw D)
  with assms show ?thesis
    by (auto simp: call_def heap_storage_copy_assign_raw_def dest: assign_through_Threw)
qed (use assms in \<open>simp_all add: call_def local_storage_move_def local_storage_move_assign_def
       heap_storage_move_def heap_storage_move_raw_def heap_storage_move_assign_def
       heap_storage_move_assign_raw_def\<close>)

lemma inv_spent:
  assumes "inv_in cfg cs h" and "h' = h \<or> h' = h @ [None]"
  shows "inv_in cfg cs h'"
  using assms inv_append [of cfg cs h None] by auto

lemma holds_in_spent:
  assumes "holds_in cfg cs h n d" and "h' = h \<or> h' = h @ [None]"
  shows "holds_in cfg cs h' n d"
  using assms holds_in_append [of cfg cs h n d None] by auto


text \<open>
  A constructor that throws leaves no container; an assignment that throws at the slicing
  check or under the table the destination has leaves every container holding what it
  held.
\<close>

lemma ctor_in_place_body_Threw:
  assumes inv: "inv_in cfg (conts s) (heap s)"
    and run: "ctor_in_place_body cfg D vt this i s = (Threw e, s')"
  shows "inv_in cfg (conts s') (heap s') \<and> conts s' = conts s"
proof -
  let ?s1 = "s\<lparr>conts := (conts s)(this \<mapsto> \<lparr>m_storage = indeterminate, m_vtable = vt\<rparr>)\<rparr>"
  from run obtain s2 where fresh: "conts s this = None"
      and b: "build cfg D i this ?s1 = (Threw e, s2)"
      and s': "s' = s2\<lparr>conts := (conts s2)(this := None)\<rparr>"
    by (auto simp: ctor_in_place_body_def under_construction_Threw and_then_Threw
          begin_lifetime_def split: option.splits)
  from build_Threw [OF b] fresh s'
  have "conts s' = conts s" and "heap s' = heap s \<or> heap s' = heap s @ [None]"
    by (auto simp: fun_eq_iff)
  with inv_spent [OF inv] show ?thesis
    by simp
qed

lemma ctor_value_body_Threw:
  assumes inv: "inv_in cfg (conts s) (heap s)"
    and run: "ctor_value_body cfg D vt this r s = (Threw e, s')"
  shows "inv_in cfg (conts s') (heap s') \<and> conts s' = conts s"
proof (cases "slices cfg D (referent r)")
  case True
  with run throw_Threw [of "''Value would slice''" s "Threw e" s'] inv_spent [OF inv]
  show ?thesis
    by (simp add: ctor_value_body_def)
next
  case False
  with run have "ctor_in_place_body cfg D vt this (forward r) s = (Threw e, s')"
    by (simp add: ctor_value_body_def ctor_in_place_body_def)
  from ctor_in_place_body_Threw [OF inv this] show ?thesis .
qed

lemma ctor_copy_Threw:
  assumes inv: "inv_in cfg (conts s) (heap s)"
    and run: "ctor_copy cfg this src s = (Threw e, s')"
  shows "inv_in cfg (conts s') (heap s') \<and> conts s' = conts s"
proof -
  from run obtain c where src: "conts s src = Some c"
    by (auto simp: ctor_copy_def split: option.splits)
  let ?s1 = "s\<lparr>conts := (conts s)(this \<mapsto> \<lparr>m_storage = indeterminate, m_vtable = m_vtable c\<rparr>)\<rparr>"
  from run src obtain s2 where fresh: "conts s this = None"
      and b: "call cfg (copy (pointee (m_vtable c))) (storage src) this ?s1 = (Threw e, s2)"
      and s': "s' = s2\<lparr>conts := (conts s2)(this := None)\<rparr>"
    by (auto simp: ctor_copy_def under_construction_Threw and_then_Threw via_vtable_def
          begin_lifetime_def split: option.splits)
  from call_Threw [OF b] fresh s'
  have "conts s' = conts s" and "heap s' = heap s \<or> heap s' = heap s @ [None]"
    by (auto simp: fun_eq_iff)
  with inv_spent [OF inv] show ?thesis
    by simp
qed

lemma ctor_move_not_Threw: "ctor_move cfg this src s \<noteq> (Threw e, s')"
  by (simp add: ctor_move_def)

lemma operator_assign_move_not_Threw: "operator_assign_move cfg this src s \<noteq> (Threw e, s')"
  by (simp add: operator_assign_move_def)

lemma kept_after_throw:
  assumes inv: "inv_in cfg (conts s) (heap s)"
    and same: "conts s' = conts s" "heap s' = heap s \<or> heap s' = heap s @ [None]"
  shows "inv_in cfg (conts s') (heap s')
       \<and> ((\<exists>d. holds_in cfg (conts s) (heap s) n d) \<longrightarrow> (\<exists>d. holds_in cfg (conts s') (heap s') n d))"
proof (intro conjI impI)
  show "inv_in cfg (conts s') (heap s')"
    using inv_spent [OF inv same(2)] same(1) by simp
  assume "\<exists>d. holds_in cfg (conts s) (heap s) n d"
  then obtain d where "holds_in cfg (conts s) (heap s) n d" ..
  from holds_in_spent [OF this same(2)] same(1)
  show "\<exists>d. holds_in cfg (conts s') (heap s') n d"
    by auto
qed

lemma operator_assign_copy_Threw:
  assumes inv: "inv_in cfg (conts s) (heap s)"
    and run: "operator_assign_copy cfg this src s = (Threw e, s')"
    and same: "tables s this = tables s src"
  shows "inv_in cfg (conts s') (heap s')
       \<and> ((\<exists>d. holds_in cfg (conts s) (heap s) this d)
            \<longrightarrow> (\<exists>d. holds_in cfg (conts s') (heap s') this d))"
proof -
  from run obtain c c' where live: "conts s this = Some c" "conts s src = Some c'" "src \<noteq> this"
    by (auto simp: operator_assign_copy_def split: option.splits if_splits)
  with same have "address (m_vtable c) = address (m_vtable c')"
    by (simp add: tables_def)
  with run live
  have "call cfg (copy_assign (pointee (m_vtable c))) (storage src) this s = (Threw e, s')"
    by (simp add: operator_assign_copy_def via_vtable_def)
  from call_Threw [OF this] show ?thesis
    by (intro kept_after_throw [OF inv]) simp_all
qed

lemma operator_assign_value_copy_body_Threw:
  assumes inv: "inv_in cfg (conts s) (heap s)"
    and run: "operator_assign_value_copy_body cfg D vt this d s = (Threw e, s')"
    and same: "slices cfg D d \<or> tables s this = Some vt"
  shows "inv_in cfg (conts s') (heap s')
       \<and> ((\<exists>d. holds_in cfg (conts s) (heap s) this d)
            \<longrightarrow> (\<exists>d. holds_in cfg (conts s') (heap s') this d))"
proof (cases "slices cfg D d")
  case True
  with run have "throw_bad_polymorphic_value ''Value would slice'' s = (Threw e, s')"
    by (simp add: operator_assign_value_copy_body_def)
  from throw_Threw [OF this] show ?thesis
    by (intro kept_after_throw [OF inv]) simp_all
next
  case False
  with run obtain c where live: "conts s this = Some c"
    by (auto simp: operator_assign_value_copy_body_def split: option.splits)
  with same False have "address (m_vtable c) = address vt"
    by (auto simp: tables_def)
  with run live False
  have "call cfg (copy_assign_raw (pointee (m_vtable c))) (object d) this s = (Threw e, s')"
    by (simp add: operator_assign_value_copy_body_def via_vtable_def)
  from call_Threw [OF this] show ?thesis
    by (intro kept_after_throw [OF inv]) simp_all
qed

lemma operator_assign_value_move_body_Threw:
  assumes inv: "inv_in cfg (conts s) (heap s)"
    and run: "operator_assign_value_move_body cfg D vt this d s = (Threw e, s')"
    and same: "slices cfg D d \<or> tables s this = Some vt"
  shows "inv_in cfg (conts s') (heap s')
       \<and> ((\<exists>d. holds_in cfg (conts s) (heap s) this d)
            \<longrightarrow> (\<exists>d. holds_in cfg (conts s') (heap s') this d))"
proof (cases "slices cfg D d")
  case True
  with run have "throw_bad_polymorphic_value ''Value would slice'' s = (Threw e, s')"
    by (simp add: operator_assign_value_move_body_def)
  from throw_Threw [OF this] show ?thesis
    by (intro kept_after_throw [OF inv]) simp_all
next
  case False
  with run obtain c where live: "conts s this = Some c"
    by (auto simp: operator_assign_value_move_body_def split: option.splits)
  with same False have "address (m_vtable c) = address vt"
    by (auto simp: tables_def)
  with run live False
  have "call cfg (move_assign_raw (pointee (m_vtable c))) (object d) this s = (Threw e, s')"
    by (simp add: operator_assign_value_move_body_def via_vtable_def)
  from call_Threw [OF this] show ?thesis
    by (intro kept_after_throw [OF inv]) simp_all
qed

text \<open>
  C3, as the code has it. The claim fails for the source of a move of a heap-held
  container, which stays alive with a null pointer. What holds: in a state where every
  live container is valid (it holds one object and its table pointer is the one for the
  type and storage kind of that object) or has been moved from (null pointer under a heap
  table), and no two containers own the same heap block, every construction, copy, move,
  assignment and \<open>emplace\<close> that returns leaves such a state. After a construction from a
  value or in place, a copy construction, an assignment of a value and an \<open>emplace\<close> the
  destination is valid; after a move construction and after an assignment from another
  container it is valid if the source was. The destructor returns and leaves such a state
  without the container. An operation that throws before it has destroyed anything leaves
  such a state too: a constructor that throws leaves the containers there were; an
  assignment that throws at the slicing check, or in place under the table the
  destination has, leaves the destination valid if it was; the move constructor and the
  move assignment from a container never throw. Left open is what an assignment that has
  destroyed the destination's object to build one of another type, or an \<open>emplace\<close>,
  leaves when the building throws.
\<close>

theorem consistency_is_kept:
  assumes ok: "target_ok cfg" and inv: "consistent cfg s"
  shows "(ctor_value cfg D = well_formed f \<and> f this r s = (Returned (), s')
            \<longrightarrow> consistent cfg s' \<and> valid cfg s' this)
       \<and> (ctor_in_place cfg D = well_formed g \<and> g this i s = (Returned (), s')
            \<longrightarrow> consistent cfg s' \<and> valid cfg s' this)
       \<and> (ctor_copy cfg this src s = (Returned (), s')
            \<longrightarrow> consistent cfg s' \<and> valid cfg s' this)
       \<and> (ctor_move cfg this src s = (Returned (), s')
            \<longrightarrow> consistent cfg s' \<and> (valid cfg s src \<longrightarrow> valid cfg s' this))
       \<and> (operator_assign_copy cfg this src s = (Returned (), s')
            \<longrightarrow> consistent cfg s' \<and> (valid cfg s src \<longrightarrow> valid cfg s' this))
       \<and> (operator_assign_move cfg this src s = (Returned (), s')
            \<longrightarrow> consistent cfg s' \<and> (valid cfg s src \<longrightarrow> valid cfg s' this))
       \<and> (operator_assign_value_copy cfg D = well_formed a \<and> a this d s = (Returned (), s')
            \<longrightarrow> consistent cfg s' \<and> valid cfg s' this)
       \<and> (operator_assign_value_move cfg D = well_formed b \<and> b this d s = (Returned (), s')
            \<longrightarrow> consistent cfg s' \<and> valid cfg s' this)
       \<and> (emplace cfg D = well_formed e \<and> e this i s = (Returned (), s')
            \<longrightarrow> consistent cfg s' \<and> valid cfg s' this)
       \<and> (conts s this \<noteq> None
            \<longrightarrow> (\<exists>t. dtor this s = (Returned (), t) \<and> conts t this = None \<and> consistent cfg t))
       \<and> (ctor_value cfg D = well_formed f \<and> f this r s = (Threw x, s')
            \<longrightarrow> consistent cfg s' \<and> conts s' = conts s)
       \<and> (ctor_in_place cfg D = well_formed g \<and> g this i s = (Threw x, s')
            \<longrightarrow> consistent cfg s' \<and> conts s' = conts s)
       \<and> (ctor_copy cfg this src s = (Threw x, s')
            \<longrightarrow> consistent cfg s' \<and> conts s' = conts s)
       \<and> ctor_move cfg this src s \<noteq> (Threw x, s')
       \<and> (operator_assign_copy cfg this src s = (Threw x, s') \<and> tables s this = tables s src
            \<longrightarrow> consistent cfg s' \<and> (valid cfg s this \<longrightarrow> valid cfg s' this))
       \<and> operator_assign_move cfg this src s \<noteq> (Threw x, s')
       \<and> (operator_assign_value_copy cfg D = well_formed a \<and> get_vtable cfg D = well_formed vt
          \<and> a this d s = (Threw x, s') \<and> (slices cfg D d \<or> tables s this = Some vt)
            \<longrightarrow> consistent cfg s' \<and> (valid cfg s this \<longrightarrow> valid cfg s' this))
       \<and> (operator_assign_value_move cfg D = well_formed b \<and> get_vtable cfg D = well_formed vt
          \<and> b this d s = (Threw x, s') \<and> (slices cfg D d \<or> tables s this = Some vt)
            \<longrightarrow> consistent cfg s' \<and> (valid cfg s this \<longrightarrow> valid cfg s' this))"
proof -
  from ok have pos: "0 < alignof_ptr cfg"
    by (simp add: target_ok_def)
  note c = consistent_iff [OF pos] and v = valid_iff [OF pos]
  from inv have inv': "inv_in cfg (conts s) (heap s)"
    by (simp add: c)
  have 1: "consistent cfg s' \<and> valid cfg s' this"
    if "ctor_value cfg D = well_formed f" "f this r s = (Returned (), s')"
    using instantiated(1) [OF that(1)] that(2) ctor_value_body_inv [OF inv']
    by (auto simp: c v)
  have 2: "consistent cfg s' \<and> valid cfg s' this"
    if "ctor_in_place cfg D = well_formed g" "g this i s = (Returned (), s')"
    using instantiated(2) [OF that(1)] that(2) ctor_in_place_body_inv [OF inv']
    by (auto simp: c v)
  have 3: "consistent cfg s' \<and> valid cfg s' this"
    if "ctor_copy cfg this src s = (Returned (), s')"
    using ctor_copy_inv [OF inv' that] by (simp add: c v)
  have 4: "consistent cfg s' \<and> (valid cfg s src \<longrightarrow> valid cfg s' this)"
    if "ctor_move cfg this src s = (Returned (), s')"
    using ctor_move_inv [OF inv' that] by (simp add: c v)
  have 5: "consistent cfg s' \<and> (valid cfg s src \<longrightarrow> valid cfg s' this)"
    if run: "operator_assign_copy cfg this src s = (Returned (), s')"
  proof (cases "src = this")
    case True
    with run have "s' = s"
      by (simp add: operator_assign_copy_def)
    with inv True show ?thesis
      by simp
  next
    case False
    from operator_assign_copy_inv [OF ok inv' False run] show ?thesis
      by (simp add: c v)
  qed
  have 6: "consistent cfg s' \<and> (valid cfg s src \<longrightarrow> valid cfg s' this)"
    if run: "operator_assign_move cfg this src s = (Returned (), s')"
  proof (cases "src = this")
    case True
    with run have "s' = s"
      by (simp add: operator_assign_move_def noexcept_simps)
    with inv True show ?thesis
      by simp
  next
    case False
    from operator_assign_move_inv [OF ok inv' False run] show ?thesis
      by (simp add: c v)
  qed
  have 7: "consistent cfg s' \<and> valid cfg s' this"
    if "operator_assign_value_copy cfg D = well_formed a" "a this d s = (Returned (), s')"
    using instantiated(3) [OF that(1)] that(2) operator_assign_value_copy_body_inv [OF ok inv']
    by (auto simp: c v)
  have 8: "consistent cfg s' \<and> valid cfg s' this"
    if "operator_assign_value_move cfg D = well_formed b" "b this d s = (Returned (), s')"
    using instantiated(4) [OF that(1)] that(2) operator_assign_value_move_body_inv [OF ok inv']
    by (auto simp: c v)
  have 9: "consistent cfg s' \<and> valid cfg s' this"
    if "emplace cfg D = well_formed e" "e this i s = (Returned (), s')"
    using instantiated(5) [OF that(1)] that(2) emplace_body_inv [OF inv']
    by (auto simp: c v)
  have 10: "\<exists>t. dtor this s = (Returned (), t) \<and> conts t this = None \<and> consistent cfg t"
    if "conts s this \<noteq> None"
    using dtor_inv [OF inv' that] by (simp add: c)
  have 11: "consistent cfg s' \<and> conts s' = conts s"
    if "ctor_value cfg D = well_formed f" "f this r s = (Threw x, s')"
  proof -
    from instantiated(1) [OF that(1)] that(2)
    obtain vt where "ctor_value_body cfg D vt this r s = (Threw x, s')"
      by auto
    from ctor_value_body_Threw [OF inv' this] show ?thesis
      unfolding c .
  qed
  have 12: "consistent cfg s' \<and> conts s' = conts s"
    if "ctor_in_place cfg D = well_formed g" "g this i s = (Threw x, s')"
  proof -
    from instantiated(2) [OF that(1)] that(2)
    obtain vt where "ctor_in_place_body cfg D vt this i s = (Threw x, s')"
      by auto
    from ctor_in_place_body_Threw [OF inv' this] show ?thesis
      unfolding c .
  qed
  have 13: "consistent cfg s' \<and> conts s' = conts s"
    if "ctor_copy cfg this src s = (Threw x, s')"
    using ctor_copy_Threw [OF inv' that] unfolding c .
  have 14: "consistent cfg s' \<and> (valid cfg s this \<longrightarrow> valid cfg s' this)"
    if "operator_assign_copy cfg this src s = (Threw x, s')" "tables s this = tables s src"
    using operator_assign_copy_Threw [OF inv' that] by (simp add: c v)
  have 15: "consistent cfg s' \<and> (valid cfg s this \<longrightarrow> valid cfg s' this)"
    if "operator_assign_value_copy cfg D = well_formed a" "get_vtable cfg D = well_formed vt"
      "a this d s = (Threw x, s')" "slices cfg D d \<or> tables s this = Some vt"
  proof -
    from instantiated(3) [OF that(1)] that(2)
    have "a = operator_assign_value_copy_body cfg D vt"
      by auto
    with that(3) have "operator_assign_value_copy_body cfg D vt this d s = (Threw x, s')"
      by simp
    from operator_assign_value_copy_body_Threw [OF inv' this that(4)] show ?thesis
      by (simp add: c v)
  qed
  have 16: "consistent cfg s' \<and> (valid cfg s this \<longrightarrow> valid cfg s' this)"
    if "operator_assign_value_move cfg D = well_formed b" "get_vtable cfg D = well_formed vt"
      "b this d s = (Threw x, s')" "slices cfg D d \<or> tables s this = Some vt"
  proof -
    from instantiated(4) [OF that(1)] that(2)
    have "b = operator_assign_value_move_body cfg D vt"
      by auto
    with that(3) have "operator_assign_value_move_body cfg D vt this d s = (Threw x, s')"
      by simp
    from operator_assign_value_move_body_Threw [OF inv' this that(4)] show ?thesis
      by (simp add: c v)
  qed
  note returns = 1 2 3 4 5 6 7 8 9 10
  note throws = 11 12 13 ctor_move_not_Threw 14 operator_assign_move_not_Threw 15 16
  show ?thesis
    by (intro conjI; (intro impI)?; (elim conjE)?; (rule returns throws; assumption))
qed

theorem consistency_is_kept_witness:
  "target_ok lp64 \<and> consistent lp64 big_at_10 \<and> valid lp64 big_at_10 10
   \<and> ctor_move lp64 20 10 big_at_10 = (Returned (), moved_to_20)
   \<and> consistent lp64 moved_to_20 \<and> valid lp64 moved_to_20 20
   \<and> conts big_at_10 10 \<noteq> None
   \<and> (\<exists>t. dtor 10 big_at_10 = (Returned (), t) \<and> conts t 10 = None \<and> consistent lp64 t)
   \<and> operator_assign_value_copy lp64 1
       = well_formed (operator_assign_value_copy_body lp64 1 (get_vtable_local lp64 1))
   \<and> get_vtable lp64 1 = well_formed (get_vtable_local lp64 1)
   \<and> slices lp64 1 \<lparr>dyn_type = 4, payload = 9\<rparr>
   \<and> operator_assign_value_copy_body lp64 1 (get_vtable_local lp64 1) 10
         \<lparr>dyn_type = 4, payload = 9\<rparr> big_at_10
       = (Threw (bad_polymorphic_value ''Value would slice''),
          big_at_10\<lparr>heap := [Some \<lparr>dyn_type = 2, payload = 7\<rparr>, None], free_blocks := 2,
            trace := [Alloc 0, Ctor 2, Alloc 1]\<rparr>)
   \<and> consistent lp64
        (big_at_10\<lparr>heap := [Some \<lparr>dyn_type = 2, payload = 7\<rparr>, None], free_blocks := 2,
           trace := [Alloc 0, Ctor 2, Alloc 1]\<rparr>)
   \<and> valid lp64
        (big_at_10\<lparr>heap := [Some \<lparr>dyn_type = 2, payload = 7\<rparr>, None], free_blocks := 2,
           trace := [Alloc 0, Ctor 2, Alloc 1]\<rparr>) 10"
proof -
  let ?d = "\<lparr>dyn_type = 4, payload = 9\<rparr>"
  let ?after = "big_at_10\<lparr>heap := [Some \<lparr>dyn_type = 2, payload = 7\<rparr>, None], free_blocks := 2,
           trace := [Alloc 0, Ctor 2, Alloc 1]\<rparr>"
  have live: "conts big_at_10 10 \<noteq> None"
    by (simp add: big_at_10_def)
  have inst: "operator_assign_value_copy lp64 1
       = well_formed (operator_assign_value_copy_body lp64 1 (get_vtable_local lp64 1))"
    and table: "get_vtable lp64 1 = well_formed (get_vtable_local lp64 1)"
    by (simp_all add: operator_assign_value_copy_def static_assert_def with_vtable_def
          lp64_get_vtable_local lp64_in_heap)
  have cut: "slices lp64 1 ?d"
    by (simp add: slices_def lp64_fields)
  have thrown: "operator_assign_value_copy_body lp64 1 (get_vtable_local lp64 1) 10 ?d big_at_10
       = (Threw (bad_polymorphic_value ''Value would slice''), ?after)"
    by (simp add: operator_assign_value_copy_body_def slices_def lp64_fields
          throw_bad_polymorphic_value_def log_def big_at_10_def)
  note kept = consistency_is_kept [OF lp64_target_ok conjunct1 [OF big_at_10_consistent]]
  note moved = kept [where this = 20 and src = 10 and s' = moved_to_20,
      THEN conjunct2, THEN conjunct2, THEN conjunct2, THEN conjunct1, THEN mp, OF move_to_20]
  note gone = kept [where this = 10,
      THEN conjunct2, THEN conjunct2, THEN conjunct2, THEN conjunct2, THEN conjunct2,
      THEN conjunct2, THEN conjunct2, THEN conjunct2, THEN conjunct2, THEN conjunct1,
      THEN mp, OF live]
  note sliced = kept [where this = 10 and s' = ?after,
      THEN conjunct2, THEN conjunct2, THEN conjunct2, THEN conjunct2, THEN conjunct2,
      THEN conjunct2, THEN conjunct2, THEN conjunct2, THEN conjunct2, THEN conjunct2,
      THEN conjunct2, THEN conjunct2, THEN conjunct2, THEN conjunct2, THEN conjunct2,
      THEN conjunct2, THEN conjunct1, THEN mp,
      OF conjI [OF inst conjI [OF table conjI [OF thrown disjI1 [OF cut]]]]]
  from moved big_at_10_consistent
  have there: "consistent lp64 moved_to_20" "valid lp64 moved_to_20 20"
    by simp_all
  from sliced big_at_10_consistent
  have still: "consistent lp64 ?after" "valid lp64 ?after 10"
    by simp_all
  from lp64_target_ok big_at_10_consistent move_to_20 there live gone inst table cut thrown still
  show ?thesis
    by (intro conjI) simp_all
qed

text \<open>
  The source of that move is alive and holds no object: \<open>get()\<close> returns a null pointer.
\<close>

theorem moved_from_container_holds_nothing:
  "valid lp64 big_at_10 10
   \<and> ctor_move lp64 20 10 big_at_10 = (Returned (), moved_to_20)
   \<and> conts moved_to_20 10 = Some \<lparr>m_storage = heap_buffer nullptr, m_vtable = big_table\<rparr>
   \<and> get lp64 moved_to_20 10 = None
   \<and> \<not> valid lp64 moved_to_20 10"
  using big_at_10_consistent move_to_20
  by (simp add: valid_def get_def storage_is_local_def deref_def moved_to_20_def big_table_def
        lp64_fields)

text \<open>
  What is left open, at an input. \<open>poly\<close> holds a \<open>DerivedSmall\<close> and no block is left in
  the free store: \<open>poly.emplace<...>(5)\<close> for the heap-stored type 2 destroys the object,
  switches the table and throws \<open>bad_alloc\<close> from \<open>build\<close>. The container is alive with
  the table of type 2 over a cell without an object: it is neither valid nor moved from,
  and its destructor, which deletes what the cell holds as a pointer, is undefined.
\<close>

lemma failed_build_leaves_no_object:
  "consistent lp64 (small_at_10\<lparr>free_blocks := 0\<rparr>)
   \<and> valid lp64 (small_at_10\<lparr>free_blocks := 0\<rparr>) 10
   \<and> emplace lp64 2 = well_formed (emplace_body lp64 2 big_table)
   \<and> emplace_body lp64 2 big_table 10 (args 5) (small_at_10\<lparr>free_blocks := 0\<rparr>)
       = (Threw bad_alloc, small_destroyed_at_10)
   \<and> conts small_destroyed_at_10 10 = Some \<lparr>m_storage = indeterminate, m_vtable = big_table\<rparr>
   \<and> get lp64 small_destroyed_at_10 10 = None
   \<and> \<not> valid lp64 small_destroyed_at_10 10
   \<and> \<not> emptied lp64 small_destroyed_at_10 10
   \<and> \<not> consistent lp64 small_destroyed_at_10
   \<and> fst (dtor 10 small_destroyed_at_10) = Undefined"
proof -
  let ?s = "small_at_10\<lparr>free_blocks := 0\<rparr>"
  have v: "valid lp64 ?s 10"
    by (rule valid_localI [OF lp64_pos, where d = "\<lparr>dyn_type = 1, payload = 7\<rparr>"
          and c = "\<lparr>m_storage = local_buffer \<lparr>dyn_type = 1, payload = 7\<rparr>,
                    m_vtable = get_vtable_local lp64 1\<rparr>"])
       (simp_all add: small_at_10_def lp64_in_heap lp64_get_vtable_local)
  have live: "n = 10" if "conts ?s n \<noteq> None" for n
    using that by (auto simp: small_at_10_def split: if_splits)
  have own: "owned_block ?s n = None" for n
    by (auto simp: owned_block_def small_at_10_def)
  from v live own have a: "consistent lp64 ?s"
    unfolding consistent_def by (metis option.distinct(1))
  have b: "emplace lp64 2 = well_formed (emplace_body lp64 2 big_table)"
    by (simp add: emplace_def static_assert_def with_vtable_def lp64_get_vtable_big lp64_fields)
  have c: "emplace_body lp64 2 big_table 10 (args 5) ?s = (Threw bad_alloc, small_destroyed_at_10)"
    by (simp add: emplace_body_def via_vtable_def set_vtable_def call_destroy_def
          local_storage_destroy_def as_Derived_def store_def log_def build_def new_expr_def
          store_in_heap_def and_then_simps small_at_10_def small_destroyed_at_10_def
          get_vtable_local_def big_table_def lp64_fields test_traits_def)
  have d: "conts small_destroyed_at_10 10 = Some \<lparr>m_storage = indeterminate, m_vtable = big_table\<rparr>"
    by (simp add: small_destroyed_at_10_def)
  have e: "get lp64 small_destroyed_at_10 10 = None"
    by (simp add: get_def d)
  then have f: "\<not> valid lp64 small_destroyed_at_10 10"
    by (simp add: valid_def d)
  have g: "\<not> emptied lp64 small_destroyed_at_10 10"
    by (simp add: emptied_def d)
  from d f g have h: "\<not> consistent lp64 small_destroyed_at_10"
    unfolding consistent_def by (metis option.distinct(1))
  have i: "fst (dtor 10 small_destroyed_at_10) = Undefined"
    by (simp add: dtor_def via_vtable_def d call_destroy_def heap_storage_destroy_def
          as_pointer_def and_then_simps big_table_def)
  from a v b c d e f g h i show ?thesis
    by (intro conjI)
qed

section \<open>The two paths of an assignment\<close>

lemma tables_simps [simp]:
  "tables (log e s) = tables s"
  "tables (s\<lparr>heap := h\<rparr>) = tables s"
  "tables (s\<lparr>free_blocks := k\<rparr>) = tables s"
  "tables (s\<lparr>trace := t\<rparr>) = tables s"
  by (simp_all add: tables_def fun_eq_iff log_def)



















































lemma built_lvalue [simp]:
  "built D (forward (lvalue d)) = \<lparr>dyn_type = D, payload = payload d\<rparr>"
  "built D (forward (rvalue d)) = \<lparr>dyn_type = D, payload = payload d\<rparr>"
  "construction_event D (forward (lvalue d)) = CopyCtor D"
  "construction_event D (forward (rvalue d)) = MoveCtor D"
  "special_of (forward (lvalue d)) = copy_constructor"
  "special_of (forward (rvalue d)) = move_constructor"
  by (simp_all add: built_def construction_event_def special_of_def referent_def)



























end
